(* ===== verification/Prelude.thy ===== *)
theory Prelude
  imports Main "HOL-Library.Word" "HOL-Library.AList"
begin

text \<open>
  Shared ground of the development: Rust's \<open>Result\<close> as a sum with its \<open>?\<close>
  operator, the outcome of an operation that may also panic, decimal rendering and
  parsing of unsigned integers, and the collections of rewrite rules the component
  theories add to.

  \<^item> \<open>result_simps\<close>: how the \<open>?\<close> operator (\<open>rbind\<close>) and its relatives reduce;
  \<^item> \<open>text_simps\<close>: characterisations of the Rust \<open>str\<close> operations;
  \<^item> \<open>op_defs\<close>: the definitions of the operations of the stateful components.
\<close>

named_theorems result_simps \<open>reduction of Result combinators\<close>
named_theorems text_simps \<open>characterisations of the str operations\<close>
named_theorems op_defs \<open>definitions of component operations\<close>

type_synonym ('e, 'a) result = "'e + 'a"

abbreviation (input) Ok :: "'a \<Rightarrow> ('e, 'a) result" where
  "Ok x \<equiv> Inr x"

abbreviation (input) Err :: "'e \<Rightarrow> ('e, 'a) result" where
  "Err e \<equiv> Inl e"

text \<open>
  A Rust \<open>str\<close> or \<open>String\<close> is the list of its UTF-8 bytes, one \<open>char\<close> per byte,
  so \<open>length\<close> is \<open>str::len\<close>. The machine types keep their width.
\<close>

type_synonym str = string
type_synonym u8 = "8 word"
type_synonym u16 = "16 word"
type_synonym u32 = "32 word"
type_synonym u64 = "64 word"

subsection \<open>The question-mark operator\<close>

primrec rbind :: "('e, 'a) result \<Rightarrow> ('a \<Rightarrow> ('e, 'b) result) \<Rightarrow> ('e, 'b) result" where
  "rbind (Inl e) f = Inl e"
| "rbind (Inr x) f = f x"

primrec map_err :: "('e \<Rightarrow> 'f) \<Rightarrow> ('e, 'a) result \<Rightarrow> ('f, 'a) result" where
  "map_err g (Inl e) = Inl (g e)"
| "map_err g (Inr x) = Inr x"

primrec map_ok :: "('a \<Rightarrow> 'b) \<Rightarrow> ('e, 'a) result \<Rightarrow> ('e, 'b) result" where
  "map_ok g (Inl e) = Inl e"
| "map_ok g (Inr x) = Inr (g x)"

primrec is_ok :: "('e, 'a) result \<Rightarrow> bool" where
  "is_ok (Inl e) = False"
| "is_ok (Inr x) = True"

primrec unwrap_or :: "('e, 'a) result \<Rightarrow> 'a \<Rightarrow> 'a" where
  "unwrap_or (Inl e) d = d"
| "unwrap_or (Inr x) d = x"

primrec ok_or :: "'e \<Rightarrow> 'a option \<Rightarrow> ('e, 'a) result" where
  "ok_or e None = Inl e"
| "ok_or e (Some x) = Inr x"

primrec opt_unwrap_or :: "'a option \<Rightarrow> 'a \<Rightarrow> 'a" where
  "opt_unwrap_or None d = d"
| "opt_unwrap_or (Some x) d = x"

text \<open>\<open>Option::filter\<close>.\<close>

primrec opt_filter :: "('a \<Rightarrow> bool) \<Rightarrow> 'a option \<Rightarrow> 'a option" where
  "opt_filter P None = None"
| "opt_filter P (Some x) = (if P x then Some x else None)"

lemma rbind_Inr_iff [result_simps]:
  "rbind r f = Inr y \<longleftrightarrow> (\<exists>x. r = Inr x \<and> f x = Inr y)"
  by (cases r) auto

lemma rbind_Inl_iff [result_simps]:
  "rbind r f = Inl e \<longleftrightarrow> r = Inl e \<or> (\<exists>x. r = Inr x \<and> f x = Inl e)"
  by (cases r) auto

lemma ok_or_Inr_iff [result_simps]: "ok_or e m = Inr x \<longleftrightarrow> m = Some x"
  by (cases m) auto

lemma ok_or_Inl_iff [result_simps]: "ok_or e m = Inl e' \<longleftrightarrow> m = None \<and> e' = e"
  by (cases m) auto

lemma opt_filter_Some_iff [result_simps]:
  "opt_filter P m = Some x \<longleftrightarrow> m = Some x \<and> P x"
  by (cases m) auto

lemma opt_filter_None_iff [result_simps]:
  "opt_filter P m = None \<longleftrightarrow> (\<forall>x. m = Some x \<longrightarrow> \<not> P x)"
  by (cases m) auto

lemma opt_filter_opt_filter [simp]:
  "opt_filter P (opt_filter Q m) = opt_filter (\<lambda>x. P x \<and> Q x) m"
  by (cases m) auto

lemma opt_filter_False [simp]: "(\<And>x. \<not> P x) \<Longrightarrow> opt_filter P m = None"
  by (cases m) auto

lemma option_eqI: "(\<And>x. a = Some x \<longleftrightarrow> b = Some x) \<Longrightarrow> a = b"
  by (cases a; cases b) auto

subsection \<open>Operations that may panic\<close>

text \<open>
  Some arithmetic of the standard library panics (addition of two \<open>Duration\<close>s past
  the largest one). An operation that reaches it returns an \<open>outcome\<close>: either it
  returns, or the task that runs it is gone.
\<close>

datatype 'a outcome = Returns 'a | Panics

primrec obind :: "'a outcome \<Rightarrow> ('a \<Rightarrow> 'b outcome) \<Rightarrow> 'b outcome" where
  "obind (Returns x) f = f x"
| "obind Panics f = Panics"

lemma obind_Returns_iff [result_simps]:
  "obind m f = Returns y \<longleftrightarrow> (\<exists>x. m = Returns x \<and> f x = Returns y)"
  by (cases m) auto

lemma obind_Panics_iff [result_simps]:
  "obind m f = Panics \<longleftrightarrow> m = Panics \<or> (\<exists>x. m = Returns x \<and> f x = Panics)"
  by (cases m) auto

subsection \<open>Decimal numbers\<close>

text \<open>\<open>format!("{}", n)\<close> for an unsigned integer.\<close>

definition digit_char :: "nat \<Rightarrow> char" where
  "digit_char d = char_of (48 + d)"

fun show_nat :: "nat \<Rightarrow> str" where
  "show_nat n = (if n < 10 then [digit_char n] else show_nat (n div 10) @ [digit_char (n mod 10)])"

declare show_nat.simps [simp del]

text \<open>
  \<open>str::parse\<close> for an unsigned integer type whose values are below \<open>m\<close>: an optional
  plus sign, then at least one digit, and no overflow.
\<close>

definition is_digit :: "char \<Rightarrow> bool" where
  "is_digit c \<longleftrightarrow> 48 \<le> (of_char c :: nat) \<and> (of_char c :: nat) \<le> 57"

definition digit_val :: "char \<Rightarrow> nat" where
  "digit_val c = of_char c - 48"

fun digits_val :: "nat \<Rightarrow> str \<Rightarrow> nat option" where
  "digits_val acc [] = Some acc"
| "digits_val acc (c # s) =
     (if is_digit c then digits_val (10 * acc + digit_val c) s else None)"

definition parse_uint :: "nat \<Rightarrow> str \<Rightarrow> nat option" where
  "parse_uint m s =
     (let ds = (case s of [] \<Rightarrow> [] | c # cs \<Rightarrow> if c = CHR ''+'' then cs else s)
      in if ds = [] then None
         else opt_filter (\<lambda>n. n < m) (digits_val 0 ds))"

lemma digit_char_digit [simp]: "d < 10 \<Longrightarrow> is_digit (digit_char d)"
  by (simp add: is_digit_def digit_char_def)

lemma digit_val_char [simp]: "d < 10 \<Longrightarrow> digit_val (digit_char d) = d"
  by (simp add: digit_val_def digit_char_def)

lemma digits_val_append:
  "digits_val acc (s @ t) = Option.bind (digits_val acc s) (\<lambda>a. digits_val a t)"
  by (induction s arbitrary: acc) auto

lemma digits_val_show_nat: "digits_val 0 (show_nat n) = Some n"
proof (induction n rule: show_nat.induct)
  case (1 n)
  show ?case
  proof (cases "n < 10")
    case True
    then show ?thesis by (simp add: show_nat.simps [of n])
  next
    case False
    with "1.IH" show ?thesis
      by (simp add: show_nat.simps [of n] digits_val_append)
  qed
qed

lemma show_nat_digits: "\<forall>c \<in> set (show_nat n). is_digit c"
proof (induction n rule: show_nat.induct)
  case (1 n)
  then show ?case
    by (cases "n < 10") (auto simp: show_nat.simps [of n])
qed

lemma show_nat_Nil [simp]: "show_nat n \<noteq> []"
  by (subst show_nat.simps) simp

lemma plus_not_digit [simp]: "\<not> is_digit (CHR ''+'')"
  by (simp add: is_digit_def)

text \<open>Parsing what was printed gives the number back, where it fits the type.\<close>

lemma parse_show_nat: "n < m \<Longrightarrow> parse_uint m (show_nat n) = Some n"
proof -
  assume "n < m"
  have "hd (show_nat n) \<noteq> CHR ''+''"
    using show_nat_digits [of n] plus_not_digit hd_in_set [OF show_nat_Nil] by metis
  then have "(case show_nat n of [] \<Rightarrow> [] | c # cs \<Rightarrow> if c = CHR ''+'' then cs else show_nat n)
      = show_nat n"
    by (cases "show_nat n") auto
  with \<open>n < m\<close> show ?thesis
    by (simp add: parse_uint_def digits_val_show_nat)
qed

lemma parse_uint_bound: "parse_uint m s = Some n \<Longrightarrow> n < m"
  by (auto simp: parse_uint_def Let_def result_simps split: if_splits)

subsection \<open>Lists\<close>

lemma find_Some_in: "find P xs = Some x \<Longrightarrow> x \<in> set xs \<and> P x"
  by (induction xs) (auto split: if_splits)

lemma find_None_all: "find P xs = None \<Longrightarrow> x \<in> set xs \<Longrightarrow> \<not> P x"
  by (induction xs) (auto split: if_splits)

text \<open>With distinct keys the first match is the only one.\<close>

lemma find_distinct_key:
  assumes "distinct (map f xs)" and "x \<in> set xs"
  shows "find (\<lambda>y. f y = f x) xs = Some x"
  using assms by (induction xs) auto

lemma find_key_Some_iff:
  assumes "distinct (map f xs)"
  shows "find (\<lambda>y. f y = k) xs = Some x \<longleftrightarrow> x \<in> set xs \<and> f x = k"
  using assms find_distinct_key find_Some_in by fastforce

end
