(* ===== verification/Hash_Map.thy ===== *)
theory Hash_Map
  imports Prelude
begin

text \<open>
  \<open>std::collections::HashMap\<close> as its clients see it. The locale \<open>hash_table\<close> is the
  contract: what a lookup returns after an insert, a removal or a \<open>retain\<close>, and that
  iteration yields every entry exactly once, in an order nothing may depend on. The
  lemmas the session manager and the quota tracker need are proved once, inside it.

  The model's own maps are association lists with distinct keys; the interpretation
  \<open>hm\<close> discharges the contract for them. Rust's iteration order is unspecified and the
  list order stands for it, so theorems about iteration speak of sets.
\<close>

locale hash_table =
  fixes empty :: 'm
    and get :: "'m \<Rightarrow> 'k \<Rightarrow> 'v option"
    and ins :: "'k \<Rightarrow> 'v \<Rightarrow> 'm \<Rightarrow> 'm"
    and del :: "'k \<Rightarrow> 'm \<Rightarrow> 'm"
    and keep :: "('k \<Rightarrow> 'v \<Rightarrow> bool) \<Rightarrow> 'm \<Rightarrow> 'm"
    and entries :: "'m \<Rightarrow> ('k \<times> 'v) list"
    and good :: "'m \<Rightarrow> bool"
  assumes get_empty: "get empty k = None"
    and get_ins: "good m \<Longrightarrow> get (ins k v m) = (get m)(k \<mapsto> v)"
    and get_del: "good m \<Longrightarrow> get (del k m) = (get m)(k := None)"
    and get_keep: "good m \<Longrightarrow> get (keep P m) k = opt_filter (P k) (get m k)"
    and get_entries: "good m \<Longrightarrow> get m = map_of (entries m)"
    and distinct_entries: "good m \<Longrightarrow> distinct (map fst (entries m))"
    and good_empty: "good empty"
    and good_ins: "good m \<Longrightarrow> good (ins k v m)"
    and good_del: "good m \<Longrightarrow> good (del k m)"
    and good_keep: "good m \<Longrightarrow> good (keep P m)"
begin

lemma entries_iff: "good m \<Longrightarrow> (k, v) \<in> set (entries m) \<longleftrightarrow> get m k = Some v"
  by (simp add: get_entries distinct_entries)

lemma values_ran: "good m \<Longrightarrow> set (map snd (entries m)) = ran (get m)"
  by (simp add: get_entries distinct_entries ran_distinct)

lemma good_fold_del: "good m \<Longrightarrow> good (fold del ks m)"
  by (induction ks arbitrary: m) (auto intro: good_del)

lemma get_fold_del:
  "good m \<Longrightarrow> get (fold del ks m) k = (if k \<in> set ks then None else get m k)"
  by (induction ks arbitrary: m) (auto simp: get_del good_del)

lemma fold_ins:
  "good m \<Longrightarrow> good (fold (\<lambda>x. ins (f x) (g x)) xs m) \<and>
     get (fold (\<lambda>x. ins (f x) (g x)) xs m) = get m ++ map_of (rev (map (\<lambda>x. (f x, g x)) xs))"
  by (induction xs arbitrary: m) (simp_all add: good_ins get_ins)

lemma dom_ins: "good m \<Longrightarrow> dom (get (ins k v m)) = insert k (dom (get m))"
  by (simp add: get_ins)

lemma length_entries: "good m \<Longrightarrow> length (entries m) = card (dom (get m))"
proof -
  assume good: "good m"
  have "dom (get m) = set (map fst (entries m))"
    using good by (simp add: get_entries dom_map_of_conv_image_fst)
  moreover have "card (set (map fst (entries m))) = length (map fst (entries m))"
    by (rule distinct_card) (rule distinct_entries [OF good])
  ultimately show ?thesis by simp
qed

lemma finite_dom: "good m \<Longrightarrow> finite (dom (get m))"
  by (simp add: get_entries finite_dom_map_of)

end

subsection \<open>Association lists with distinct keys\<close>

type_synonym ('k, 'v) hash_map = "('k \<times> 'v) list"

abbreviation hm_empty :: "('k, 'v) hash_map" where
  "hm_empty \<equiv> []"

definition hm_get :: "('k, 'v) hash_map \<Rightarrow> 'k \<Rightarrow> 'v option" where
  "hm_get m = map_of m"

definition hm_insert :: "'k \<Rightarrow> 'v \<Rightarrow> ('k, 'v) hash_map \<Rightarrow> ('k, 'v) hash_map" where
  "hm_insert k v m = AList.update k v m"

definition hm_remove :: "'k \<Rightarrow> ('k, 'v) hash_map \<Rightarrow> ('k, 'v) hash_map" where
  "hm_remove k m = AList.delete k m"

definition hm_retain ::
    "('k \<Rightarrow> 'v \<Rightarrow> bool) \<Rightarrow> ('k, 'v) hash_map \<Rightarrow> ('k, 'v) hash_map" where
  "hm_retain P m = filter (\<lambda>(k, v). P k v) m"

definition hm_ok :: "('k, 'v) hash_map \<Rightarrow> bool" where
  "hm_ok m \<longleftrightarrow> distinct (map fst m)"

abbreviation hm_values :: "('k, 'v) hash_map \<Rightarrow> 'v list" where
  "hm_values m \<equiv> map snd m"

lemma map_of_filter_key:
  "distinct (map fst m) \<Longrightarrow>
     map_of (filter (\<lambda>(k, v). P k v) m) k = opt_filter (P k) (map_of m k)"
proof (induction m)
  case Nil
  then show ?case by simp
next
  case (Cons kv m)
  then have "map_of m (fst kv) = None"
    by (simp add: map_of_eq_None_iff)
  with Cons show ?case by (cases kv) auto
qed

lemmas hm_defs = hm_get_def hm_insert_def hm_remove_def hm_retain_def hm_ok_def

interpretation hm: hash_table hm_empty hm_get hm_insert hm_remove hm_retain "\<lambda>m. m" hm_ok
  by unfold_locales
    (auto simp: hm_defs update_conv' delete_conv' map_of_filter_key distinct_update
      distinct_delete intro: distinct_map_filter)

lemmas hm_simps [simp] =
  hm.get_empty hm.get_ins hm.get_del hm.get_keep hm.good_empty hm.good_ins hm.good_del
  hm.good_keep hm.get_fold_del hm.good_fold_del

end
