(* ===== verification/Rust_Text.thy ===== *)
theory Rust_Text
  imports Prelude "HOL-Library.Sublist"
begin

text \<open>
  The \<open>str\<close> operations of the Rust standard library the playground uses, on UTF-8
  bytes: prefix tests, substring search, replacement, splitting, lines, trimming and
  ASCII case. Inputs are valid UTF-8, as every Rust \<open>str\<close> is; the operations below
  agree with the library's on such inputs.

  The lemmas characterise each operation (\<open>prefix\<close>, \<open>sublist\<close>, rejoining a split) so
  that the components never unfold them.
\<close>

subsection \<open>Prefixes and substrings\<close>

fun starts_with :: "str \<Rightarrow> str \<Rightarrow> bool" where
  "starts_with s [] = True"
| "starts_with [] (p # ps) = False"
| "starts_with (c # s) (p # ps) = (c = p \<and> starts_with s ps)"

fun strip_prefix :: "str \<Rightarrow> str \<Rightarrow> str option" where
  "strip_prefix s [] = Some s"
| "strip_prefix [] (p # ps) = None"
| "strip_prefix (c # s) (p # ps) = (if c = p then strip_prefix s ps else None)"

definition ends_with :: "str \<Rightarrow> str \<Rightarrow> bool" where
  "ends_with s p = starts_with (rev s) (rev p)"

fun contains :: "str \<Rightarrow> str \<Rightarrow> bool" where
  "contains [] p = (p = [])"
| "contains (c # s) p = (starts_with (c # s) p \<or> contains s p)"

text \<open>\<open>str::find\<close>: the byte offset of the first occurrence.\<close>

fun find_sub :: "str \<Rightarrow> str \<Rightarrow> nat option" where
  "find_sub [] p = (if p = [] then Some 0 else None)"
| "find_sub (c # s) p =
     (if starts_with (c # s) p then Some 0 else map_option Suc (find_sub s p))"

lemma starts_with_iff [text_simps]: "starts_with s p \<longleftrightarrow> prefix p s"
  by (induction s p rule: starts_with.induct) auto

lemma strip_prefix_iff [text_simps]: "strip_prefix s p = Some t \<longleftrightarrow> s = p @ t"
  by (induction s p rule: strip_prefix.induct) auto

lemma strip_prefix_None_iff [text_simps]: "strip_prefix s p = None \<longleftrightarrow> \<not> prefix p s"
  by (induction s p rule: strip_prefix.induct) auto

lemma strip_prefix_append [simp]: "strip_prefix (p @ t) p = Some t"
  by (simp add: strip_prefix_iff)

lemma starts_with_append [simp]: "starts_with (p @ t) p"
  by (simp add: starts_with_iff)

lemma strip_prefix_length: "strip_prefix s p = Some t \<Longrightarrow> length s = length p + length t"
  by (simp add: strip_prefix_iff)

lemma ends_with_iff [text_simps]: "ends_with s p \<longleftrightarrow> suffix p s"
  by (simp add: ends_with_def starts_with_iff suffix_to_prefix)

lemma contains_iff [text_simps]: "contains s p \<longleftrightarrow> sublist p s"
  by (induction s) (auto simp: starts_with_iff sublist_Cons_right)

lemma find_sub_Some:
  "find_sub s p = Some i \<Longrightarrow> i \<le> length s \<and> prefix p (drop i s) \<and> (\<forall>j < i. \<not> prefix p (drop j s))"
proof (induction s arbitrary: i)
  case Nil
  then show ?case by (auto split: if_splits)
next
  case (Cons c s)
  show ?case
  proof (cases "starts_with (c # s) p")
    case True
    with Cons.prems show ?thesis by (auto simp: starts_with_iff)
  next
    case False
    with Cons.prems obtain k where k: "find_sub s p = Some k" and i: "i = Suc k" by auto
    from Cons.IH [OF k] False show ?thesis
      unfolding i by (auto simp: starts_with_iff less_Suc_eq_0_disj)
  qed
qed

subsection \<open>Replacement\<close>

text \<open>
  \<open>str::replace\<close> with a non-empty pattern, which is the only use in the code: matches
  are taken from the left and do not overlap. (With an empty pattern the model leaves
  the text alone; no caller does that.)
\<close>

function replace_all :: "str \<Rightarrow> str \<Rightarrow> str \<Rightarrow> str" where
  "replace_all s p r =
     (case s of
        [] \<Rightarrow> []
      | c # cs \<Rightarrow>
          if p = [] then s
          else (case strip_prefix s p of
                  Some t \<Rightarrow> r @ replace_all t p r
                | None \<Rightarrow> c # replace_all cs p r))"
  by pat_completeness auto
termination
proof (relation "measure (\<lambda>(s, p, r). length s)")
  show "wf (measure (\<lambda>(s :: str, p :: str, r :: str). length s))" by simp
next
  fix s p r :: str and c cs t
  assume "s = c # cs" and "p \<noteq> []" and "strip_prefix s p = Some t"
  then show "((t, p, r), s, p, r) \<in> measure (\<lambda>(s, p, r). length s)"
    by (auto dest!: strip_prefix_length)
next
  fix s p r :: str and c cs
  assume "s = c # cs"
  then show "((cs, p, r), s, p, r) \<in> measure (\<lambda>(s, p, r). length s)" by simp
qed

declare replace_all.simps [simp del]

lemma replace_all_Nil [simp]: "replace_all [] p r = []"
  by (simp add: replace_all.simps)

lemma replace_all_Cons:
  "p \<noteq> [] \<Longrightarrow> replace_all (c # cs) p r =
     (case strip_prefix (c # cs) p of Some t \<Rightarrow> r @ replace_all t p r | None \<Rightarrow> c # replace_all cs p r)"
  by (subst replace_all.simps) simp

lemma replace_all_match [simp]: "p \<noteq> [] \<Longrightarrow> replace_all (p @ t) p r = r @ replace_all t p r"
  using strip_prefix_append [of p t] by (subst replace_all.simps) (cases p; simp)

text \<open>Text without the pattern is left unchanged.\<close>

lemma replace_all_id: "p \<noteq> [] \<Longrightarrow> \<not> sublist p s \<Longrightarrow> replace_all s p r = s"
proof (induction s)
  case Nil
  then show ?case by simp
next
  case (Cons c s)
  then have "strip_prefix (c # s) p = None" and "\<not> sublist p s"
    by (auto simp: strip_prefix_None_iff sublist_Cons_right)
  with Cons show ?case by (simp add: replace_all_Cons)
qed

lemma replace_all_skip:
  assumes "p \<noteq> []" and "hd p \<notin> set u"
  shows "replace_all (u @ t) p r = u @ replace_all t p r"
  using assms(2)
proof (induction u)
  case Nil
  then show ?case by simp
next
  case (Cons c u)
  from Cons.prems assms(1) have "strip_prefix (c # u @ t) p = None"
    by (cases p) auto
  with Cons assms(1) show ?case by (simp add: replace_all_Cons)
qed

subsection \<open>Splitting\<close>

text \<open>\<open>str::split\<close> on a character class: always at least one piece.\<close>

fun split_on :: "(char \<Rightarrow> bool) \<Rightarrow> str \<Rightarrow> str list" where
  "split_on P [] = [[]]"
| "split_on P (c # s) =
     (if P c then [] # split_on P s
      else (case split_on P s of [] \<Rightarrow> [[c]] | h # t \<Rightarrow> (c # h) # t))"

lemma split_on_Nil [simp]: "split_on P s \<noteq> []"
  by (induction s) (auto split: list.splits)

lemma split_on_pieces: "piece \<in> set (split_on P s) \<Longrightarrow> c \<in> set piece \<Longrightarrow> \<not> P c"
proof (induction s arbitrary: piece)
  case Nil
  then show ?case by simp
next
  case (Cons d s)
  then show ?case
    by (cases "split_on P s") (force split: if_splits)+
qed

lemma split_on_clean: "(\<And>c. c \<in> set s \<Longrightarrow> \<not> P c) \<Longrightarrow> split_on P s = [s]"
  by (induction s) auto

lemma split_on_append:
  "(\<And>c. c \<in> set u \<Longrightarrow> \<not> P c) \<Longrightarrow> P d \<Longrightarrow> split_on P (u @ d # t) = u # split_on P t"
  by (induction u) auto

fun join :: "char \<Rightarrow> str list \<Rightarrow> str" where
  "join d [] = []"
| "join d [x] = x"
| "join d (x # y # ys) = x @ d # join d (y # ys)"

lemma join_Cons: "ys \<noteq> [] \<Longrightarrow> join d (x # ys) = x @ d # join d ys"
  by (cases ys) auto

lemma join_split_on [simp]: "join d (split_on (\<lambda>c. c = d) s) = s"
proof (induction s)
  case Nil
  then show ?case by simp
next
  case (Cons c s)
  then show ?case
    by (cases "split_on (\<lambda>c. c = d) s"; cases "tl (split_on (\<lambda>c. c = d) s)")
       (auto simp: join_Cons)
qed

text \<open>\<open>str::lines\<close>: a trailing line break does not start another line, and a carriage
  return goes with the line feed after it.\<close>

definition strip_cr :: "str \<Rightarrow> str" where
  "strip_cr l = (if l \<noteq> [] \<and> last l = CHR 0x0D then butlast l else l)"

definition str_lines :: "str \<Rightarrow> str list" where
  "str_lines s =
     (let ps = split_on (\<lambda>c. c = CHR 0x0A) s
      in map strip_cr (butlast ps) @ (if last ps = [] then [] else [last ps]))"

subsection \<open>White space\<close>

text \<open>
  The number of bytes of the white-space character a text starts with, 0 if it starts
  with none: the ASCII ones, U+0085 and U+00A0 (two bytes), U+1680, U+2000 to U+200A,
  U+2028, U+2029, U+202F, U+205F and U+3000 (three bytes).
\<close>

definition ascii_ws :: "char \<Rightarrow> bool" where
  "ascii_ws c \<longleftrightarrow> c = CHR 0x20 \<or> (9 \<le> (of_char c :: nat) \<and> (of_char c :: nat) \<le> 13)"

definition ws2 :: "char \<Rightarrow> char \<Rightarrow> bool" where
  "ws2 a b \<longleftrightarrow> a = CHR 0xC2 \<and> (b = CHR 0x85 \<or> b = CHR 0xA0)"

definition ws3 :: "char \<Rightarrow> char \<Rightarrow> char \<Rightarrow> bool" where
  "ws3 a b c \<longleftrightarrow>
     (a = CHR 0xE1 \<and> b = CHR 0x9A \<and> c = CHR 0x80) \<or>
     (a = CHR 0xE2 \<and> b = CHR 0x80 \<and>
        ((128 \<le> (of_char c :: nat) \<and> (of_char c :: nat) \<le> 138) \<or>
         c = CHR 0xA8 \<or> c = CHR 0xA9 \<or> c = CHR 0xAF)) \<or>
     (a = CHR 0xE2 \<and> b = CHR 0x81 \<and> c = CHR 0x9F) \<or>
     (a = CHR 0xE3 \<and> b = CHR 0x80 \<and> c = CHR 0x80)"

fun ws_head :: "str \<Rightarrow> nat" where
  "ws_head [] = 0"
| "ws_head (a # s) =
     (if ascii_ws a then 1
      else (case s of
              [] \<Rightarrow> 0
            | b # t \<Rightarrow>
                if ws2 a b then 2
                else (case t of [] \<Rightarrow> 0 | c # u \<Rightarrow> if ws3 a b c then 3 else 0)))"

text \<open>The same at the end of a text, on the reversed bytes.\<close>

fun ws_last :: "str \<Rightarrow> nat" where
  "ws_last [] = 0"
| "ws_last (a # s) =
     (if ascii_ws a then 1
      else (case s of
              [] \<Rightarrow> 0
            | b # t \<Rightarrow>
                if ws2 b a then 2
                else (case t of [] \<Rightarrow> 0 | c # u \<Rightarrow> if ws3 c b a then 3 else 0)))"

declare ws_head.simps(2) [simp del] ws_last.simps(2) [simp del]

function strip_heads :: "(str \<Rightarrow> nat) \<Rightarrow> str \<Rightarrow> str" where
  "strip_heads f s = (if s = [] \<or> f s = 0 then s else strip_heads f (drop (f s) s))"
  by pat_completeness auto
termination
  by (relation "measure (\<lambda>(f, s). length s)") auto

declare strip_heads.simps [simp del]

definition trim_start :: "str \<Rightarrow> str" where
  "trim_start s = strip_heads ws_head s"

definition trim_end :: "str \<Rightarrow> str" where
  "trim_end s = rev (strip_heads ws_last (rev s))"

definition trim :: "str \<Rightarrow> str" where
  "trim s = trim_end (trim_start s)"

text \<open>\<open>trim_end_matches\<close> with one ASCII character.\<close>

definition trim_end_char :: "char \<Rightarrow> str \<Rightarrow> str" where
  "trim_end_char d s = rev (dropWhile (\<lambda>c. c = d) (rev s))"

lemma strip_heads_stop: "f s = 0 \<Longrightarrow> strip_heads f s = s"
  by (simp add: strip_heads.simps)

lemma strip_heads_step: "s \<noteq> [] \<Longrightarrow> f s \<noteq> 0 \<Longrightarrow> strip_heads f s = strip_heads f (drop (f s) s)"
  by (subst strip_heads.simps) simp

lemma strip_heads_suffix: "suffix (strip_heads f s) s"
proof (induction f s rule: strip_heads.induct)
  case (1 f s)
  show ?case
  proof (cases "s = [] \<or> f s = 0")
    case True
    then show ?thesis by (auto simp: strip_heads.simps [of f s])
  next
    case False
    then have "suffix (strip_heads f (drop (f s) s)) (drop (f s) s)"
      by (rule "1.IH")
    then have "suffix (strip_heads f (drop (f s) s)) s"
      using suffix_drop suffix_order.trans by blast
    with False show ?thesis by (simp add: strip_heads.simps [of f s])
  qed
qed

lemma trim_start_suffix: "suffix (trim_start s) s"
  by (simp add: trim_start_def strip_heads_suffix)

lemma trim_end_prefix: "prefix (trim_end s) s"
  using strip_heads_suffix [of ws_last "rev s"]
  by (simp add: trim_end_def suffix_to_prefix)

lemma trim_sublist: "sublist (trim s) s"
  unfolding trim_def
  using trim_end_prefix trim_start_suffix
    prefix_imp_sublist suffix_imp_sublist sublist_order.order_trans by blast

lemma set_trim: "set (trim s) \<subseteq> set s"
  using trim_sublist set_mono_sublist by blast

text \<open>A byte that can neither start nor end a white-space character.\<close>

definition solid :: "char \<Rightarrow> bool" where
  "solid c \<longleftrightarrow> (of_char c :: nat) < 128 \<and> \<not> ascii_ws c"

lemma solid_not_lead [simp]:
  "solid c \<Longrightarrow> c \<noteq> CHR 0xC2" "solid c \<Longrightarrow> c \<noteq> CHR 0xE1"
  "solid c \<Longrightarrow> c \<noteq> CHR 0xE2" "solid c \<Longrightarrow> c \<noteq> CHR 0xE3"
  by (auto simp: solid_def)

lemma solid_not_trail:
  "solid c \<Longrightarrow> \<not> ws2 b c" "solid c \<Longrightarrow> \<not> ws3 a b c"
  by (auto simp: solid_def ws2_def ws3_def)

lemma ws_head_solid [simp]: "solid c \<Longrightarrow> ws_head (c # s) = 0"
  by (auto simp: ws_head.simps(2) ws2_def ws3_def solid_def split: list.splits)

lemma ws_last_solid [simp]: "solid c \<Longrightarrow> ws_last (c # s) = 0"
  using solid_not_trail by (auto simp: ws_last.simps(2) solid_def split: list.splits)

lemma trim_start_solid [simp]: "solid c \<Longrightarrow> trim_start (c # s) = c # s"
  by (simp add: trim_start_def strip_heads_stop)

lemma trim_start_space [simp]: "trim_start (CHR 0x20 # s) = trim_start s"
  by (simp add: trim_start_def strip_heads_step [of "CHR 0x20 # s"] ws_head.simps(2) ascii_ws_def)

lemma trim_end_solid: "s \<noteq> [] \<Longrightarrow> solid (last s) \<Longrightarrow> trim_end s = s"
proof -
  assume "s \<noteq> []" and "solid (last s)"
  then obtain c t where "rev s = c # t" and "solid c"
    by (cases "rev s") (auto simp: last_rev [symmetric])
  then have "strip_heads ws_last (rev s) = rev s"
    by (simp add: strip_heads_stop)
  then show ?thesis by (simp add: trim_end_def)
qed

lemma trim_solid:
  assumes "s \<noteq> []" and "solid (hd s)" and "solid (last s)"
  shows "trim s = s"
proof -
  from assms(1,2) have "trim_start s = s" by (cases s) auto
  with assms(1,3) show ?thesis by (simp add: trim_def trim_end_solid)
qed

lemma trim_Nil [simp]: "trim [] = []"
  by (simp add: trim_def trim_start_def trim_end_def strip_heads.simps)

lemma trim_all_solid: "(\<And>c. c \<in> set s \<Longrightarrow> solid c) \<Longrightarrow> trim s = s"
  by (cases "s = []") (auto intro: trim_solid)

subsection \<open>ASCII classes and case\<close>

definition is_upper :: "char \<Rightarrow> bool" where
  "is_upper c \<longleftrightarrow> 65 \<le> (of_char c :: nat) \<and> (of_char c :: nat) \<le> 90"

definition is_lower :: "char \<Rightarrow> bool" where
  "is_lower c \<longleftrightarrow> 97 \<le> (of_char c :: nat) \<and> (of_char c :: nat) \<le> 122"

definition is_ascii_alphanumeric :: "char \<Rightarrow> bool" where
  "is_ascii_alphanumeric c \<longleftrightarrow> is_upper c \<or> is_lower c \<or> is_digit c"

definition to_ascii_uppercase :: "str \<Rightarrow> str" where
  "to_ascii_uppercase = map (\<lambda>c. if is_lower c then char_of (of_char c - 32 :: nat) else c)"

definition to_ascii_lowercase :: "str \<Rightarrow> str" where
  "to_ascii_lowercase = map (\<lambda>c. if is_upper c then char_of (of_char c + 32 :: nat) else c)"

text \<open>\<open>chars().take(n).collect()\<close>: the first \<open>n\<close> scalar values. A byte from 0x80 to
  0xBF continues the character before it.\<close>

definition utf8_cont :: "char \<Rightarrow> bool" where
  "utf8_cont c \<longleftrightarrow> 128 \<le> (of_char c :: nat) \<and> (of_char c :: nat) < 192"

fun take_chars :: "nat \<Rightarrow> str \<Rightarrow> str" where
  "take_chars n [] = []"
| "take_chars n (c # s) =
     (if utf8_cont c then c # take_chars n s
      else (case n of 0 \<Rightarrow> [] | Suc m \<Rightarrow> c # take_chars m s))"

lemma length_to_ascii_uppercase [simp]: "length (to_ascii_uppercase s) = length s"
  by (simp add: to_ascii_uppercase_def)

lemma to_ascii_uppercase_append [simp]:
  "to_ascii_uppercase (s @ t) = to_ascii_uppercase s @ to_ascii_uppercase t"
  by (simp add: to_ascii_uppercase_def)

lemma prefix_take_chars: "prefix (take_chars n s) s"
  by (induction n s rule: take_chars.induct) (auto split: nat.splits)

lemma alphanumeric_solid [simp]: "is_ascii_alphanumeric c \<Longrightarrow> solid c"
  by (auto simp: is_ascii_alphanumeric_def is_upper_def is_lower_def is_digit_def
      solid_def ascii_ws_def)

end
