(* ===== verification/Manifest.thy ===== *)
theory Manifest
  imports Rust_Text
begin

text \<open>
  The scenario manifest (\<^verbatim>\<open>datashuttle-playground/src/manifest.rs\<close>): its data types with the
  source's fields and variants, the validator \<open>Manifest::validate\<close> loop by loop, the
  lookups, and loading. JSON text is decoded by serde, which is a parameter
  (\<open>from_slice\<close>) of \<open>manifest_parse\<close> and \<open>manifest_load\<close>.

  The lemmas show that the validator accepts exactly the well-formed manifests
  (\<open>wf_manifest\<close>), that lookups in a validated manifest are unambiguous, and that the
  action whitelist and the action lookup agree.
\<close>

subsection \<open>Data\<close>

text \<open>\<open>serde_json::Value\<close>; a number is kept as its text.\<close>

datatype json =
    JNull
  | JBool bool
  | JNumber str
  | JString str
  | JArray "json list"
  | JObject "(str \<times> json) list"

datatype source_kind = Cdc | Snapshot | Streaming | File | Rest | Kv

datatype source_status = SourceStable | SourceBeta | SourceExcluded

record source =
  src_id :: str
  src_name :: str
  src_kind :: source_kind
  src_status :: source_status
  src_free :: bool
  src_docker_service :: "str option"
  src_docker_profile :: "str option"
  src_image :: "str option"
  src_prerequisites :: "str list"

datatype difficulty = Beginner | Intermediate | Advanced

datatype scenario_status = ScenarioStable | ScenarioBeta | ScenarioHidden

datatype deployment = Dev | SelfManaged | Cloud

record prerequisites =
  pre_deployment :: "deployment list"
  pre_profiles :: "str list"
  pre_min_memory_mb :: "u32 option"

datatype action_kind =
    Sql | Shell | Http | ProduceKafka | UploadFile | Toxiproxy | ResetSnapshot

datatype action_target = TSource | TTarget | TKafka | TS3 | TRest | TOps

record http_request =
  hr_method :: str
  hr_url :: str
  hr_body :: "json option"

record action =
  act_id :: str
  act_label :: str
  act_description :: "str option"
  act_kind :: action_kind
  act_target :: "action_target option"
  act_sql :: "str option"
  act_sql_file :: "str option"
  act_shell_cmd :: "str option"
  act_http_request :: "http_request option"
  act_payload_file :: "str option"
  act_repeat :: "u32 option"
  act_expected_dlq :: "bool option"
  act_destructive :: "bool option"

record expected_outcome =
  eo_metric :: str
  eo_assertion :: str
  eo_value :: "json option"

record scenario =
  sc_id :: str
  sc_source_id :: str
  sc_title :: str
  sc_description :: str
  sc_difficulty :: difficulty
  sc_tier :: u8
  sc_status :: scenario_status
  sc_tags :: "str list"
  sc_prerequisites :: prerequisites
  sc_init_sql :: "str option"
  sc_shuttle_sql :: "str option"
  sc_teardown_sql :: "str option"
  sc_estimated_duration_s :: "u32 option"
  sc_actions :: "action list"
  sc_break_scenarios :: "action list"
  sc_expected_outcomes :: "expected_outcome list"

record manifest =
  mf_version :: u32
  mf_sources :: "source list"
  mf_scenarios :: "scenario list"

datatype manifest_error =
    ManifestIo str str
  | ManifestParse str str
  | ManifestValidation str

subsection \<open>Lookups\<close>

definition mf_scenario :: "manifest \<Rightarrow> str \<Rightarrow> scenario option" where
  "mf_scenario m i = find (\<lambda>s. sc_id s = i) (mf_scenarios m)"

definition mf_source :: "manifest \<Rightarrow> str \<Rightarrow> source option" where
  "mf_source m i = find (\<lambda>s. src_id s = i) (mf_sources m)"

text \<open>The chained iterator over \<open>actions\<close> and \<open>break_scenarios\<close>.\<close>

abbreviation all_actions :: "scenario \<Rightarrow> action list" where
  "all_actions sc \<equiv> sc_actions sc @ sc_break_scenarios sc"

definition allowed_action_ids :: "scenario \<Rightarrow> str set" where
  "allowed_action_ids sc = set (map act_id (all_actions sc))"

definition sc_action :: "scenario \<Rightarrow> str \<Rightarrow> action option" where
  "sc_action sc i = find (\<lambda>a. act_id a = i) (all_actions sc)"

definition allowed_in :: "scenario \<Rightarrow> deployment \<Rightarrow> bool" where
  "allowed_in sc d \<longleftrightarrow>
     pre_deployment (sc_prerequisites sc) = [] \<or> d \<in> set (pre_deployment (sc_prerequisites sc))"

subsection \<open>Validation\<close>

text \<open>\<open>format!("{:?}", kind)\<close>: the derived \<open>Debug\<close> name.\<close>

fun action_kind_debug :: "action_kind \<Rightarrow> str" where
  "action_kind_debug Sql = ''Sql''"
| "action_kind_debug Shell = ''Shell''"
| "action_kind_debug Http = ''Http''"
| "action_kind_debug ProduceKafka = ''ProduceKafka''"
| "action_kind_debug UploadFile = ''UploadFile''"
| "action_kind_debug Toxiproxy = ''Toxiproxy''"
| "action_kind_debug ResetSnapshot = ''ResetSnapshot''"

fun payload_missing :: "action_kind \<Rightarrow> action \<Rightarrow> bool" where
  "payload_missing Sql a = (act_sql a = None \<and> act_sql_file a = None)"
| "payload_missing Http a = (act_http_request a = None)"
| "payload_missing Shell a = (act_shell_cmd a = None)"
| "payload_missing Toxiproxy a = (act_shell_cmd a = None)"
| "payload_missing ResetSnapshot a = (act_shell_cmd a = None)"
| "payload_missing ProduceKafka a = (act_payload_file a = None)"
| "payload_missing UploadFile a = (act_payload_file a = None)"

definition validate_action :: "str \<Rightarrow> action \<Rightarrow> (manifest_error, unit) result" where
  "validate_action scenario_id a =
     (if payload_missing (act_kind a) a
      then Inl (ManifestValidation
             (''scenario '' @ scenario_id @ '' action '' @ act_id a @
              '' is missing the payload required for kind '' @ action_kind_debug (act_kind a)))
      else Inr ())"

text \<open>The loop over the sources; \<open>seen\<close> is the hash set \<open>source_ids\<close>.\<close>

fun validate_sources :: "str set \<Rightarrow> source list \<Rightarrow> (manifest_error, str set) result" where
  "validate_sources seen [] = Inr seen"
| "validate_sources seen (s # ss) =
     (if src_id s \<in> seen
      then Inl (ManifestValidation (''duplicate source id: '' @ src_id s))
      else validate_sources (insert (src_id s) seen) ss)"

fun validate_actions :: "str \<Rightarrow> str set \<Rightarrow> action list \<Rightarrow> (manifest_error, unit) result" where
  "validate_actions sid seen [] = Inr ()"
| "validate_actions sid seen (a # as) =
     (if act_id a \<in> seen
      then Inl (ManifestValidation
             (''scenario '' @ sid @ '' has duplicate action id '' @ act_id a))
      else rbind (validate_action sid a)
             (\<lambda>_. validate_actions sid (insert (act_id a) seen) as))"

fun validate_scenarios ::
    "str set \<Rightarrow> str set \<Rightarrow> scenario list \<Rightarrow> (manifest_error, unit) result" where
  "validate_scenarios source_ids seen [] = Inr ()"
| "validate_scenarios source_ids seen (sc # scs) =
     (if sc_id sc \<in> seen
      then Inl (ManifestValidation (''duplicate scenario id: '' @ sc_id sc))
      else if sc_source_id sc \<notin> source_ids
      then Inl (ManifestValidation
             (''scenario '' @ sc_id sc @ '' references unknown source_id '' @ sc_source_id sc))
      else rbind (validate_actions (sc_id sc) {} (all_actions sc))
             (\<lambda>_. validate_scenarios source_ids (insert (sc_id sc) seen) scs))"

definition validate :: "manifest \<Rightarrow> (manifest_error, unit) result" where
  "validate m =
     (if mf_version m \<noteq> 1
      then Inl (ManifestValidation
             (''manifest version '' @ show_nat (unat (mf_version m)) @
              '' not supported (expected 1)''))
      else rbind (validate_sources {} (mf_sources m))
             (\<lambda>source_ids. validate_scenarios source_ids {} (mf_scenarios m)))"

subsection \<open>Loading\<close>

text \<open>
  \<open>from_slice\<close> is serde's decoder, \<open>read\<close> the file system; both report a message.
\<close>

definition manifest_parse ::
    "(str \<Rightarrow> (str, manifest) result) \<Rightarrow> str \<Rightarrow> (manifest_error, manifest) result" where
  "manifest_parse from_slice bytes =
     rbind (map_err (ManifestParse ''<memory>'') (from_slice bytes))
       (\<lambda>m. rbind (validate m) (\<lambda>_. Inr m))"

definition manifest_load ::
    "(str \<Rightarrow> (str, str) result) \<Rightarrow> (str \<Rightarrow> (str, manifest) result) \<Rightarrow> str
     \<Rightarrow> (manifest_error, manifest) result" where
  "manifest_load read from_slice path =
     rbind (map_err (ManifestIo path) (read path))
       (\<lambda>bytes. rbind (map_err (ManifestParse path) (from_slice bytes))
         (\<lambda>m. rbind (validate m) (\<lambda>_. Inr m)))"

text \<open>
  \<open>load_manifest\<close> of the server binary: the explicit path alone, or the two default
  ones in order; a missing file is skipped, and so is an invalid one.
\<close>

fun first_valid ::
    "(str \<Rightarrow> bool) \<Rightarrow> (str \<Rightarrow> (manifest_error, manifest) result) \<Rightarrow> str list \<Rightarrow> manifest option" where
  "first_valid exists load [] = None"
| "first_valid exists load (p # ps) =
     (if \<not> exists p then first_valid exists load ps
      else (case load p of Inr m \<Rightarrow> Some m | Inl e \<Rightarrow> first_valid exists load ps))"

definition manifest_candidates :: "str option \<Rightarrow> str list" where
  "manifest_candidates explicit =
     (case explicit of
        Some p \<Rightarrow> [p]
      | None \<Rightarrow> [''/opt/datashuttle/examples/manifest.json'', ''examples/manifest.json''])"

definition load_manifest ::
    "(str \<Rightarrow> bool) \<Rightarrow> (str \<Rightarrow> (str, str) result) \<Rightarrow> (str \<Rightarrow> (str, manifest) result)
     \<Rightarrow> str option \<Rightarrow> manifest option" where
  "load_manifest exists read from_slice explicit =
     first_valid exists (manifest_load read from_slice) (manifest_candidates explicit)"

subsection \<open>What the validator accepts\<close>

text \<open>The payload of an action, kind by kind.\<close>

definition wf_action :: "action \<Rightarrow> bool" where
  "wf_action a \<longleftrightarrow>
     (act_kind a = Sql \<longrightarrow> act_sql a \<noteq> None \<or> act_sql_file a \<noteq> None) \<and>
     (act_kind a = Http \<longrightarrow> act_http_request a \<noteq> None) \<and>
     (act_kind a \<in> {Shell, Toxiproxy, ResetSnapshot} \<longrightarrow> act_shell_cmd a \<noteq> None) \<and>
     (act_kind a \<in> {ProduceKafka, UploadFile} \<longrightarrow> act_payload_file a \<noteq> None)"

lemma payload_missing_iff: "payload_missing (act_kind a) a \<longleftrightarrow> \<not> wf_action a"
  by (cases "act_kind a") (simp_all add: wf_action_def)

definition wf_scenario :: "manifest \<Rightarrow> scenario \<Rightarrow> bool" where
  "wf_scenario m sc \<longleftrightarrow>
     sc_source_id sc \<in> src_id ` set (mf_sources m) \<and>
     distinct (map act_id (all_actions sc)) \<and>
     list_all wf_action (all_actions sc)"

definition wf_manifest :: "manifest \<Rightarrow> bool" where
  "wf_manifest m \<longleftrightarrow>
     mf_version m = 1 \<and>
     distinct (map src_id (mf_sources m)) \<and>
     distinct (map sc_id (mf_scenarios m)) \<and>
     list_all (wf_scenario m) (mf_scenarios m)"

lemma validate_action_ok [simp]: "validate_action sid a = Inr u \<longleftrightarrow> wf_action a"
  by (simp add: validate_action_def payload_missing_iff)

lemma validate_sources_ok:
  "validate_sources seen ss = Inr ids \<longleftrightarrow>
     distinct (map src_id ss) \<and> seen \<inter> src_id ` set ss = {} \<and> ids = seen \<union> src_id ` set ss"
  by (induction seen ss rule: validate_sources.induct) auto

lemma validate_actions_ok:
  "validate_actions sid seen as = Inr u \<longleftrightarrow>
     distinct (map act_id as) \<and> seen \<inter> act_id ` set as = {} \<and> list_all wf_action as"
  by (induction sid seen as rule: validate_actions.induct) (auto simp: result_simps)

lemma validate_scenarios_ok:
  "validate_scenarios ids seen scs = Inr u \<longleftrightarrow>
     distinct (map sc_id scs) \<and> seen \<inter> sc_id ` set scs = {} \<and>
     list_all (\<lambda>sc. sc_source_id sc \<in> ids \<and> distinct (map act_id (all_actions sc)) \<and>
                    list_all wf_action (all_actions sc)) scs"
  by (induction ids seen scs rule: validate_scenarios.induct)
    (auto simp: result_simps validate_actions_ok simp del: map_append list_all_append)

lemma validate_ok: "validate m = Inr () \<longleftrightarrow> wf_manifest m"
  by (auto simp: validate_def result_simps validate_sources_ok validate_scenarios_ok
      wf_manifest_def wf_scenario_def list_all_iff simp del: map_append)

lemma validate_actions_err:
  "validate_actions sid seen as = Inl e \<Longrightarrow> \<exists>msg. e = ManifestValidation msg"
  by (induction sid seen as rule: validate_actions.induct)
    (auto simp: result_simps validate_action_def split: if_splits)

lemma validate_sources_err:
  "validate_sources seen ss = Inl e \<Longrightarrow> \<exists>msg. e = ManifestValidation msg"
  by (induction seen ss rule: validate_sources.induct) (auto split: if_splits)

lemma validate_scenarios_err:
  "validate_scenarios ids seen scs = Inl e \<Longrightarrow> \<exists>msg. e = ManifestValidation msg"
  by (induction ids seen scs rule: validate_scenarios.induct)
    (auto simp: result_simps dest: validate_actions_err split: if_splits)

lemma manifest_load_ok:
  "manifest_load read from_slice path = Inr m \<Longrightarrow>
     wf_manifest m \<and> (\<exists>bytes. read path = Inr bytes \<and> from_slice bytes = Inr m)"
  by (cases "read path"; cases "from_slice (projr (read path))")
    (auto simp: manifest_load_def result_simps validate_ok [symmetric])

lemma first_valid_ok:
  "first_valid exists load ps = Some m \<Longrightarrow> \<exists>p \<in> set ps. exists p \<and> load p = Inr m"
  by (induction exists load ps rule: first_valid.induct) (auto split: if_splits sum.splits)

lemma wf_scenario_lookup:
  assumes "wf_manifest m" and "mf_scenario m i = Some sc"
  shows "wf_scenario m sc" and "sc_id sc = i" and "sc \<in> set (mf_scenarios m)"
  using assms find_Some_in [of "\<lambda>s. sc_id s = i" "mf_scenarios m" sc]
  by (auto simp: mf_scenario_def wf_manifest_def list_all_iff)

text \<open>C21: \<open>Manifest::validate\<close> accepts a manifest exactly when it is well formed: version 1,
  source ids and scenario ids without repetition, every scenario's source present, and in
  every scenario the action ids (break scenarios included) without repetition and every
  action with the payload its kind needs.\<close>

theorem validate_accepts_exactly_wf: "validate m = Inr () \<longleftrightarrow> wf_manifest m"
  by (rule validate_ok)

lemma wf_scenario_iff:
  "wf_manifest m \<Longrightarrow> mf_scenario m i = Some sc \<longleftrightarrow> sc \<in> set (mf_scenarios m) \<and> sc_id sc = i"
  by (simp add: wf_manifest_def mf_scenario_def find_key_Some_iff)

lemma wf_source_iff:
  "wf_manifest m \<Longrightarrow> mf_source m j = Some s \<longleftrightarrow> s \<in> set (mf_sources m) \<and> src_id s = j"
  by (simp add: wf_manifest_def mf_source_def find_key_Some_iff)

lemma wf_scenario_source:
  "wf_manifest m \<Longrightarrow> wf_scenario m sc \<Longrightarrow> \<exists>s. mf_source m (sc_source_id sc) = Some s"
  by (auto simp: wf_scenario_def wf_source_iff)

lemma wf_action_iff:
  "wf_scenario m sc \<Longrightarrow> sc_action sc k = Some a \<longleftrightarrow> a \<in> set (all_actions sc) \<and> act_id a = k"
  unfolding wf_scenario_def sc_action_def by (intro find_key_Some_iff) (elim conjE)

lemma wf_action_payload: "wf_scenario m sc \<Longrightarrow> a \<in> set (all_actions sc) \<Longrightarrow> wf_action a"
  by (simp add: wf_scenario_def list_all_iff)

text \<open>In a manifest that passed validation every lookup is unambiguous: \<open>scenario\<close> and
  \<open>source\<close> return an element exactly when it is the one with that id, and every scenario
  of the manifest resolves to its source.\<close>

theorem validated_lookups:
  assumes "validate m = Inr ()"
  shows "(mf_scenario m i = Some sc \<longleftrightarrow> sc \<in> set (mf_scenarios m) \<and> sc_id sc = i) \<and>
         (mf_source m j = Some s \<longleftrightarrow> s \<in> set (mf_sources m) \<and> src_id s = j) \<and>
         (mf_scenario m i = Some sc \<longrightarrow> (\<exists>s. mf_source m (sc_source_id sc) = Some s))"
proof -
  from assms have wf: "wf_manifest m" by (simp add: validate_ok)
  then show ?thesis
    using wf_scenario_lookup(1) [OF wf] wf_scenario_source [OF wf]
    by (auto simp: wf_scenario_iff wf_source_iff)
qed

definition demo_source :: source where
  "demo_source = \<lparr>src_id = ''postgres'', src_name = ''p'', src_kind = Cdc,
     src_status = SourceStable, src_free = True, src_docker_service = Some ''postgres'',
     src_docker_profile = None, src_image = None, src_prerequisites = []\<rparr>"

definition demo_action :: action where
  "demo_action = \<lparr>act_id = ''a1'', act_label = ''A1'', act_description = None, act_kind = Sql,
     act_target = None, act_sql = Some ''SELECT 1'', act_sql_file = None, act_shell_cmd = None,
     act_http_request = None, act_payload_file = None, act_repeat = None,
     act_expected_dlq = None, act_destructive = None\<rparr>"

definition demo_scenario :: scenario where
  "demo_scenario = \<lparr>sc_id = ''s1'', sc_source_id = ''postgres'', sc_title = ''t'',
     sc_description = ''d'', sc_difficulty = Beginner, sc_tier = 1, sc_status = ScenarioStable,
     sc_tags = [], sc_prerequisites = \<lparr>pre_deployment = [Dev], pre_profiles = [],
       pre_min_memory_mb = None\<rparr>, sc_init_sql = None, sc_shuttle_sql = None,
     sc_teardown_sql = None, sc_estimated_duration_s = None, sc_actions = [demo_action],
     sc_break_scenarios = [], sc_expected_outcomes = []\<rparr>"

definition demo_manifest :: manifest where
  "demo_manifest = \<lparr>mf_version = 1, mf_sources = [demo_source], mf_scenarios = [demo_scenario]\<rparr>"

lemmas demo_defs = demo_manifest_def demo_scenario_def demo_action_def demo_source_def

lemma demo_valid: "validate demo_manifest = Inr ()"
  by (simp add: validate_def validate_action_def demo_defs)

theorem validated_lookups_witness:
  "validate demo_manifest = Inr () \<and> mf_scenario demo_manifest ''s1'' = Some demo_scenario \<and>
   (\<exists>s. mf_source demo_manifest ''postgres'' = Some s)"
proof -
  note v = validated_lookups [OF demo_valid]
  from v have sc: "mf_scenario demo_manifest ''s1'' = Some demo_scenario"
    by (simp add: demo_manifest_def demo_scenario_def)
  with v have "\<exists>s. mf_source demo_manifest (sc_source_id demo_scenario) = Some s" by blast
  with sc demo_valid show ?thesis by (simp add: demo_scenario_def)
qed

lemma sc_action_mem: "sc_action sc i = Some a \<Longrightarrow> a \<in> set (all_actions sc) \<and> act_id a = i"
  unfolding sc_action_def by (rule find_Some_in)

lemma sc_action_None: "sc_action sc i = None \<longleftrightarrow> i \<notin> allowed_action_ids sc"
proof -
  have "sc_action sc i = None \<longleftrightarrow> \<not> (\<exists>a. a \<in> set (all_actions sc) \<and> act_id a = i)"
    unfolding sc_action_def by (rule find_None_iff)
  then show ?thesis by (auto simp: allowed_action_ids_def)
qed

text \<open>The whitelist and the lookup agree: \<open>Scenario::action\<close> finds an action for an id
  exactly when the id is in \<open>allowed_action_ids\<close>; in a scenario of a validated manifest
  what it finds is the only action with that id, and it carries the payload its kind
  needs.\<close>

theorem action_lookup_is_whitelist:
  assumes "validate m = Inr ()" and "mf_scenario m i = Some sc"
  shows "(sc_action sc k \<noteq> None \<longleftrightarrow> k \<in> allowed_action_ids sc) \<and>
         (sc_action sc k = Some a \<longleftrightarrow> a \<in> set (all_actions sc) \<and> act_id a = k) \<and>
         (sc_action sc k = Some a \<longrightarrow> wf_action a)"
proof -
  from assms have sc: "wf_scenario m sc" using wf_scenario_lookup(1) validate_ok by blast
  have "sc_action sc k \<noteq> None \<longleftrightarrow> k \<in> allowed_action_ids sc"
    by (simp add: sc_action_None)
  moreover note wf_action_iff [OF sc, of k a]
  moreover have "sc_action sc k = Some a \<longrightarrow> wf_action a"
    using wf_action_iff [OF sc, of k a] wf_action_payload [OF sc, of a] by simp
  ultimately show ?thesis by (intro conjI)
qed

theorem action_lookup_is_whitelist_witness:
  "validate demo_manifest = Inr () \<and> mf_scenario demo_manifest ''s1'' = Some demo_scenario \<and>
   sc_action demo_scenario ''a1'' = Some demo_action \<and>
   wf_action demo_action"
proof -
  have sc: "mf_scenario demo_manifest ''s1'' = Some demo_scenario"
    by (simp add: mf_scenario_def demo_manifest_def demo_scenario_def)
  note w = action_lookup_is_whitelist [OF demo_valid sc, of "''a1''" demo_action]
  then have "sc_action demo_scenario ''a1'' = Some demo_action"
    by (simp add: demo_scenario_def demo_action_def)
  with w sc demo_valid show ?thesis by blast
qed

text \<open>Whatever \<open>load_manifest\<close> of the server binary returns has passed validation and is
  what serde decoded from an existing candidate file: the explicit path when one is
  configured, one of the two default paths otherwise. An invalid manifest is never
  served.\<close>

theorem load_manifest_only_valid:
  assumes "load_manifest exists read from_slice explicit = Some m"
  shows "validate m = Inr () \<and>
         (\<exists>p \<in> set (manifest_candidates explicit).
           exists p \<and> (\<exists>bytes. read p = Inr bytes \<and> from_slice bytes = Inr m))"
proof -
  from assms obtain p where "p \<in> set (manifest_candidates explicit)" "exists p"
    and p: "manifest_load read from_slice p = Inr m"
    unfolding load_manifest_def by (blast dest: first_valid_ok)
  then show ?thesis
    using manifest_load_ok [OF p] unfolding validate_ok by blast
qed

theorem load_manifest_only_valid_witness:
  "load_manifest (\<lambda>p. True) (\<lambda>p. Inr ''bytes'') (\<lambda>b. Inr demo_manifest) None = Some demo_manifest \<and>
   validate demo_manifest = Inr ()"
proof -
  have "load_manifest (\<lambda>p. True) (\<lambda>p. Inr ''bytes'') (\<lambda>b. Inr demo_manifest) None
      = Some demo_manifest"
    by (simp add: load_manifest_def manifest_candidates_def manifest_load_def demo_valid)
  then show ?thesis using load_manifest_only_valid by blast
qed

end
