(* ===== verification/Names.thy ===== *)
theory Names
  imports Rust_Text
begin

unbundle bit_operations_syntax

text \<open>
  The names a session owns and the guards that let a name into a statement:
  \<open>hex::encode\<close>, \<open>short_user\<close>, \<open>short_sid\<close> and \<open>derive_namespace\<close> of
  \<^verbatim>\<open>sessions.rs\<close>, \<open>is_safe_resource_name\<close> and \<open>is_safe_playground_shuttle_artifact\<close> of
  \<^verbatim>\<open>tcp.rs\<close>, \<open>is_safe_identifier\<close> of \<^verbatim>\<open>handlers.rs\<close>. SHA-256 is the sha2 crate's: a
  parameter, of which only the length of the digest (32 bytes) is used.

  The lemmas show that every derived name passes every guard it later meets, that the
  guards admit nothing that could leave an identifier position, and exactly when two
  sessions share a namespace.
\<close>

subsection \<open>Derivation\<close>

text \<open>A \<open>Uuid\<close> is its 128 bits; \<open>as_bytes\<close> is big-endian.\<close>

type_synonym uuid = "128 word"

definition uuid_bytes :: "uuid \<Rightarrow> u8 list" where
  "uuid_bytes u = map (\<lambda>i. ucast (drop_bit (8 * (15 - i)) u)) [0..<16]"

definition hex_digit :: "u8 \<Rightarrow> char" where
  "hex_digit n = ''0123456789abcdef'' ! unat n"

definition hex_byte :: "u8 \<Rightarrow> str" where
  "hex_byte b = [hex_digit (drop_bit 4 b), hex_digit (b AND 0x0F)]"

definition hex_encode :: "u8 list \<Rightarrow> str" where
  "hex_encode bytes = concat (map hex_byte bytes)"

definition short_user :: "(str \<Rightarrow> u8 list) \<Rightarrow> str \<Rightarrow> str" where
  "short_user sha256 user_id = hex_encode (take 4 (sha256 user_id))"

definition short_sid :: "uuid \<Rightarrow> str" where
  "short_sid i = hex_encode (take 4 (uuid_bytes i))"

definition derive_namespace :: "(str \<Rightarrow> u8 list) \<Rightarrow> str \<Rightarrow> uuid \<Rightarrow> str" where
  "derive_namespace sha256 user_id session_id =
     ''playground_'' @ short_user sha256 user_id @ ''_'' @ short_sid session_id"

text \<open>\<open>Session::new\<close> derives the shuttle's and the connection's name the same way.\<close>

definition derive_shuttle_name :: "(str \<Rightarrow> u8 list) \<Rightarrow> str \<Rightarrow> uuid \<Rightarrow> str" where
  "derive_shuttle_name sha256 user_id i = ''pg_'' @ short_user sha256 user_id @ ''_'' @ short_sid i"

definition derive_connection_name :: "(str \<Rightarrow> u8 list) \<Rightarrow> str \<Rightarrow> uuid \<Rightarrow> str" where
  "derive_connection_name sha256 user_id i = derive_shuttle_name sha256 user_id i @ ''_src''"

subsection \<open>Guards\<close>

definition ident_char :: "char \<Rightarrow> bool" where
  "ident_char c \<longleftrightarrow> is_ascii_alphanumeric c \<or> c = CHR ''_''"

definition is_safe_resource_name :: "str \<Rightarrow> bool" where
  "is_safe_resource_name s \<longleftrightarrow>
     s \<noteq> [] \<and> length s \<le> 128 \<and> starts_with s ''playground_'' \<and> list_all ident_char s"

definition is_safe_playground_shuttle_artifact :: "str \<Rightarrow> bool" where
  "is_safe_playground_shuttle_artifact s =
     (if s = [] \<or> length s > 64 \<or> \<not> starts_with s ''pg_'' then False
      else if \<not> list_all ident_char s then False
      else (case split_on (\<lambda>c. c = CHR ''_'') s of
              [p, a, b] \<Rightarrow> p = ''pg'' \<and> a \<noteq> [] \<and> b \<noteq> []
            | [p, a, b, tail] \<Rightarrow>
                p = ''pg'' \<and> a \<noteq> [] \<and> b \<noteq> [] \<and> (tail = ''pub'' \<or> tail = ''slot'')
            | _ \<Rightarrow> False))"

definition is_safe_identifier :: "str \<Rightarrow> bool" where
  "is_safe_identifier s \<longleftrightarrow> s \<noteq> [] \<and> length s \<le> 128 \<and> list_all ident_char s"

subsection \<open>Hexadecimal\<close>

abbreviation hex_char :: "char \<Rightarrow> bool" where
  "hex_char c \<equiv> c \<in> set ''0123456789abcdef''"

definition hex_val :: "char \<Rightarrow> u8" where
  "hex_val c = (if is_digit c then of_nat (digit_val c) else of_nat (of_char c - 87))"

fun hex_decode :: "str \<Rightarrow> u8 list" where
  "hex_decode (a # b # s) = (push_bit 4 (hex_val a) OR hex_val b) # hex_decode s"
| "hex_decode _ = []"

lemma hex_char_ident [simp]: "hex_char c \<Longrightarrow> ident_char c"
  by (auto simp: ident_char_def is_ascii_alphanumeric_def is_digit_def is_lower_def)

lemma nibbles_bounded: "unat (drop_bit 4 (b :: u8)) < 16" "unat (b AND 0x0F) < 16"
proof -
  have "unat (drop_bit 4 b) = unat b div 16"
    by (simp only: unat_drop_bit_eq) (simp add: drop_bit_eq_div)
  moreover have "unat b < 256" using unsigned_less [of b] by simp
  ultimately show "unat (drop_bit 4 b) < 16" by auto
  have "b AND 0x0F = take_bit 4 b"
    by (simp add: take_bit_eq_mask mask_numeral)
  then show "unat (b AND 0x0F) < 16"
    by (simp only: unsigned_take_bit_eq) (simp add: take_bit_eq_mod)
qed

lemma hex_digit_char: "unat n < 16 \<Longrightarrow> hex_char (hex_digit n)"
  unfolding hex_digit_def by (rule nth_mem) simp

lemma hex_byte_chars: "c \<in> set (hex_byte b) \<Longrightarrow> hex_char c"
  using hex_digit_char nibbles_bounded unfolding hex_byte_def by auto

lemma hex_encode_chars: "c \<in> set (hex_encode bs) \<Longrightarrow> hex_char c"
  using hex_byte_chars unfolding hex_encode_def by fastforce

lemma length_hex_encode [simp]: "length (hex_encode bs) = 2 * length bs"
  by (induction bs) (auto simp: hex_encode_def hex_byte_def)

lemma hex_val_nat: "n < 16 \<Longrightarrow> hex_val (''0123456789abcdef'' ! n) = of_nat n"
proof -
  assume "n < 16"
  then have "n \<in> {0, 1, 2, 3, 4, 5, 6, 7, 8, 9, 10, 11, 12, 13, 14, 15}"
    unfolding insert_iff empty_iff by presburger
  then show ?thesis
    by (auto simp: hex_val_def is_digit_def digit_val_def)
qed

lemma hex_val_digit: "unat n < 16 \<Longrightarrow> hex_val (hex_digit n) = n"
  unfolding hex_digit_def by (simp add: hex_val_nat)

lemma join_nibbles: "push_bit 4 (drop_bit 4 b) OR (b AND 0x0F) = (b :: u8)"
proof -
  have "b AND 0x0F = take_bit 4 b"
    by (simp add: take_bit_eq_mask mask_numeral)
  then have "push_bit 4 (drop_bit 4 b) OR (b AND 0x0F) = push_bit 4 (drop_bit 4 b) + take_bit 4 b"
    by (subst disjunctive_add_eq_or)
      (auto intro!: bit_eqI simp: bit_and_iff bit_push_bit_iff bit_take_bit_iff)
  then show ?thesis using bits_ident [of 4 b] by simp
qed

lemma hex_decode_encode: "hex_decode (hex_encode bs) = bs"
proof (induction bs)
  case Nil
  then show ?case by (simp add: hex_encode_def)
next
  case (Cons b bs)
  then show ?case
    using nibbles_bounded [of b]
    by (simp add: hex_encode_def hex_byte_def hex_val_digit join_nibbles)
qed

lemma hex_encode_inj: "hex_encode bs = hex_encode bs' \<longleftrightarrow> bs = bs'"
  using hex_decode_encode by metis

lemma length_uuid_bytes [simp]: "length (uuid_bytes u) = 16"
  by (simp add: uuid_bytes_def)

text \<open>The first four bytes of an id are its 32 high bits.\<close>

lemma uuid_high_bits:
  "take 4 (uuid_bytes u) = take 4 (uuid_bytes v) \<longleftrightarrow> drop_bit 96 u = drop_bit 96 v"
proof
  have nth: "take 4 (uuid_bytes w) ! i = ucast (drop_bit (8 * (15 - i)) w)" if "i < 4" for i w
    using that by (simp add: uuid_bytes_def)
  have bit_nth: "bit (take 4 (uuid_bytes w) ! (3 - j div 8)) (j mod 8) \<longleftrightarrow> bit (drop_bit 96 w) j"
    if "j < 32" for j w
  proof -
    have "j div 8 \<le> 3" using that by simp
    then have "8 * (15 - (3 - j div 8)) + j mod 8 = 96 + (8 * (j div 8) + j mod 8)" by simp
    then have "8 * (15 - (3 - j div 8)) + j mod 8 = 96 + j" by (simp only: mult_div_mod_eq)
    with that show ?thesis
      by (subst nth) (auto simp: bit_ucast_iff bit_drop_bit_eq add.commute)
  qed
  show "drop_bit 96 u = drop_bit 96 v" if eq: "take 4 (uuid_bytes u) = take 4 (uuid_bytes v)"
  proof (rule bit_word_eqI)
    fix j assume "j < LENGTH(128)"
    show "bit (drop_bit 96 u) j = bit (drop_bit 96 v) j"
    proof (cases "j < 32")
      case True
      then show ?thesis using eq bit_nth by metis
    next
      case False
      then show ?thesis
        using bit_imp_le_length [of u "96 + j"] bit_imp_le_length [of v "96 + j"]
        by (auto simp: bit_drop_bit_eq)
    qed
  qed
  show "take 4 (uuid_bytes u) = take 4 (uuid_bytes v)" if eq: "drop_bit 96 u = drop_bit 96 v"
  proof (rule nth_equalityI)
    fix i assume "i < length (take 4 (uuid_bytes u))"
    then have i: "i < 4" by simp
    have "drop_bit (8 * (3 - i)) (drop_bit 96 u) = drop_bit (8 * (3 - i)) (drop_bit 96 v)"
      using eq by simp
    moreover have "8 * (3 - i) + 96 = 8 * (15 - i)" using i by simp
    ultimately show "take 4 (uuid_bytes u) ! i = take 4 (uuid_bytes v) ! i"
      using i by (simp add: uuid_bytes_def)
  qed simp
qed

subsection \<open>Derived names\<close>

lemma length_short_sid [simp]: "length (short_sid i) = 8"
  by (simp add: short_sid_def)

lemma length_short_user: "length (sha256 u) = 32 \<Longrightarrow> length (short_user sha256 u) = 8"
  by (simp add: short_user_def)

lemma short_sid_chars: "c \<in> set (short_sid i) \<Longrightarrow> hex_char c"
  unfolding short_sid_def by (rule hex_encode_chars)

lemma short_user_chars: "c \<in> set (short_user sha256 u) \<Longrightarrow> hex_char c"
  unfolding short_user_def by (rule hex_encode_chars)

lemma hex_not_underscore: "hex_char c \<Longrightarrow> c \<noteq> CHR ''_''"
  by auto

lemma short_ident [simp]:
  "list_all ident_char (short_sid i)" "list_all ident_char (short_user sha256 u)"
  by (auto simp: list_all_iff simp del: set_simps dest: short_sid_chars short_user_chars)

lemma ident_char_literals [simp]:
  "list_all ident_char ''playground_''" "list_all ident_char ''pg_''"
  "list_all ident_char ''_''" "list_all ident_char ''_src''"
  "list_all ident_char ''_pub''" "list_all ident_char ''_slot''"
  by (simp_all add: ident_char_def is_ascii_alphanumeric_def is_upper_def is_lower_def is_digit_def)

lemma length_derived:
  assumes "length (sha256 u) = 32"
  shows "length (derive_namespace sha256 u i) = 28"
    and "length (derive_shuttle_name sha256 u i) = 20"
    and "length (derive_connection_name sha256 u i) = 24"
  using length_short_user [of sha256 u, OF assms]
  by (simp_all add: derive_namespace_def derive_shuttle_name_def derive_connection_name_def)

lemma derived_ident:
  "list_all ident_char (derive_namespace sha256 u i)"
  "list_all ident_char (derive_shuttle_name sha256 u i)"
  "list_all ident_char (derive_connection_name sha256 u i)"
  unfolding derive_namespace_def derive_shuttle_name_def derive_connection_name_def
    list_all_append by (intro conjI short_ident ident_char_literals)+

lemma split_shuttle_name:
  assumes "set tail \<inter> {CHR ''_''} = {}"
  shows "split_on (\<lambda>c. c = CHR ''_'') (derive_shuttle_name sha256 u i @ CHR ''_'' # tail)
           = [''pg'', short_user sha256 u, short_sid i, tail]"
    and "split_on (\<lambda>c. c = CHR ''_'') (derive_shuttle_name sha256 u i)
           = [''pg'', short_user sha256 u, short_sid i]"
proof -
  have su: "\<And>c. c \<in> set (short_user sha256 u) \<Longrightarrow> \<not> c = CHR ''_''"
    and ss: "\<And>c. c \<in> set (short_sid i) \<Longrightarrow> \<not> c = CHR ''_''"
    using short_user_chars short_sid_chars hex_not_underscore by metis+
  have t: "\<And>c. c \<in> set tail \<Longrightarrow> \<not> c = CHR ''_''" using assms by auto
  show "split_on (\<lambda>c. c = CHR ''_'') (derive_shuttle_name sha256 u i @ CHR ''_'' # tail)
           = [''pg'', short_user sha256 u, short_sid i, tail]"
    using split_on_append [OF su, where d = "CHR ''_''" and t = "short_sid i @ CHR ''_'' # tail"]
      split_on_append [OF ss, where d = "CHR ''_''" and t = tail] split_on_clean [OF t]
    by (simp add: derive_shuttle_name_def)
  show "split_on (\<lambda>c. c = CHR ''_'') (derive_shuttle_name sha256 u i)
           = [''pg'', short_user sha256 u, short_sid i]"
    using split_on_append [OF su, where d = "CHR ''_''" and t = "short_sid i"] split_on_clean [OF ss]
    by (simp add: derive_shuttle_name_def)
qed

lemma derived_artifact:
  assumes "length (sha256 u) = 32" and "tail \<in> {[], ''_pub'', ''_slot''}"
  shows "is_safe_playground_shuttle_artifact (derive_shuttle_name sha256 u i @ tail)"
proof -
  have ne: "short_user sha256 u \<noteq> []" "short_sid i \<noteq> []"
    using length_short_user [of sha256 u, OF assms(1)] length_short_sid [of i] by (metis length_0_conv zero_neq_numeral)+
  have pre: "starts_with (derive_shuttle_name sha256 u i @ tail) ''pg_''"
    by (simp add: derive_shuttle_name_def)
  from assms(2) consider "tail = []" | "tail = CHR ''_'' # ''pub''" | "tail = CHR ''_'' # ''slot''"
    by auto
  then show ?thesis
  proof cases
    case 1
    then show ?thesis
      using pre ne derived_ident(2) [of sha256 u i] length_derived(2) [of sha256 u, OF assms(1), of i]
      by (auto simp: is_safe_playground_shuttle_artifact_def split_shuttle_name(2) [of "[]"])
  next
    case 2
    then show ?thesis
      using pre ne derived_ident(2) [of sha256 u i] length_derived(2) [of sha256 u, OF assms(1), of i]
        ident_char_literals(5)
      by (auto simp: is_safe_playground_shuttle_artifact_def split_shuttle_name(1))
  next
    case 3
    then show ?thesis
      using pre ne derived_ident(2) [of sha256 u i] length_derived(2) [of sha256 u, OF assms(1), of i]
        ident_char_literals(6)
      by (auto simp: is_safe_playground_shuttle_artifact_def split_shuttle_name(1))
  qed
qed

lemma derived_resource:
  "length (sha256 u) = 32 \<Longrightarrow> is_safe_resource_name (derive_namespace sha256 u i)"
  using length_derived(1) [of sha256 u i] derived_ident(1) [of sha256 u i]
  by (simp add: is_safe_resource_name_def derive_namespace_def)

lemma derived_identifiers:
  assumes "length (sha256 u) = 32"
  shows "is_safe_identifier (derive_namespace sha256 u i)"
    and "is_safe_identifier (derive_shuttle_name sha256 u i)"
    and "is_safe_identifier (derive_connection_name sha256 u i)"
  using length_derived [of sha256 u, OF assms, of i] derived_ident [of sha256 u i]
  by (auto simp: is_safe_identifier_def)

lemma resource_is_identifier: "is_safe_resource_name s \<Longrightarrow> is_safe_identifier s"
  by (simp add: is_safe_resource_name_def is_safe_identifier_def)

lemma artifact_is_identifier: "is_safe_playground_shuttle_artifact s \<Longrightarrow> is_safe_identifier s"
  by (auto simp: is_safe_playground_shuttle_artifact_def is_safe_identifier_def split: if_splits)

subsection \<open>Properties\<close>

text \<open>C23: Every name \<open>Session::new\<close> derives passes every guard it later meets, for any user
  id and session id: the namespace is a safe resource name (so provisioning and teardown
  never reject it), namespace, shuttle and connection name are safe identifiers, and the
  shuttle name is a safe artifact, bare and with the suffixes of its publication and its
  replication slot.\<close>

theorem derived_names_pass_guards:
  assumes digest: "\<And>x. length (sha256 x) = 32"
  shows "is_safe_resource_name (derive_namespace sha256 u i) \<and>
         is_safe_identifier (derive_namespace sha256 u i) \<and>
         is_safe_identifier (derive_shuttle_name sha256 u i) \<and>
         is_safe_identifier (derive_connection_name sha256 u i) \<and>
         is_safe_playground_shuttle_artifact (derive_shuttle_name sha256 u i) \<and>
         is_safe_playground_shuttle_artifact (derive_shuttle_name sha256 u i @ ''_pub'') \<and>
         is_safe_playground_shuttle_artifact (derive_shuttle_name sha256 u i @ ''_slot'')"
  using derived_resource [of sha256 u i] derived_identifiers [of sha256 u i]
    derived_artifact [of sha256 u "[]" i] derived_artifact [of sha256 u "''_pub''" i]
    derived_artifact [of sha256 u "''_slot''" i] digest by auto

theorem derived_names_pass_guards_witness:
  "length (replicate 32 0 :: u8 list) = 32 \<and>
   is_safe_resource_name (derive_namespace (\<lambda>_. replicate 32 0) ''alice'' 5)"
  using derived_names_pass_guards [of "\<lambda>_. replicate 32 0" "''alice''" 5] by simp

lemma join_pieces3: "split_on (\<lambda>c. c = d) s = [p, a, b] \<Longrightarrow> s = p @ d # a @ d # b"
  using join_split_on [of d s] by simp

lemma join_pieces4: "split_on (\<lambda>c. c = d) s = [p, a, b, t] \<Longrightarrow> s = p @ d # a @ d # b @ d # t"
  using join_split_on [of d s] by simp

lemma ident_char_cases: "ident_char c \<Longrightarrow> c \<noteq> CHR ''_'' \<Longrightarrow> is_ascii_alphanumeric c"
  by (simp add: ident_char_def)

lemma alphanumeric_not_underscore: "is_ascii_alphanumeric c \<Longrightarrow> c \<noteq> CHR ''_''"
  by (auto simp: is_ascii_alphanumeric_def is_upper_def is_lower_def is_digit_def)

definition artifact_shape :: "str \<Rightarrow> bool" where
  "artifact_shape s \<longleftrightarrow>
     length s \<le> 64 \<and>
     (\<exists>a b tail. s = ''pg_'' @ a @ ''_'' @ b @ tail \<and> tail \<in> {[], ''_pub'', ''_slot''} \<and>
        a \<noteq> [] \<and> b \<noteq> [] \<and> list_all is_ascii_alphanumeric (a @ b))"

lemma split_artifact:
  assumes "list_all is_ascii_alphanumeric (a @ b)"
  shows "split_on (\<lambda>c. c = CHR ''_'') (''pg_'' @ a @ ''_'' @ b) = [''pg'', a, b]"
    and "\<forall>c \<in> set t. c \<noteq> CHR ''_'' \<Longrightarrow>
           split_on (\<lambda>c. c = CHR ''_'') (''pg_'' @ a @ ''_'' @ b @ CHR ''_'' # t) = [''pg'', a, b, t]"
proof -
  have a: "\<And>c. c \<in> set a \<Longrightarrow> \<not> c = CHR ''_''" and b: "\<And>c. c \<in> set b \<Longrightarrow> \<not> c = CHR ''_''"
    using assms alphanumeric_not_underscore by (auto simp: list_all_iff)
  show "split_on (\<lambda>c. c = CHR ''_'') (''pg_'' @ a @ ''_'' @ b) = [''pg'', a, b]"
    using split_on_append [OF a, where d = "CHR ''_''" and t = b] split_on_clean [OF b] by simp
  assume "\<forall>c \<in> set t. c \<noteq> CHR ''_''"
  then have t: "\<And>c. c \<in> set t \<Longrightarrow> \<not> c = CHR ''_''" by blast
  show "split_on (\<lambda>c. c = CHR ''_'') (''pg_'' @ a @ ''_'' @ b @ CHR ''_'' # t) = [''pg'', a, b, t]"
    using split_on_append [OF a, where d = "CHR ''_''" and t = "b @ CHR ''_'' # t"]
      split_on_append [OF b, where d = "CHR ''_''" and t = t] split_on_clean [OF t] by simp
qed

lemma artifact_shape_safe: "artifact_shape s \<Longrightarrow> is_safe_playground_shuttle_artifact s"
proof -
  assume "artifact_shape s"
  then obtain a b tail where s: "s = ''pg_'' @ a @ ''_'' @ b @ tail"
    and tail: "tail \<in> {[], ''_pub'', ''_slot''}"
    and len: "length s \<le> 64" and ne: "a \<noteq> []" "b \<noteq> []"
    and an: "list_all is_ascii_alphanumeric (a @ b)"
    unfolding artifact_shape_def by blast
  have "list_all ident_char (a @ b)" using an by (auto simp: list_all_iff ident_char_def)
  then have id: "list_all ident_char s"
    using tail ident_char_literals unfolding s by auto
  have "split_on (\<lambda>c. c = CHR ''_'') s \<in> {[''pg'', a, b], [''pg'', a, b, ''pub''], [''pg'', a, b, ''slot'']}"
    using tail split_artifact(1) [OF an] split_artifact(2) [OF an, of "''pub''"]
      split_artifact(2) [OF an, of "''slot''"] unfolding s by auto
  then show ?thesis
    using len ne id by (auto simp: is_safe_playground_shuttle_artifact_def s)
qed

lemma safe_artifact_pieces:
  assumes "is_safe_playground_shuttle_artifact s"
  obtains a b tail where "a \<noteq> []" "b \<noteq> []"
    "split_on (\<lambda>c. c = CHR ''_'') s = [''pg'', a, b] \<and> tail = [] \<or>
     split_on (\<lambda>c. c = CHR ''_'') s = [''pg'', a, b, ''pub''] \<and> tail = ''_pub'' \<or>
     split_on (\<lambda>c. c = CHR ''_'') s = [''pg'', a, b, ''slot''] \<and> tail = ''_slot''"
  using assms
  by (auto simp: is_safe_playground_shuttle_artifact_def split: if_splits list.splits)

lemma safe_artifact_shape: "is_safe_playground_shuttle_artifact s \<Longrightarrow> artifact_shape s"
proof -
  let ?ps = "split_on (\<lambda>c. c = CHR ''_'') s"
  assume safe: "is_safe_playground_shuttle_artifact s"
  then have len: "length s \<le> 64" and id: "list_all ident_char s"
    by (auto simp: is_safe_playground_shuttle_artifact_def split: if_splits)
  from safe obtain a b tail where ne: "a \<noteq> []" "b \<noteq> []" and
    ps: "?ps = [''pg'', a, b] \<and> tail = [] \<or> ?ps = [''pg'', a, b, ''pub''] \<and> tail = ''_pub'' \<or>
         ?ps = [''pg'', a, b, ''slot''] \<and> tail = ''_slot''"
    by (rule safe_artifact_pieces)
  then have s: "s = ''pg_'' @ a @ ''_'' @ b @ tail"
    by (auto dest!: join_pieces3 join_pieces4)
  have "a \<in> set ?ps" "b \<in> set ?ps" using ps by auto
  then have "c \<noteq> CHR ''_'' \<and> ident_char c" if "c \<in> set (a @ b)" for c
    using that id split_on_pieces [of _ "\<lambda>c. c = CHR ''_''" s c] unfolding s
    by (auto simp: list_all_iff)
  then have "list_all is_ascii_alphanumeric (a @ b)"
    using ident_char_cases by (auto simp: list_all_iff)
  moreover have "tail \<in> {[], ''_pub'', ''_slot''}" using ps by auto
  ultimately show ?thesis
    using len ne s unfolding artifact_shape_def by blast
qed

text \<open>\<open>is_safe_playground_shuttle_artifact\<close> accepts exactly the texts of at most 64 bytes
  of the shape \<open>pg_a_b\<close>, \<open>pg_a_b_pub\<close> or \<open>pg_a_b_slot\<close> with \<open>a\<close> and \<open>b\<close> non-empty and
  made of ASCII letters and digits, so nothing it accepts can leave a quoted identifier
  or a string literal.\<close>

theorem artifact_guard_exact: "is_safe_playground_shuttle_artifact s \<longleftrightarrow> artifact_shape s"
  using artifact_shape_safe safe_artifact_shape by blast

text \<open>Two sessions share a namespace, or a shuttle name, exactly when the first four
  digest bytes of their users and the 32 high bits of their ids agree.\<close>

theorem namespace_collision_exact:
  assumes digest: "\<And>x. length (sha256 x) = 32"
  shows "(derive_namespace sha256 u i = derive_namespace sha256 v j \<longleftrightarrow>
            take 4 (sha256 u) = take 4 (sha256 v) \<and> drop_bit 96 i = drop_bit 96 j) \<and>
         (derive_shuttle_name sha256 u i = derive_shuttle_name sha256 v j \<longleftrightarrow>
            derive_namespace sha256 u i = derive_namespace sha256 v j)"
proof -
  have "length (short_user sha256 u) = length (short_user sha256 v)"
    using length_short_user digest by metis
  then show ?thesis
    by (auto simp: derive_namespace_def derive_shuttle_name_def short_user_def short_sid_def
        hex_encode_inj uuid_high_bits)
qed

theorem namespace_collision_exact_witness:
  "length (replicate 32 0 :: u8 list) = 32 \<and>
   derive_namespace (\<lambda>_. replicate 32 0) ''alice'' 5 = derive_namespace (\<lambda>_. replicate 32 0) ''bob'' 6 \<and>
   derive_namespace (\<lambda>_. replicate 32 0) ''alice'' 0 \<noteq>
     derive_namespace (\<lambda>_. replicate 32 0) ''alice'' (push_bit 96 1)"
  using namespace_collision_exact [of "\<lambda>_. replicate 32 0" "''alice''" 5 "''bob''" 6]
    namespace_collision_exact [of "\<lambda>_. replicate 32 0" "''alice''" 0 "''alice''" "push_bit 96 1"]
  by simp

end
