(* ===== verification/Sessions.thy ===== *)
theory Sessions
  imports Hash_Map Manifest Names
begin

text \<open>
  The session store (\<^verbatim>\<open>datashuttle-playground/src/sessions.rs\<close>): a session, its clock
  arithmetic and its event log, and the manager that holds the two maps (sessions by id,
  the user's pointer to its session) and mirrors the first one to disk.

  Clocks: a \<open>Duration\<close> and an \<open>Instant\<close> are natural numbers of nanoseconds (\<open>elapsed\<close>
  saturates at zero as \<open>Instant::elapsed\<close> does, and so does subtraction on naturals), a
  \<open>DateTime\<close> is an integer number of nanoseconds. An operation takes the readings it makes
  of the two clocks as arguments, one \<open>clock\<close> per place in the code that reads them.
  Adding two durations panics past the largest one, which \<open>duration_add\<close> writes out.

  Concurrency: every operation runs under the write lock of the maps, so it is one step on
  the manager; \<open>persist\<close> runs after the locks are gone and is kept as its three steps
  (snapshot, write of the temporary file, rename), so that their interleaving can be stated.

  Parameters: SHA-256, the fresh id of \<open>Uuid::new_v4\<close>, and serde's encoder and decoder of
  the session rows (\<open>enc\<close>, \<open>dec\<close>), of which only the round trip is used.
\<close>

subsection \<open>Durations and clocks\<close>

type_synonym duration = nat
type_synonym instant = nat
type_synonym utc_time = int

record clock =
  mono :: instant
  utc :: utc_time

abbreviation from_secs :: "nat \<Rightarrow> duration" where
  "from_secs n \<equiv> n * 1000000000"

abbreviation as_secs :: "duration \<Rightarrow> nat" where
  "as_secs d \<equiv> d div 1000000000"

definition DEFAULT_TTL :: duration where
  "DEFAULT_TTL = from_secs (2 * 60 * 60)"

definition MIN_TTL :: duration where
  "MIN_TTL = from_secs (5 * 60)"

definition MAX_TTL :: duration where
  "MAX_TTL = from_secs (8 * 60 * 60)"

definition ACTION_COOLDOWN :: duration where
  "ACTION_COOLDOWN = from_secs 1"

definition DURATION_MAX :: duration where
  "DURATION_MAX = 2 ^ 64 * 1000000000 - 1"

text \<open>\<open>impl Add for Duration\<close>: overflow panics.\<close>

definition duration_add :: "duration \<Rightarrow> duration \<Rightarrow> duration outcome" where
  "duration_add a b = (if a + b \<le> DURATION_MAX then Returns (a + b) else Panics)"

text \<open>\<open>Duration::checked_sub\<close>.\<close>

definition checked_sub :: "duration \<Rightarrow> duration \<Rightarrow> duration option" where
  "checked_sub a b = (if b \<le> a then Some (a - b) else None)"

text \<open>\<open>Instant::elapsed\<close> at the reading \<open>now\<close>.\<close>

definition elapsed :: "instant \<Rightarrow> instant \<Rightarrow> duration" where
  "elapsed now since = now - since"

text \<open>\<open>chrono::Duration::from_std\<close> accepts at most \<open>i64::MAX\<close> milliseconds.\<close>

definition from_std :: "duration \<Rightarrow> (unit, int) result" where
  "from_std d = (if d \<le> (2 ^ 63 - 1) * 1000000 then Inr (int d) else Inl ())"

lemma checked_sub_saturates [simp]: "opt_unwrap_or (checked_sub a b) 0 = a - b"
  by (simp add: checked_sub_def)

subsection \<open>A session\<close>

datatype session_status = Provisioning | Active | Resetting | Terminating | Ended

record session_event =
  ev_at :: utc_time
  ev_kind :: str
  ev_message :: str
  ev_action_id :: "str option"
  ev_success :: "bool option"

text \<open>
  The fields serde writes are the row; the two monotonic readings carry
  \<open>#[serde(skip)]\<close> and exist in memory only.
\<close>

record session_row =
  s_id :: uuid
  s_user_id :: str
  s_tenant_id :: "str option"
  s_scenario_id :: str
  s_namespace :: str
  s_shuttle_name :: str
  s_connection_name :: str
  s_created_at :: utc_time
  s_expires_at :: utc_time
  s_ttl :: duration
  s_status :: session_status
  s_events :: "session_event list"

record session = session_row +
  s_created_monotonic :: instant
  s_last_action_at :: "instant option"

definition session_new ::
    "(str \<Rightarrow> u8 list) \<Rightarrow> clock \<Rightarrow> uuid \<Rightarrow> str \<Rightarrow> str option \<Rightarrow> str \<Rightarrow> duration \<Rightarrow> session" where
  "session_new sha256 c i user_id tenant_id scenario_id ttl =
     \<lparr>s_id = i, s_user_id = user_id, s_tenant_id = tenant_id, s_scenario_id = scenario_id,
      s_namespace = derive_namespace sha256 user_id i,
      s_shuttle_name = derive_shuttle_name sha256 user_id i,
      s_connection_name = derive_connection_name sha256 user_id i,
      s_created_at = utc c,
      s_expires_at = utc c + unwrap_or (from_std ttl) (int (from_secs (2 * 60 * 60))),
      s_ttl = ttl, s_status = Provisioning, s_events = [],
      s_created_monotonic = mono c, s_last_action_at = None\<rparr>"

definition is_expired :: "clock \<Rightarrow> session \<Rightarrow> bool" where
  "is_expired c s \<longleftrightarrow> elapsed (mono c) (s_created_monotonic s) > s_ttl s \<or> utc c \<ge> s_expires_at s"

definition MAX_EVENTS :: nat where
  "MAX_EVENTS = 500"

definition record_event ::
    "utc_time \<Rightarrow> str \<Rightarrow> str \<Rightarrow> str option \<Rightarrow> bool option \<Rightarrow> session \<Rightarrow> session" where
  "record_event now kind message action_id success s =
     (let events = s_events s @
            [\<lparr>ev_at = now, ev_kind = kind, ev_message = message, ev_action_id = action_id,
              ev_success = success\<rparr>];
          events = (if length events > MAX_EVENTS then drop (length events - MAX_EVENTS) events
                    else events)
      in s\<lparr>s_events := events\<rparr>)"

text \<open>
  \<open>extend\<close> reads the monotonic clock twice (\<open>c1\<close>, then \<open>c2\<close>) and the wall clock once.
  It panics when an addition overflows; the session is written only after both additions.
\<close>

definition session_extend :: "clock \<Rightarrow> clock \<Rightarrow> duration \<Rightarrow> session \<Rightarrow> ((str, unit) result \<times> session) outcome" where
  "session_extend c1 c2 extra s =
     (let remaining = opt_unwrap_or (checked_sub (s_ttl s) (elapsed (mono c1) (s_created_monotonic s))) 0
      in obind (duration_add remaining extra) (\<lambda>new_total.
           if new_total > MAX_TTL then Returns (Inl ''extension would exceed max TTL'', s)
           else obind (duration_add (elapsed (mono c2) (s_created_monotonic s)) new_total) (\<lambda>ttl.
                  Returns (Inr (),
                    s\<lparr>s_ttl := ttl,
                      s_expires_at := utc c2 + unwrap_or (from_std new_total) (int (from_secs (60 * 60)))\<rparr>))))"

record session_view =
  sv_id :: uuid
  sv_scenario_id :: str
  sv_status :: session_status
  sv_namespace :: str
  sv_shuttle_name :: str
  sv_created_at :: utc_time
  sv_expires_at :: utc_time
  sv_ttl_seconds :: nat
  sv_remaining_seconds :: nat
  sv_events :: "session_event list"

definition session_view_of :: "clock \<Rightarrow> session \<Rightarrow> session_view" where
  "session_view_of c s =
     \<lparr>sv_id = s_id s, sv_scenario_id = s_scenario_id s, sv_status = s_status s,
      sv_namespace = s_namespace s, sv_shuttle_name = s_shuttle_name s,
      sv_created_at = s_created_at s, sv_expires_at = s_expires_at s,
      sv_ttl_seconds = as_secs (s_ttl s),
      sv_remaining_seconds =
        as_secs (opt_unwrap_or (checked_sub (s_ttl s) (elapsed (mono c) (s_created_monotonic s))) 0),
      sv_events = s_events s\<rparr>"

subsection \<open>Errors\<close>

datatype session_error =
    UserLimit uuid
  | NotFound uuid
  | Forbidden
  | Cooldown duration
  | InvalidTtl str
  | Disabled
  | UnknownScenario str

text \<open>\<open>impl Display for Uuid\<close>: lower-case hexadecimal in groups of 4, 2, 2, 2 and 6 bytes.\<close>

definition uuid_display :: "uuid \<Rightarrow> str" where
  "uuid_display u =
     (let h = hex_encode (uuid_bytes u)
      in take 8 h @ ''-'' @ take 4 (drop 8 h) @ ''-'' @ take 4 (drop 12 h) @ ''-'' @
         take 4 (drop 16 h) @ ''-'' @ drop 20 h)"

text \<open>
  \<open>impl Debug for Duration\<close>: the largest unit that gives a positive integer part, the
  fraction in \<open>w\<close> digits with its trailing zeros dropped; the micro sign is U+00B5.
\<close>

definition pad_left :: "nat \<Rightarrow> str \<Rightarrow> str" where
  "pad_left w s = replicate (w - length s) (CHR ''0'') @ s"

definition fmt_decimal :: "nat \<Rightarrow> nat \<Rightarrow> nat \<Rightarrow> str" where
  "fmt_decimal whole fraction w =
     (let digits = trim_end_char (CHR ''0'') (pad_left w (show_nat fraction))
      in show_nat whole @ (if fraction = 0 then [] else ''.'' @ digits))"

definition duration_debug :: "duration \<Rightarrow> str" where
  "duration_debug d =
     (if d \<ge> 1000000000 then fmt_decimal (d div 1000000000) (d mod 1000000000) 9 @ ''s''
      else if d \<ge> 1000000 then fmt_decimal (d div 1000000) (d mod 1000000) 6 @ ''ms''
      else if d \<ge> 1000 then fmt_decimal (d div 1000) (d mod 1000) 3 @ [CHR 0xC2, CHR 0xB5] @ ''s''
      else show_nat d @ ''ns'')"

fun session_error_display :: "session_error \<Rightarrow> str" where
  "session_error_display (UserLimit i) =
     ''session limit reached for user (already holds '' @ uuid_display i @ '')''"
| "session_error_display (NotFound i) = ''session not found: '' @ uuid_display i"
| "session_error_display Forbidden = ''session is owned by a different user''"
| "session_error_display (Cooldown d) =
     ''action cooldown active '' @ [CHR 0xE2, CHR 0x80, CHR 0x94] @ '' retry in '' @ duration_debug d"
| "session_error_display (InvalidTtl m) = ''invalid TTL: '' @ m"
| "session_error_display Disabled = ''playground is disabled by config''"
| "session_error_display (UnknownScenario s) = ''unknown scenario: '' @ s"

definition clamp_ttl :: "duration \<Rightarrow> (session_error, duration) result" where
  "clamp_ttl t =
     (if t < MIN_TTL then Inl (InvalidTtl (''must be at least '' @ show_nat (as_secs MIN_TTL) @ ''s''))
      else if t > MAX_TTL then Inl (InvalidTtl (''must be at most '' @ show_nat (as_secs MAX_TTL) @ ''s''))
      else Inr t)"

subsection \<open>The manager\<close>

record session_manager =
  sm_sessions :: "(uuid, session) hash_map"
  sm_per_user :: "(str, uuid) hash_map"
  sm_manifest :: manifest
  sm_enabled :: bool
  sm_default_ttl :: duration
  sm_persistence_path :: "str option"

text \<open>The file system holds the contents of the files that exist.\<close>

type_synonym disk = "str \<Rightarrow> str option"

type_synonym store = "session_manager \<times> disk"

text \<open>
  How the two file operations of one \<open>persist\<close> end. A write that fails leaves the temporary
  file with any contents, or without it. The encoder is serde's.
\<close>

datatype persist_io = Persisted | WriteFailed "str option" | RenameFailed

record persist_env =
  pe_encode :: "session_row list \<Rightarrow> str option"
  pe_io :: persist_io

definition tmp_path :: "str \<Rightarrow> str" where
  "tmp_path path = path @ ''.tmp''"

definition rename_file :: "str \<Rightarrow> str \<Rightarrow> disk \<Rightarrow> disk" where
  "rename_file old new d = d(new := d old, old := None)"

definition persist_snapshot :: "session_manager \<Rightarrow> session_row list" where
  "persist_snapshot m = map session_row.truncate (hm_values (sm_sessions m))"

definition persist_rows :: "persist_env \<Rightarrow> str \<Rightarrow> session_row list \<Rightarrow> disk \<Rightarrow> disk" where
  "persist_rows P path rows d =
     (case pe_encode P rows of
        None \<Rightarrow> d
      | Some json \<Rightarrow>
          (case pe_io P of
             WriteFailed rest \<Rightarrow> d(tmp_path path := rest)
           | RenameFailed \<Rightarrow> d(tmp_path path \<mapsto> json)
           | Persisted \<Rightarrow> rename_file (tmp_path path) path (d(tmp_path path \<mapsto> json))))"

definition persist :: "persist_env \<Rightarrow> store \<Rightarrow> store" where
  "persist P st =
     (case st of (m, d) \<Rightarrow>
        (case sm_persistence_path m of
           None \<Rightarrow> (m, d)
         | Some path \<Rightarrow> (m, persist_rows P path (persist_snapshot m) d)))"

definition manager_new :: "manifest \<Rightarrow> bool \<Rightarrow> duration \<Rightarrow> session_manager" where
  "manager_new mf enabled default_ttl =
     \<lparr>sm_sessions = hm_empty, sm_per_user = hm_empty, sm_manifest = mf, sm_enabled = enabled,
      sm_default_ttl = unwrap_or (clamp_ttl default_ttl) DEFAULT_TTL,
      sm_persistence_path = None\<rparr>"

text \<open>
  \<open>hydrate_from_disk\<close>. \<open>read\<close> is what reading the file gives (an error of either kind is an
  empty start), \<open>dec\<close> is serde's decoder, \<open>boot\<close> the reading of \<open>default_instant_now\<close> for
  each row, \<open>now\<close> the wall clock after the parse.
\<close>

definition session_of_row :: "instant \<Rightarrow> session_row \<Rightarrow> session" where
  "session_of_row t r =
     session_row.extend r \<lparr>s_created_monotonic = t, s_last_action_at = None\<rparr>"

fun hydrate_rows ::
    "utc_time \<Rightarrow> (uuid, session) hash_map \<times> (str, uuid) hash_map \<Rightarrow> session list \<Rightarrow>
       (uuid, session) hash_map \<times> (str, uuid) hash_map" where
  "hydrate_rows now (sessions, per_user) [] = (sessions, per_user)"
| "hydrate_rows now (sessions, per_user) (s # ss) =
     (if s_expires_at s \<le> now \<or> s_status s = Ended then hydrate_rows now (sessions, per_user) ss
      else hydrate_rows now
             (hm_insert (s_id s) s sessions, hm_insert (s_user_id s) (s_id s) per_user) ss)"

definition hydrate_from_disk ::
    "(str \<Rightarrow> session_row list option) \<Rightarrow> (uuid \<Rightarrow> instant) \<Rightarrow> utc_time \<Rightarrow> str option \<Rightarrow>
       (uuid, session) hash_map \<times> (str, uuid) hash_map" where
  "hydrate_from_disk dec boot now read =
     (case read of
        None \<Rightarrow> (hm_empty, hm_empty)
      | Some bytes \<Rightarrow>
          (case dec bytes of
             None \<Rightarrow> (hm_empty, hm_empty)
           | Some rows \<Rightarrow>
               hydrate_rows now (hm_empty, hm_empty) (map (\<lambda>r. session_of_row (boot (s_id r)) r) rows)))"

text \<open>\<open>Path::join\<close> of a relative path.\<close>

definition path_join :: "str \<Rightarrow> str \<Rightarrow> str" where
  "path_join base p =
     (if base = [] then p else if ends_with base ''/'' then base @ p else base @ ''/'' @ p)"

definition sessions_path :: "str \<Rightarrow> str" where
  "sessions_path data_dir = path_join (path_join data_dir ''playground'') ''sessions.json''"

definition new_with_persistence ::
    "(str \<Rightarrow> session_row list option) \<Rightarrow> (uuid \<Rightarrow> instant) \<Rightarrow> utc_time \<Rightarrow>
       manifest \<Rightarrow> bool \<Rightarrow> duration \<Rightarrow> str \<Rightarrow> disk \<Rightarrow> store" where
  "new_with_persistence dec boot now mf enabled default_ttl data_dir d =
     (let path = sessions_path data_dir;
          (sessions, per_user) = hydrate_from_disk dec boot now (d path)
      in (\<lparr>sm_sessions = sessions, sm_per_user = per_user, sm_manifest = mf, sm_enabled = enabled,
           sm_default_ttl = unwrap_or (clamp_ttl default_ttl) DEFAULT_TTL,
           sm_persistence_path = Some path\<rparr>, d))"

text \<open>
  \<open>create\<close>: \<open>c1\<close> is the reading of \<open>is_expired\<close>, \<open>c2\<close> the one of \<open>Session::new\<close>, \<open>i\<close> the new id.
\<close>

definition holds_live :: "clock \<Rightarrow> session_manager \<Rightarrow> str \<Rightarrow> uuid option" where
  "holds_live c m user_id =
     (case hm_get (sm_per_user m) user_id of
        None \<Rightarrow> None
      | Some existing \<Rightarrow>
          (case hm_get (sm_sessions m) existing of
             None \<Rightarrow> None
           | Some sess \<Rightarrow>
               if s_status sess \<noteq> Ended \<and> \<not> is_expired c sess then Some existing else None))"

definition create ::
    "(str \<Rightarrow> u8 list) \<Rightarrow> persist_env \<Rightarrow> clock \<Rightarrow> clock \<Rightarrow> uuid \<Rightarrow>
       str \<Rightarrow> str option \<Rightarrow> str \<Rightarrow> duration option \<Rightarrow> store \<Rightarrow> (session_error, session) result \<times> store" where
  "create sha256 P c1 c2 i user_id tenant_id scenario_id ttl_override st =
     (case st of (m, d) \<Rightarrow>
        if \<not> sm_enabled m then (Inl Disabled, st)
        else if mf_scenario (sm_manifest m) scenario_id = None
        then (Inl (UnknownScenario scenario_id), st)
        else (case (case ttl_override of Some t \<Rightarrow> clamp_ttl t | None \<Rightarrow> Inr (sm_default_ttl m)) of
                Inl e \<Rightarrow> (Inl e, st)
              | Inr ttl \<Rightarrow>
                  (case holds_live c1 m user_id of
                     Some existing \<Rightarrow> (Inl (UserLimit existing), st)
                   | None \<Rightarrow>
                       let s = session_new sha256 c2 i user_id tenant_id scenario_id ttl;
                           per_user = hm_remove user_id (sm_per_user m);
                           m' = m\<lparr>sm_per_user := hm_insert user_id (s_id s) per_user,
                                  sm_sessions := hm_insert (s_id s) s (sm_sessions m)\<rparr>
                       in (Inr s, persist P (m', d)))))"

definition owned :: "session_manager \<Rightarrow> uuid \<Rightarrow> str \<Rightarrow> (session_error, session) result" where
  "owned m i user_id =
     rbind (ok_or (NotFound i) (hm_get (sm_sessions m) i)) (\<lambda>s.
       if s_user_id s \<noteq> user_id then Inl Forbidden else Inr s)"

definition get :: "session_manager \<Rightarrow> uuid \<Rightarrow> str \<Rightarrow> (session_error, session) result" where
  "get m i user_id = owned m i user_id"

text \<open>
  \<open>update\<close> with a closure that may panic: what the closure did to the session stays, the
  lock is released (tokio's locks are not poisoned), and nothing is persisted.
\<close>

definition update ::
    "persist_env \<Rightarrow> uuid \<Rightarrow> str \<Rightarrow> (session \<Rightarrow> 'r outcome \<times> session) \<Rightarrow> store \<Rightarrow>
       (session_error, 'r) result outcome \<times> store" where
  "update P i user_id f st =
     (case st of (m, d) \<Rightarrow>
        (case owned m i user_id of
           Inl e \<Rightarrow> (Returns (Inl e), st)
         | Inr s \<Rightarrow>
             (case f s of (r, s') \<Rightarrow>
                let m' = m\<lparr>sm_sessions := hm_insert i s' (sm_sessions m)\<rparr>
                in (case r of
                      Panics \<Rightarrow> (Panics, (m', d))
                    | Returns x \<Rightarrow> (Returns (Inr x), persist P (m', d))))))"

definition end_session_of :: "persist_env \<Rightarrow> uuid \<Rightarrow> str \<Rightarrow> store \<Rightarrow> (session_error, session) result \<times> store" where
  "end_session_of P i user_id st =
     (case st of (m, d) \<Rightarrow>
        (case owned m i user_id of
           Inl e \<Rightarrow> (Inl e, st)
         | Inr s \<Rightarrow>
             let uid = s_user_id s;
                 per_user = (if hm_get (sm_per_user m) uid = Some i then hm_remove uid (sm_per_user m)
                             else sm_per_user m);
                 m' = m\<lparr>sm_sessions := hm_remove i (sm_sessions m), sm_per_user := per_user\<rparr>
             in (Inr (s\<lparr>s_status := Ended\<rparr>), persist P (m', d))))"

text \<open>\<open>touch_action\<close>: \<open>t1\<close> is the reading of \<open>last.elapsed()\<close>, \<open>t2\<close> the one it stores.\<close>

definition touch_action ::
    "instant \<Rightarrow> instant \<Rightarrow> uuid \<Rightarrow> str \<Rightarrow> session_manager \<Rightarrow> (session_error, unit) result \<times> session_manager" where
  "touch_action t1 t2 i user_id m =
     (case owned m i user_id of
        Inl e \<Rightarrow> (Inl e, m)
      | Inr s \<Rightarrow>
          let stamp = m\<lparr>sm_sessions := hm_insert i (s\<lparr>s_last_action_at := Some t2\<rparr>) (sm_sessions m)\<rparr>
          in (case s_last_action_at s of
                None \<Rightarrow> (Inr (), stamp)
              | Some prev \<Rightarrow>
                  let since = elapsed t1 prev
                  in if since < ACTION_COOLDOWN then (Inl (Cooldown (ACTION_COOLDOWN - since)), m)
                     else (Inr (), stamp)))"

text \<open>
  \<open>sweep_expired\<close>: \<open>clk i\<close> is the reading at which the session \<open>i\<close> is examined, in the
  first pass over the map; the second pass removes the ids collected.
\<close>

fun sweep_ids ::
    "uuid list \<Rightarrow> session_manager \<Rightarrow> session list \<Rightarrow> session list \<times> session_manager" where
  "sweep_ids [] m expired = (expired, m)"
| "sweep_ids (i # ids) m expired =
     (case hm_get (sm_sessions m) i of
        None \<Rightarrow> sweep_ids ids m expired
      | Some s \<Rightarrow>
          let per_user = (if hm_get (sm_per_user m) (s_user_id s) = Some i
                          then hm_remove (s_user_id s) (sm_per_user m) else sm_per_user m);
              m' = m\<lparr>sm_sessions := hm_remove i (sm_sessions m), sm_per_user := per_user\<rparr>
          in sweep_ids ids m' (expired @ [s\<lparr>s_status := Ended\<rparr>]))"

definition sweep_expired :: "persist_env \<Rightarrow> (uuid \<Rightarrow> clock) \<Rightarrow> store \<Rightarrow> session list \<times> store" where
  "sweep_expired P clk st =
     (case st of (m, d) \<Rightarrow>
        let ids = map fst (filter (\<lambda>(i, s). is_expired (clk i) s) (sm_sessions m));
            (expired, m') = sweep_ids ids m []
        in (expired, if expired \<noteq> [] then persist P (m', d) else (m', d)))"

definition active_count :: "session_manager \<Rightarrow> nat" where
  "active_count m = length (sm_sessions m)"

definition admin_get :: "session_manager \<Rightarrow> uuid \<Rightarrow> session option" where
  "admin_get m i = hm_get (sm_sessions m) i"

definition live_namespaces :: "session_manager \<Rightarrow> str set" where
  "live_namespaces m = s_namespace ` set (hm_values (sm_sessions m))"

definition live_shuttles :: "session_manager \<Rightarrow> str set" where
  "live_shuttles m = s_shuttle_name ` set (hm_values (sm_sessions m))"

text \<open>
  \<open>get_user_session\<close> drops the lock of the pointers before it takes the one of the
  sessions, so the two lookups may see two states of the manager.
\<close>

definition get_user_session :: "session_manager \<Rightarrow> session_manager \<Rightarrow> str \<Rightarrow> session option" where
  "get_user_session m1 m2 user_id =
     (case hm_get (sm_per_user m1) user_id of
        None \<Rightarrow> None
      | Some i \<Rightarrow> hm_get (sm_sessions m2) i)"

subsection \<open>Ownership\<close>

text \<open>
  The contract every operation on one session keeps towards its caller: an id nobody holds
  is \<open>NotFound\<close>, a session of another user is \<open>Forbidden\<close>, and a refused call changes
  nothing. What follows for any sequence of calls is proved once.
\<close>

locale owner_guard =
  fixes owner :: "'m \<Rightarrow> uuid \<Rightarrow> str option"
    and call :: "uuid \<Rightarrow> str \<Rightarrow> 'm \<Rightarrow> (session_error, 'r) result \<times> 'm"
  assumes absent: "owner m i = None \<Longrightarrow> call i u m = (Inl (NotFound i), m)"
    and foreign: "owner m i = Some v \<Longrightarrow> v \<noteq> u \<Longrightarrow> call i u m = (Inl Forbidden, m)"
    and own: "owner m i = Some u \<Longrightarrow> fst (call i u m) \<notin> {Inl (NotFound i), Inl Forbidden}"
begin

lemma refused: "owner m i \<noteq> Some u \<Longrightarrow>
    call i u m = (Inl (if owner m i = None then NotFound i else Forbidden), m)"
  by (cases "owner m i") (auto simp: absent foreign)

lemma refused_iff: "fst (call i u m) \<in> {Inl (NotFound i), Inl Forbidden} \<longleftrightarrow> owner m i \<noteq> Some u"
  using own [of m i u] refused [of m i u] by (cases "owner m i = Some u") auto

lemma intruder_run:
  "(\<And>i. i \<in> set is \<Longrightarrow> owner m i \<noteq> Some u) \<Longrightarrow> fold (\<lambda>i m. snd (call i u m)) is m = m"
  by (induction "is") (auto simp: refused)

end

definition owner_of :: "session_manager \<Rightarrow> uuid \<Rightarrow> str option" where
  "owner_of m i = map_option s_user_id (hm_get (sm_sessions m) i)"

lemma owned_cases:
  "owned m i u =
     (case hm_get (sm_sessions m) i of
        None \<Rightarrow> Inl (NotFound i)
      | Some s \<Rightarrow> if s_user_id s = u then Inr s else Inl Forbidden)"
  by (simp add: owned_def split: option.split)

lemma owned_Inr_iff [result_simps]:
  "owned m i u = Inr s \<longleftrightarrow> hm_get (sm_sessions m) i = Some s \<and> s_user_id s = u"
  by (auto simp: owned_cases split: option.splits)

definition update_call ::
    "persist_env \<Rightarrow> (session \<Rightarrow> 'r outcome \<times> session) \<Rightarrow> uuid \<Rightarrow> str \<Rightarrow> store \<Rightarrow>
       (session_error, 'r outcome) result \<times> store" where
  "update_call P f i u st =
     (case update P i u f st of
        (Returns (Inl e), st') \<Rightarrow> (Inl e, st')
      | (Returns (Inr x), st') \<Rightarrow> (Inr (Returns x), st')
      | (Panics, st') \<Rightarrow> (Inr Panics, st'))"

lemmas owner_simps = owner_of_def owned_cases Let_def

interpretation get_guard: owner_guard owner_of "\<lambda>i u m. (get m i u, m)"
  by unfold_locales (auto simp: owner_simps get_def)

interpretation update_guard: owner_guard "\<lambda>st. owner_of (fst st)" "update_call P f" for P f
  by unfold_locales
    (auto simp: owner_simps update_call_def update_def split: outcome.splits prod.splits)

interpretation end_guard: owner_guard "\<lambda>st. owner_of (fst st)" "end_session_of P" for P
  by unfold_locales (auto simp: owner_simps end_session_of_def)

interpretation touch_guard: owner_guard owner_of "touch_action t1 t2" for t1 t2
  by unfold_locales (auto simp: owner_simps touch_action_def split: option.splits)

subsection \<open>Clock arithmetic and the event log\<close>

lemmas ttl_defs = DEFAULT_TTL_def MIN_TTL_def MAX_TTL_def ACTION_COOLDOWN_def DURATION_MAX_def

lemma clamp_ttl_iff [result_simps]: "clamp_ttl t = Inr t' \<longleftrightarrow> t' = t \<and> MIN_TTL \<le> t \<and> t \<le> MAX_TTL"
  by (auto simp: clamp_ttl_def)

lemma default_ttl_in_range:
  "MIN_TTL \<le> unwrap_or (clamp_ttl t) DEFAULT_TTL" "unwrap_or (clamp_ttl t) DEFAULT_TTL \<le> MAX_TTL"
  by (auto simp: clamp_ttl_def ttl_defs)

lemma from_std_max_ttl: "t \<le> MAX_TTL \<Longrightarrow> from_std t = Inr (int t)"
  by (simp add: from_std_def ttl_defs)

lemma record_event_log:
  "s_events (record_event now k msg a ok s) =
     drop (Suc (length (s_events s)) - MAX_EVENTS)
       (s_events s @ [\<lparr>ev_at = now, ev_kind = k, ev_message = msg, ev_action_id = a, ev_success = ok\<rparr>])"
  by (simp add: record_event_def Let_def)

lemma record_event_frame [simp]:
  "session_row.truncate (record_event now k msg a ok s) =
     (session_row.truncate s)\<lparr>s_events := s_events (record_event now k msg a ok s)\<rparr>"
  "s_id (record_event now k msg a ok s) = s_id s"
  "s_user_id (record_event now k msg a ok s) = s_user_id s"
  "s_status (record_event now k msg a ok s) = s_status s"
  "s_ttl (record_event now k msg a ok s) = s_ttl s"
  "s_expires_at (record_event now k msg a ok s) = s_expires_at s"
  "s_created_monotonic (record_event now k msg a ok s) = s_created_monotonic s"
  "s_last_action_at (record_event now k msg a ok s) = s_last_action_at s"
  "s_namespace (record_event now k msg a ok s) = s_namespace s"
  "s_shuttle_name (record_event now k msg a ok s) = s_shuttle_name s"
  "s_connection_name (record_event now k msg a ok s) = s_connection_name s"
  "s_scenario_id (record_event now k msg a ok s) = s_scenario_id s"
  by (simp_all add: record_event_def Let_def session_row.truncate_def)

abbreviation record_of :: "session_event \<Rightarrow> session \<Rightarrow> session" where
  "record_of e \<equiv> record_event (ev_at e) (ev_kind e) (ev_message e) (ev_action_id e) (ev_success e)"

lemma drop_window:
  fixes xs :: "'a list"
  shows "drop (Suc (length (drop (length xs - n) xs)) - n) (drop (length xs - n) xs @ [x])
       = drop (Suc (length xs) - n) (xs @ [x])"
  by (cases "length xs \<le> n") (auto simp: not_le Suc_diff_le)

end
