(* ===== verification/Session_Laws.thy ===== *)
theory Session_Laws
  imports Sessions
begin

text \<open>
  What the operations of the session manager do, branch by branch, and the invariant of its
  two maps: the default lifetime is in the allowed range; every session is stored under its own id with the names derived from its owner
  and its id, is not \<open>Ended\<close> and holds at most 500 events; every user pointer leads to a
  session of that user.
\<close>

subsection \<open>The invariant\<close>

definition session_ok :: "(str \<Rightarrow> u8 list) \<Rightarrow> uuid \<Rightarrow> session \<Rightarrow> bool" where
  "session_ok sha256 i s \<longleftrightarrow>
     s_id s = i \<and>
     s_namespace s = derive_namespace sha256 (s_user_id s) i \<and>
     s_shuttle_name s = derive_shuttle_name sha256 (s_user_id s) i \<and>
     s_connection_name s = derive_connection_name sha256 (s_user_id s) i \<and>
     s_status s \<noteq> Ended \<and> length (s_events s) \<le> MAX_EVENTS"

definition manager_inv :: "(str \<Rightarrow> u8 list) \<Rightarrow> session_manager \<Rightarrow> bool" where
  "manager_inv sha256 m \<longleftrightarrow>
     hm_ok (sm_sessions m) \<and> hm_ok (sm_per_user m) \<and>
     MIN_TTL \<le> sm_default_ttl m \<and> sm_default_ttl m \<le> MAX_TTL \<and>
     (\<forall>i s. hm_get (sm_sessions m) i = Some s \<longrightarrow> session_ok sha256 i s) \<and>
     (\<forall>u i. hm_get (sm_per_user m) u = Some i \<longrightarrow> owner_of m i = Some u)"

lemma manager_invD:
  assumes "manager_inv sha256 m"
  shows "hm_ok (sm_sessions m)" "hm_ok (sm_per_user m)"
    and "hm_get (sm_sessions m) i = Some s \<Longrightarrow> session_ok sha256 i s"
    and "hm_get (sm_per_user m) u = Some i \<Longrightarrow> owner_of m i = Some u"
    and "MIN_TTL \<le> sm_default_ttl m" "sm_default_ttl m \<le> MAX_TTL"
  using assms by (auto simp: manager_inv_def)

lemma persist_mem [simp]: "fst (persist P st) = fst st"
  by (cases st) (simp add: persist_def split: option.split)

lemma manager_inv_new: "manager_inv sha256 (manager_new mf en ttl)"
  by (simp add: manager_inv_def manager_new_def default_ttl_in_range)

lemma manager_inv_insert:
  assumes "manager_inv sha256 m" and "session_ok sha256 i s"
    and "\<And>v. owner_of m i = Some v \<Longrightarrow> v = s_user_id s"
  shows "manager_inv sha256 (m\<lparr>sm_sessions := hm_insert i s (sm_sessions m)\<rparr>)"
proof -
  have "u = s_user_id s" if "hm_get (sm_per_user m) u = Some i" for u
    using assms(3) manager_invD(4) [OF assms(1) that] by simp
  then show ?thesis
    using assms(1,2) by (fastforce simp: manager_inv_def owner_of_def)
qed

lemma manager_inv_point:
  assumes "manager_inv sha256 m" and "owner_of m i = Some u"
  shows "manager_inv sha256 (m\<lparr>sm_per_user := hm_insert u i (hm_remove u (sm_per_user m))\<rparr>)"
  using assms by (auto simp: manager_inv_def owner_of_def)

lemma manager_inv_drop:
  assumes inv: "manager_inv sha256 m" and s: "hm_get (sm_sessions m) i = Some s"
  shows "manager_inv sha256
           (m\<lparr>sm_sessions := hm_remove i (sm_sessions m),
              sm_per_user := if hm_get (sm_per_user m) (s_user_id s) = Some i
                             then hm_remove (s_user_id s) (sm_per_user m) else sm_per_user m\<rparr>)"
    (is "manager_inv sha256 ?m")
proof -
  note ok [simp] = manager_invD(1,2,5,6) [OF inv]
  have kept: "hm_get (sm_per_user m) u = Some j \<and> j \<noteq> i" if "hm_get (sm_per_user ?m) u = Some j" for u j
    using that manager_invD(4) [OF inv, of u j] s by (auto simp: owner_of_def split: if_splits)
  have "owner_of ?m j = Some u" if "hm_get (sm_per_user ?m) u = Some j" for u j
    using kept [OF that] manager_invD(4) [OF inv, of u j] by (simp add: owner_of_def)
  moreover have "session_ok sha256 j t" if "hm_get (sm_sessions ?m) j = Some t" for j t
    using that manager_invD(3) [OF inv, of j t] by (simp split: if_splits)
  ultimately show ?thesis unfolding manager_inv_def by simp
qed

lemma session_ok_new: "session_ok sha256 i (session_new sha256 c i u t sc ttl)"
  by (simp add: session_ok_def session_new_def MAX_EVENTS_def)

lemma session_ok_record: "session_ok sha256 i s \<Longrightarrow> session_ok sha256 i (record_event now k msg a ok s)"
  by (auto simp: session_ok_def record_event_log)

lemma session_new_fields [simp]:
  "s_id (session_new sha256 c i u t sc ttl) = i"
  "s_user_id (session_new sha256 c i u t sc ttl) = u"
  "s_ttl (session_new sha256 c i u t sc ttl) = ttl"
  "s_status (session_new sha256 c i u t sc ttl) = Provisioning"
  "s_created_monotonic (session_new sha256 c i u t sc ttl) = mono c"
  "s_last_action_at (session_new sha256 c i u t sc ttl) = None"
  "s_events (session_new sha256 c i u t sc ttl) = []"
  by (simp_all add: session_new_def)

subsection \<open>Create\<close>

definition ttl_choice :: "session_manager \<Rightarrow> duration option \<Rightarrow> duration" where
  "ttl_choice m ttl = opt_unwrap_or ttl (sm_default_ttl m)"

definition ttl_accepted :: "duration option \<Rightarrow> bool" where
  "ttl_accepted ttl \<longleftrightarrow> (case ttl of None \<Rightarrow> True | Some t \<Rightarrow> MIN_TTL \<le> t \<and> t \<le> MAX_TTL)"

definition create_state :: "session_manager \<Rightarrow> session \<Rightarrow> session_manager" where
  "create_state m s =
     m\<lparr>sm_per_user := hm_insert (s_user_id s) (s_id s) (hm_remove (s_user_id s) (sm_per_user m)),
       sm_sessions := hm_insert (s_id s) s (sm_sessions m)\<rparr>"

lemma create_cases:
  "create sha256 P c1 c2 i u t sc ttl (m, d) =
     (if \<not> sm_enabled m then (Inl Disabled, (m, d))
      else if mf_scenario (sm_manifest m) sc = None then (Inl (UnknownScenario sc), (m, d))
      else if \<not> ttl_accepted ttl then (Inl (case clamp_ttl (the ttl) of Inl e \<Rightarrow> e), (m, d))
      else (case holds_live c1 m u of
              Some j \<Rightarrow> (Inl (UserLimit j), (m, d))
            | None \<Rightarrow> let s = session_new sha256 c2 i u t sc (ttl_choice m ttl)
                      in (Inr s, persist P (create_state m s, d))))"
  by (auto simp: create_def ttl_accepted_def ttl_choice_def create_state_def clamp_ttl_def Let_def
      split: option.split)

lemma create_state_alt:
  "create_state m s = (m\<lparr>sm_sessions := hm_insert (s_id s) s (sm_sessions m)\<rparr>)
     \<lparr>sm_per_user := hm_insert (s_user_id s) (s_id s) (hm_remove (s_user_id s) (sm_per_user m))\<rparr>"
  by (simp add: create_state_def)

lemma manager_inv_create:
  assumes "manager_inv sha256 m" and "owner_of m i = None"
  shows "manager_inv sha256 (fst (snd (create sha256 P c1 c2 i u t sc ttl (m, d))))"
proof -
  let ?s = "session_new sha256 c2 i u t sc (ttl_choice m ttl)"
  have "manager_inv sha256 (m\<lparr>sm_sessions := hm_insert i ?s (sm_sessions m)\<rparr>)"
    using assms session_ok_new by (intro manager_inv_insert) simp_all
  moreover have "owner_of (m\<lparr>sm_sessions := hm_insert i ?s (sm_sessions m)\<rparr>) i = Some u"
    using manager_invD(1) [OF assms(1)] by (simp add: owner_of_def)
  ultimately have "manager_inv sha256 (create_state m ?s)"
    using manager_inv_point unfolding create_state_alt by fastforce
  then show ?thesis
    using assms(1) by (auto simp: create_cases Let_def split: option.split)
qed

lemma manager_inv_update:
  assumes "manager_inv sha256 m"
    and "\<And>s. session_ok sha256 i s \<Longrightarrow> s_user_id s = u \<Longrightarrow>
           session_ok sha256 i (snd (f s)) \<and> s_user_id (snd (f s)) = u"
  shows "manager_inv sha256 (fst (snd (update P i u f (m, d))))"
proof (cases "owned m i u")
  case (Inl e)
  then show ?thesis using assms(1) by (simp add: update_def)
next
  case (Inr s)
  then have s: "hm_get (sm_sessions m) i = Some s" "s_user_id s = u" by (auto simp: result_simps)
  with assms have "session_ok sha256 i (snd (f s))" "s_user_id (snd (f s)) = u"
    using manager_invD(3) by blast+
  then have "manager_inv sha256 (m\<lparr>sm_sessions := hm_insert i (snd (f s)) (sm_sessions m)\<rparr>)"
    using assms(1) s by (intro manager_inv_insert) (auto simp: owner_of_def)
  then show ?thesis
    using Inr by (auto simp: update_def Let_def split: prod.splits outcome.splits)
qed

lemma manager_inv_end:
  assumes "manager_inv sha256 m"
  shows "manager_inv sha256 (fst (snd (end_session_of P i u (m, d))))"
proof (cases "owned m i u")
  case (Inl e)
  then show ?thesis using assms(1) by (simp add: end_session_of_def)
next
  case (Inr s)
  then have "hm_get (sm_sessions m) i = Some s" by (simp add: result_simps)
  then show ?thesis
    using manager_inv_drop [OF assms, of i s] by (simp add: end_session_of_def Inr Let_def)
qed

lemma session_ok_stamp: "session_ok sha256 i s \<Longrightarrow> session_ok sha256 i (s\<lparr>s_last_action_at := t\<rparr>)"
  by (simp add: session_ok_def)

lemma manager_inv_touch:
  assumes "manager_inv sha256 m"
  shows "manager_inv sha256 (snd (touch_action t1 t2 i u m))"
proof (cases "owned m i u")
  case (Inl e)
  then show ?thesis using assms(1) by (simp add: touch_action_def)
next
  case (Inr s)
  then have "hm_get (sm_sessions m) i = Some s" by (simp add: result_simps)
  then have "manager_inv sha256 (m\<lparr>sm_sessions := hm_insert i (s\<lparr>s_last_action_at := Some t2\<rparr>) (sm_sessions m)\<rparr>)"
    using assms manager_invD(3) [OF assms]
    by (intro manager_inv_insert session_ok_stamp) (auto simp: owner_of_def)
  then show ?thesis
    using Inr assms by (auto simp: touch_action_def Let_def split: option.splits)
qed

subsection \<open>Sweep\<close>

definition drop_session :: "uuid \<Rightarrow> session \<Rightarrow> session_manager \<Rightarrow> session_manager" where
  "drop_session i s m =
     m\<lparr>sm_sessions := hm_remove i (sm_sessions m),
       sm_per_user := if hm_get (sm_per_user m) (s_user_id s) = Some i
                      then hm_remove (s_user_id s) (sm_per_user m) else sm_per_user m\<rparr>"

lemmas manager_inv_drop_session = manager_inv_drop [folded drop_session_def]

lemma sweep_ids_Some:
  "hm_get (sm_sessions m) i = Some s \<Longrightarrow>
     sweep_ids (i # ids) m expired = sweep_ids ids (drop_session i s m) (expired @ [s\<lparr>s_status := Ended\<rparr>])"
  by (simp add: drop_session_def Let_def)

lemma drop_session_get:
  assumes "manager_inv sha256 m" and "hm_get (sm_sessions m) i = Some s"
  shows "hm_get (sm_sessions (drop_session i s m)) = (hm_get (sm_sessions m))(i := None)"
    and "hm_get (sm_per_user (drop_session i s m)) u = opt_filter (\<lambda>j. j \<noteq> i) (hm_get (sm_per_user m) u)"
proof -
  note [simp] = manager_invD(1,2) [OF assms(1)]
  show "hm_get (sm_sessions (drop_session i s m)) = (hm_get (sm_sessions m))(i := None)"
    by (simp add: drop_session_def)
  show "hm_get (sm_per_user (drop_session i s m)) u = opt_filter (\<lambda>j. j \<noteq> i) (hm_get (sm_per_user m) u)"
    using manager_invD(4) [OF assms(1), of u i] assms(2)
    by (cases "hm_get (sm_per_user m) u") (auto simp: drop_session_def owner_of_def)
qed

lemma sweep_ids_all:
  assumes "manager_inv sha256 m"
  shows "manager_inv sha256 (snd (sweep_ids ids m acc)) \<and>
         hm_get (sm_sessions (snd (sweep_ids ids m acc))) =
           (\<lambda>j. if j \<in> set ids then None else hm_get (sm_sessions m) j) \<and>
         hm_get (sm_per_user (snd (sweep_ids ids m acc))) =
           (\<lambda>u. opt_filter (\<lambda>j. j \<notin> set ids) (hm_get (sm_per_user m) u))"
  using assms
proof (induction ids arbitrary: m acc)
  case Nil
  moreover have "opt_filter (\<lambda>j. True) x = x" for x :: "uuid option" by (cases x) simp_all
  ultimately show ?case by simp
next
  case (Cons i ids)
  show ?case
  proof (cases "hm_get (sm_sessions m) i")
    case None
    have "hm_get (sm_per_user m) u \<noteq> Some i" for u
      using manager_invD(4) [OF Cons.prems, of u i] None by (auto simp: owner_of_def)
    then have "opt_filter (\<lambda>j. j \<notin> set ids) (hm_get (sm_per_user m) u) =
        opt_filter (\<lambda>j. j \<notin> set (i # ids)) (hm_get (sm_per_user m) u)" for u
      by (cases "hm_get (sm_per_user m) u") auto
    then show ?thesis using None Cons.IH [OF Cons.prems, of acc] by (simp add: fun_eq_iff)
  next
    case (Some s)
    note IH = Cons.IH [OF manager_inv_drop_session [OF Cons.prems Some], of "acc @ [s\<lparr>s_status := Ended\<rparr>]"]
    then show ?thesis
      unfolding sweep_ids_Some [OF Some] drop_session_get [OF Cons.prems Some]
      by (auto simp: conj_commute)
  qed
qed

lemmas sweep_ids_laws = sweep_ids_all [THEN conjunct1] sweep_ids_all [THEN conjunct2, THEN conjunct1]
  sweep_ids_all [THEN conjunct2, THEN conjunct2]

lemma sweep_ids_frame:
  "sm_manifest (snd (sweep_ids ids m acc)) = sm_manifest m"
  "sm_enabled (snd (sweep_ids ids m acc)) = sm_enabled m"
  "sm_default_ttl (snd (sweep_ids ids m acc)) = sm_default_ttl m"
  "sm_persistence_path (snd (sweep_ids ids m acc)) = sm_persistence_path m"
  by (induction ids m acc rule: sweep_ids.induct) (simp_all add: Let_def split: option.split)

lemma sweep_ids_expired:
  assumes "manager_inv sha256 m" and "distinct ids" and "\<And>i. i \<in> set ids \<Longrightarrow> hm_get (sm_sessions m) i \<noteq> None"
  shows "fst (sweep_ids ids m acc) =
           acc @ map (\<lambda>i. (the (hm_get (sm_sessions m) i))\<lparr>s_status := Ended\<rparr>) ids"
  using assms
proof (induction ids arbitrary: m acc)
  case Nil
  then show ?case by simp
next
  case (Cons i ids)
  then obtain s where s: "hm_get (sm_sessions m) i = Some s" by fastforce
  let ?m = "drop_session i s m"
  have get: "hm_get (sm_sessions ?m) j = hm_get (sm_sessions m) j" if "j \<in> set ids" for j
    using that Cons.prems(2) drop_session_get(1) [OF Cons.prems(1) s] by auto
  have "fst (sweep_ids ids ?m (acc @ [s\<lparr>s_status := Ended\<rparr>])) =
      (acc @ [s\<lparr>s_status := Ended\<rparr>]) @ map (\<lambda>i. (the (hm_get (sm_sessions ?m) i))\<lparr>s_status := Ended\<rparr>) ids"
    using Cons.prems get by (intro Cons.IH manager_inv_drop_session [OF _ s]) auto
  then show ?case
    unfolding sweep_ids_Some [OF s] using get s by simp
qed

definition expired_ids :: "(uuid \<Rightarrow> clock) \<Rightarrow> session_manager \<Rightarrow> uuid list" where
  "expired_ids clk m = map fst (filter (\<lambda>(i, s). is_expired (clk i) s) (sm_sessions m))"

lemma expired_ids_exact:
  assumes "hm_ok (sm_sessions m)"
  shows "distinct (expired_ids clk m)"
    and "i \<in> set (expired_ids clk m) \<longleftrightarrow> (\<exists>s. hm_get (sm_sessions m) i = Some s \<and> is_expired (clk i) s)"
proof -
  show "distinct (expired_ids clk m)"
    using assms by (simp add: expired_ids_def hm_defs distinct_map_filter)
  show "i \<in> set (expired_ids clk m) \<longleftrightarrow> (\<exists>s. hm_get (sm_sessions m) i = Some s \<and> is_expired (clk i) s)"
    using hm.entries_iff [OF assms] unfolding expired_ids_def by force
qed

lemma sweep_expired_cases:
  "sweep_expired P clk (m, d) =
     (fst (sweep_ids (expired_ids clk m) m []),
      if fst (sweep_ids (expired_ids clk m) m []) \<noteq> []
      then persist P (snd (sweep_ids (expired_ids clk m) m []), d)
      else (snd (sweep_ids (expired_ids clk m) m []), d))"
  by (simp add: sweep_expired_def expired_ids_def Let_def split: prod.split)

lemma sweep_expired_mem: "fst (snd (sweep_expired P clk (m, d))) = snd (sweep_ids (expired_ids clk m) m [])"
  by (simp add: sweep_expired_cases)

lemma sweep_expired_laws:
  assumes inv: "manager_inv sha256 m"
  defines "m' \<equiv> \<lambda>P clk d. fst (snd (sweep_expired P clk (m, d)))"
  shows "manager_inv sha256 (m' P clk d)"
    and "hm_get (sm_sessions (m' P clk d)) i =
           opt_filter (\<lambda>s. \<not> is_expired (clk i) s) (hm_get (sm_sessions m) i)"
    and "hm_get (sm_per_user (m' P clk d)) u =
           opt_filter (\<lambda>j. hm_get (sm_sessions (m' P clk d)) j \<noteq> None) (hm_get (sm_per_user m) u)"
proof -
  note ok = manager_invD(1) [OF inv]
  note laws = sweep_ids_laws [OF inv, of "expired_ids clk m" "[]"]
  show "manager_inv sha256 (m' P clk d)"
    using laws(1) by (simp add: m'_def sweep_expired_mem)
  show get: "hm_get (sm_sessions (m' P clk d)) i =
      opt_filter (\<lambda>s. \<not> is_expired (clk i) s) (hm_get (sm_sessions m) i)" for i
    unfolding m'_def sweep_expired_mem laws(2) expired_ids_exact(2) [OF ok]
    by (cases "hm_get (sm_sessions m) i") simp_all
  show "hm_get (sm_per_user (m' P clk d)) u =
      opt_filter (\<lambda>j. hm_get (sm_sessions (m' P clk d)) j \<noteq> None) (hm_get (sm_per_user m) u)"
  proof (cases "hm_get (sm_per_user m) u")
    case None
    then show ?thesis by (simp add: m'_def sweep_expired_mem laws(3))
  next
    case (Some j)
    then obtain s where "hm_get (sm_sessions m) j = Some s"
      using manager_invD(4) [OF inv Some] by (auto simp: owner_of_def)
    then show ?thesis
      unfolding get
      by (auto simp: m'_def sweep_expired_mem laws(3) Some expired_ids_exact(2) [OF ok] simp del: not_None_eq)
  qed
qed

lemma sweep_expired_gone:
  assumes inv: "manager_inv sha256 m"
  shows "fst (sweep_expired P clk (m, d)) =
           map (\<lambda>i. (the (hm_get (sm_sessions m) i))\<lparr>s_status := Ended\<rparr>) (expired_ids clk m)"
  using sweep_ids_expired [OF inv, of "expired_ids clk m" "[]"] expired_ids_exact [OF manager_invD(1) [OF inv], where clk = clk]
  by (fastforce simp: sweep_expired_cases)

subsection \<open>A concrete manager\<close>

definition demo_sha :: "str \<Rightarrow> u8 list" where
  "demo_sha s = replicate 32 0"

definition demo_clock :: clock where
  "demo_clock = \<lparr>mono = 1000, utc = 5000\<rparr>"

definition demo_session :: session where
  "demo_session = session_new demo_sha demo_clock 7 ''alice'' None ''s1'' DEFAULT_TTL"

definition demo_manager :: session_manager where
  "demo_manager = (manager_new demo_manifest True DEFAULT_TTL)
     \<lparr>sm_sessions := [(7, demo_session)], sm_per_user := [(''alice'', 7)],
      sm_persistence_path := Some ''data/playground/sessions.json''\<rparr>"

text \<open>A toy encoder: it writes how many rows there are.\<close>

definition demo_persist :: persist_env where
  "demo_persist = \<lparr>pe_encode = \<lambda>rows. Some (show_nat (length rows)), pe_io = Persisted\<rparr>"

lemma demo_owner: "owner_of demo_manager 7 = Some ''alice''"
  by (simp add: demo_manager_def owner_of_def hm_defs demo_session_def)

lemma demo_get: "hm_get (sm_sessions demo_manager) i = (if i = 7 then Some demo_session else None)"
  by (simp add: demo_manager_def hm_defs)

lemma demo_inv: "manager_inv demo_sha demo_manager"
proof -
  have "hm_get (sm_per_user demo_manager) u = Some i \<Longrightarrow> u = ''alice'' \<and> i = 7" for u i
    by (simp add: demo_manager_def hm_defs split: if_splits)
  then show ?thesis
    using default_ttl_in_range [of DEFAULT_TTL] demo_owner
    by (auto simp: manager_inv_def demo_get demo_session_def session_ok_new)
      (simp_all add: demo_manager_def manager_new_def hm_defs)
qed

subsection \<open>Properties\<close>

text \<open>C15: Only the owner reaches a session. For an id no session has, \<open>get\<close>, \<open>update\<close>, \<open>end\<close> and
  \<open>touch_action\<close> all answer \<open>NotFound\<close>; for a session of another user they all answer
  \<open>Forbidden\<close>; in both cases manager and disk are exactly as before, whatever the closure.
  For the owner none of them gives either error.\<close>

theorem only_owner_reaches_session:
  shows "(owner_of m i \<noteq> Some u \<longrightarrow>
            get m i u = Inl (if owner_of m i = None then NotFound i else Forbidden) \<and>
            update P i u f (m, d) = (Returns (Inl (if owner_of m i = None then NotFound i else Forbidden)), (m, d)) \<and>
            end_session_of P i u (m, d) = (Inl (if owner_of m i = None then NotFound i else Forbidden), (m, d)) \<and>
            touch_action t1 t2 i u m = (Inl (if owner_of m i = None then NotFound i else Forbidden), m)) \<and>
         (owner_of m i = Some u \<longrightarrow>
            (\<exists>s. get m i u = Inr s \<and> s_user_id s = u) \<and>
            fst (end_session_of P i u (m, d)) \<notin> {Inl (NotFound i), Inl Forbidden} \<and>
            fst (touch_action t1 t2 i u m) \<notin> {Inl (NotFound i), Inl Forbidden})"
proof (cases "owner_of m i = Some u")
  case True
  then show ?thesis
    using end_guard.own [of "(m, d)" i u P] touch_guard.own [of m i u t1 t2]
    by (auto simp: owner_of_def get_def owned_cases)
next
  case False
  have "update P i u f (m, d) = (Returns (Inl (if owner_of m i = None then NotFound i else Forbidden)), (m, d))"
    using False by (auto simp: update_def owner_of_def owned_cases split: option.splits)
  then show ?thesis
    using False get_guard.refused [OF False] end_guard.refused [of "(m, d)" i u P]
      touch_guard.refused [OF False, of t1 t2] by simp
qed

theorem only_owner_reaches_session_witness:
  "owner_of demo_manager 7 = Some ''alice'' \<and> get demo_manager 7 ''eve'' = Inl Forbidden \<and>
   (\<exists>s. get demo_manager 7 ''alice'' = Inr s \<and> s_user_id s = ''alice'')"
  using only_owner_reaches_session [of demo_manager 7 "''eve''" demo_persist "\<lambda>s. (Returns (), s)" Map.empty 0 0]
    only_owner_reaches_session [of demo_manager 7 "''alice''" demo_persist "\<lambda>s. (Returns (), s)" Map.empty 0 0]
  by (simp add: demo_owner)



text \<open>The sweep takes exactly the expired. Of every session of the map, \<open>sweep_expired\<close>
  returns, marked \<open>Ended\<close> and once, exactly those that had expired when examined, and
  removes exactly these; a user's pointer goes exactly when its session goes; nothing is
  written when nothing expired; the invariant is kept.\<close>

theorem sweep_takes_exactly_expired:
  assumes inv: "manager_inv sha256 m" and run: "sweep_expired P clk (m, d) = (gone, (m', d'))"
  shows "set gone = {s\<lparr>s_status := Ended\<rparr> | s i. hm_get (sm_sessions m) i = Some s \<and> is_expired (clk i) s} \<and>
         distinct (map s_id gone) \<and>
         hm_get (sm_sessions m') i = opt_filter (\<lambda>s. \<not> is_expired (clk i) s) (hm_get (sm_sessions m) i) \<and>
         hm_get (sm_per_user m') u =
           opt_filter (\<lambda>j. hm_get (sm_sessions m') j \<noteq> None) (hm_get (sm_per_user m) u) \<and>
         (gone = [] \<longrightarrow> (m', d') = (m, d)) \<and>
         manager_inv sha256 m'"
proof -
  note ok = manager_invD(1) [OF inv]
  have m': "m' = fst (snd (sweep_expired P clk (m, d)))" using run by simp
  have gone: "gone = map (\<lambda>i. (the (hm_get (sm_sessions m) i))\<lparr>s_status := Ended\<rparr>) (expired_ids clk m)"
    using sweep_expired_gone [OF inv, of P clk d] run by simp
  note ex = expired_ids_exact [OF ok, where clk = clk]
  have "set gone = {s\<lparr>s_status := Ended\<rparr> | s i. hm_get (sm_sessions m) i = Some s \<and> is_expired (clk i) s}"
    unfolding gone by (force simp: ex(2))
  moreover have "map s_id gone = expired_ids clk m"
  proof -
    have "s_id (the (hm_get (sm_sessions m) i)) = i" if "i \<in> set (expired_ids clk m)" for i
      using that manager_invD(3) [OF inv] by (auto simp: ex(2) session_ok_def)
    then show ?thesis by (simp add: gone map_idI)
  qed
  moreover have "gone = [] \<longrightarrow> (m', d') = (m, d)"
    using run by (auto simp: gone sweep_expired_cases)
  ultimately show ?thesis
    using sweep_expired_laws [OF inv, where P = P and clk = clk and d = d] ex(1) unfolding m' by simp
qed

theorem sweep_takes_exactly_expired_witness:
  "manager_inv demo_sha demo_manager \<and>
   fst (sweep_expired demo_persist (\<lambda>_. \<lparr>mono = 1000, utc = 10 ^ 20\<rparr>) (demo_manager, Map.empty)) \<noteq> [] \<and>
   fst (sweep_expired demo_persist (\<lambda>_. demo_clock) (demo_manager, Map.empty)) = []"
proof -
  have late: "is_expired \<lparr>mono = 1000, utc = 10 ^ 20\<rparr> demo_session" and soon: "\<not> is_expired demo_clock demo_session"
    by (simp_all add: is_expired_def elapsed_def demo_session_def session_new_def demo_clock_def
        from_std_def ttl_defs)
  let ?run = "\<lambda>c. sweep_expired demo_persist (\<lambda>_. c) (demo_manager, Map.empty)"
  have split: "?run c = (fst (?run c), (fst (snd (?run c)), snd (snd (?run c))))" for c by simp
  note sweep = sweep_takes_exactly_expired [OF demo_inv split, THEN conjunct1]
  have "set (fst (?run \<lparr>mono = 1000, utc = 10 ^ 20\<rparr>)) \<noteq> {}" "set (fst (?run demo_clock)) = {}"
    unfolding sweep using late soon by (auto simp: demo_get)
  then show ?thesis using demo_inv by simp
qed

text \<open>Ending is exact. The owner's \<open>end\<close> returns the session marked \<open>Ended\<close>, its id is gone
  from the map, every other session stays, the pointer of its user goes exactly when it
  led to this session, and the invariant is kept; a second \<open>end\<close> answers \<open>NotFound\<close>.\<close>

theorem end_removes_exactly:
  assumes inv: "manager_inv sha256 m" and s: "hm_get (sm_sessions m) i = Some s"
    and run: "end_session_of P i (s_user_id s) (m, d) = (r, (m', d'))"
  shows "r = Inr (s\<lparr>s_status := Ended\<rparr>) \<and>
         hm_get (sm_sessions m') = (hm_get (sm_sessions m))(i := None) \<and>
         hm_get (sm_per_user m') u = opt_filter (\<lambda>j. j \<noteq> i) (hm_get (sm_per_user m) u) \<and>
         manager_inv sha256 m' \<and>
         end_session_of P i (s_user_id s) (m', d') = (Inl (NotFound i), (m', d'))"
proof -
  have own: "owned m i (s_user_id s) = Inr s" using s by (simp add: result_simps)
  have m': "m' = drop_session i s m" and r: "r = Inr (s\<lparr>s_status := Ended\<rparr>)"
    using run by (auto simp: end_session_of_def own Let_def drop_session_def persist_def split: option.splits)
  have "hm_get (sm_sessions m') i = None"
    unfolding m' drop_session_get(1) [OF inv s] by simp
  then have "end_session_of P i (s_user_id s) (m', d') = (Inl (NotFound i), (m', d'))"
    by (simp add: end_session_of_def owned_cases)
  then show ?thesis
    using r drop_session_get [OF inv s] manager_inv_drop_session [OF inv s] unfolding m' by simp
qed

theorem end_removes_exactly_witness:
  "manager_inv demo_sha demo_manager \<and> hm_get (sm_sessions demo_manager) 7 = Some demo_session \<and>
   fst (end_session_of demo_persist 7 (s_user_id demo_session) (demo_manager, Map.empty)) =
     Inr (demo_session\<lparr>s_status := Ended\<rparr>)"
proof -
  have s: "hm_get (sm_sessions demo_manager) 7 = Some demo_session" by (simp add: demo_get)
  let ?run = "end_session_of demo_persist 7 (s_user_id demo_session) (demo_manager, Map.empty)"
  have "?run = (fst ?run, (fst (snd ?run), snd (snd ?run)))" by simp
  from end_removes_exactly [OF demo_inv s this] show ?thesis using s demo_inv by blast
qed

lemma record_of_log:
  "s_events (record_of e s) = drop (Suc (length (s_events s)) - MAX_EVENTS) (s_events s @ [e])"
  by (cases e) (simp add: record_event_log)

lemma record_fold:
  "length (s_events s) \<le> MAX_EVENTS \<Longrightarrow>
     s_events (fold record_of es s) = drop (length (s_events s @ es) - MAX_EVENTS) (s_events s @ es)"
proof (induction es arbitrary: s rule: rev_induct)
  case Nil
  then show ?case by simp
next
  case (snoc e es)
  have "s_events (fold record_of (es @ [e]) s) =
      drop (Suc (length (s_events (fold record_of es s))) - MAX_EVENTS) (s_events (fold record_of es s) @ [e])"
    by (simp only: fold_append fold_simps o_apply record_of_log)
  also have "\<dots> = drop (Suc (length (s_events s @ es)) - MAX_EVENTS) ((s_events s @ es) @ [e])"
    unfolding snoc.IH [OF snoc.prems] by (rule drop_window)
  finally show ?case by simp
qed

text \<open>The event log is the last 500 events. Whatever sequence of events is recorded in a
  session, its log is the last 500 entries, in order, of the old log followed by the
  sequence; nothing else of the row changes.\<close>

theorem event_log_keeps_last_500:
  assumes "length (s_events s) \<le> MAX_EVENTS"
  shows "s_events (fold record_of es s) = drop (length (s_events s @ es) - 500) (s_events s @ es) \<and>
         length (s_events (fold record_of es s)) = min 500 (length (s_events s @ es)) \<and>
         fold record_of es s = s\<lparr>s_events := s_events (fold record_of es s)\<rparr>"
proof -
  have "fold record_of es s = s\<lparr>s_events := s_events (fold record_of es s)\<rparr>"
  proof (induction es rule: rev_induct)
    case Nil
    then show ?case by simp
  next
    case (snoc e es)
    let ?t = "fold record_of es s"
    have "record_of e ?t = ?t\<lparr>s_events := s_events (record_of e ?t)\<rparr>"
      by (simp add: record_event_def Let_def)
    also have "\<dots> = s\<lparr>s_events := s_events (record_of e ?t)\<rparr>"
      by (subst snoc.IH) simp
    finally show ?case by simp
  qed
  then show ?thesis using record_fold [OF assms, of es] by (simp add: MAX_EVENTS_def)
qed

theorem event_log_keeps_last_500_witness:
  "length (s_events demo_session) \<le> MAX_EVENTS \<and>
   length (s_events (fold record_of
     (replicate 501 \<lparr>ev_at = 0, ev_kind = ''k'', ev_message = [], ev_action_id = None, ev_success = None\<rparr>)
     demo_session)) = 500"
  using event_log_keeps_last_500 [of demo_session
    "replicate 501 \<lparr>ev_at = 0, ev_kind = ''k'', ev_message = [], ev_action_id = None, ev_success = None\<rparr>"]
  by (simp add: demo_session_def MAX_EVENTS_def)


subsection \<open>Extending a session\<close>

definition remaining :: "clock \<Rightarrow> session \<Rightarrow> duration" where
  "remaining c s = s_ttl s - elapsed (mono c) (s_created_monotonic s)"

definition extended :: "clock \<Rightarrow> duration \<Rightarrow> session \<Rightarrow> session" where
  "extended c tot s =
     s\<lparr>s_ttl := elapsed (mono c) (s_created_monotonic s) + tot, s_expires_at := utc c + int tot\<rparr>"

lemma extend_cases:
  "session_extend c1 c2 extra s =
     (let tot = remaining c1 s + extra
      in if tot > DURATION_MAX then Panics
         else if tot > MAX_TTL then Returns (Inl ''extension would exceed max TTL'', s)
         else if elapsed (mono c2) (s_created_monotonic s) + tot > DURATION_MAX then Panics
         else Returns (Inr (), extended c2 tot s))"
  by (simp add: session_extend_def duration_add_def remaining_def extended_def Let_def from_std_max_ttl)

lemma extended_deadlines:
  "remaining c (extended c tot s) = tot"
  "is_expired c (extended c tot s) \<longleftrightarrow> tot = 0"
  by (auto simp: remaining_def extended_def is_expired_def)

lemma session_ok_extended: "session_ok sha256 i s \<Longrightarrow> session_ok sha256 i (extended c tot s)"
  by (simp add: session_ok_def extended_def)

text \<open>C33: Extending is exact and never passes eight hours. With \<open>tot\<close> the time left plus the
  time asked for: a tot over eight hours is refused and the session is unchanged;
  otherwise the session has exactly \<open>tot\<close> left on both clocks from then on (so at most
  eight hours), and only its lifetime and its deadline change. The call panics exactly
  when an addition of durations overflows.\<close>

theorem extend_within_max_ttl:
  shows "(session_extend c1 c2 extra s = Panics \<longleftrightarrow>
            remaining c1 s + extra > DURATION_MAX \<or>
            (remaining c1 s + extra \<le> MAX_TTL \<and>
             elapsed (mono c2) (s_created_monotonic s) + remaining c1 s + extra > DURATION_MAX)) \<and>
         (remaining c1 s + extra > MAX_TTL \<and> remaining c1 s + extra \<le> DURATION_MAX \<longrightarrow>
            session_extend c1 c2 extra s = Returns (Inl ''extension would exceed max TTL'', s)) \<and>
         (session_extend c1 c2 extra s = Returns (Inr (), s') \<longrightarrow>
            remaining c2 s' = remaining c1 s + extra \<and> remaining c2 s' \<le> MAX_TTL \<and>
            s_expires_at s' = utc c2 + int (remaining c2 s') \<and>
            (is_expired c2 s' \<longleftrightarrow> remaining c1 s + extra = 0) \<and>
            s' = s\<lparr>s_ttl := s_ttl s', s_expires_at := s_expires_at s'\<rparr>)"
proof -
  have *: "MAX_TTL \<le> DURATION_MAX" by (simp add: ttl_defs)
  moreover have "remaining c2 s' = remaining c1 s + extra \<and> remaining c2 s' \<le> MAX_TTL \<and>
      s_expires_at s' = utc c2 + int (remaining c2 s') \<and>
      (is_expired c2 s' \<longleftrightarrow> remaining c1 s + extra = 0) \<and>
      s' = s\<lparr>s_ttl := s_ttl s', s_expires_at := s_expires_at s'\<rparr>"
    if ok: "session_extend c1 c2 extra s = Returns (Inr (), s')"
  proof -
    from ok have "s' = extended c2 (remaining c1 s + extra) s" and le: "remaining c1 s + extra \<le> MAX_TTL"
      by (auto simp: extend_cases Let_def split: if_splits)
    then show ?thesis using extended_deadlines [of c2 "remaining c1 s + extra" s]
      by (simp add: extended_def)
  qed
  ultimately show ?thesis
    by (auto simp: extend_cases Let_def add.assoc)
qed

theorem extend_within_max_ttl_witness:
  "session_extend demo_clock demo_clock (from_secs 60) demo_session =
     Returns (Inr (), extended demo_clock (from_secs 7260) demo_session) \<and>
   remaining demo_clock (extended demo_clock (from_secs 7260) demo_session) \<le> MAX_TTL"
proof -
  have "session_extend demo_clock demo_clock (from_secs 60) demo_session =
     Returns (Inr (), extended demo_clock (from_secs 7260) demo_session)"
    by (simp add: extend_cases remaining_def demo_session_def demo_clock_def elapsed_def ttl_defs)
  with extend_within_max_ttl [of demo_clock demo_clock "from_secs 60" demo_session
      "extended demo_clock (from_secs 7260) demo_session"]
  show ?thesis by simp
qed

text \<open>A request can crash the extension. The seconds of a request are any 64-bit number; with
  the largest one, \<open>extend\<close> panics on every session that has at least a second left,
  although every such request should be refused with the error for the maximal lifetime.\<close>

theorem extend_panics_on_largest_request:
  assumes "from_secs 1 \<le> remaining c1 s"
  shows "session_extend c1 c2 (from_secs (unat (- 1 :: u64))) s = Panics"
proof -
  have "unat (- 1 :: u64) = 2 ^ 64 - 1" by (simp add: unsigned_minus_1_eq_mask mask_eq_exp_minus_1)
  then show ?thesis using assms by (simp add: extend_cases Let_def DURATION_MAX_def)
qed

theorem extend_panics_on_largest_request_witness:
  "from_secs 1 \<le> remaining demo_clock demo_session \<and>
   session_extend demo_clock demo_clock (from_secs (unat (- 1 :: u64))) demo_session = Panics"
proof -
  have "from_secs 1 \<le> remaining demo_clock demo_session"
    by (simp add: remaining_def demo_session_def demo_clock_def elapsed_def ttl_defs)
  then show ?thesis using extend_panics_on_largest_request by blast
qed

subsection \<open>The action cooldown\<close>

fun touch_run :: "uuid \<Rightarrow> str \<Rightarrow> session_manager \<Rightarrow> (instant \<times> instant) list \<Rightarrow> (instant \<times> instant) list" where
  "touch_run i u m [] = []"
| "touch_run i u m ((t1, t2) # ts) =
     (case touch_action t1 t2 i u m of
        (Inl e, m') \<Rightarrow> touch_run i u m' ts
      | (Inr x, m') \<Rightarrow> (t1, t2) # touch_run i u m' ts)"

definition last_touch :: "session_manager \<Rightarrow> uuid \<Rightarrow> instant option" where
  "last_touch m i = Option.bind (hm_get (sm_sessions m) i) s_last_action_at"

definition cooled :: "instant option \<Rightarrow> instant \<Rightarrow> bool" where
  "cooled prev t = (case prev of None \<Rightarrow> True | Some p \<Rightarrow> ACTION_COOLDOWN \<le> t - p)"

lemma touch_action_owner:
  assumes "hm_ok (sm_sessions m)" and "owner_of m i = Some u"
  shows "fst (touch_action t1 t2 i u m) =
           (if cooled (last_touch m i) t1 then Inr ()
            else Inl (Cooldown (ACTION_COOLDOWN - (t1 - the (last_touch m i)))))"
    and "last_touch (snd (touch_action t1 t2 i u m)) i =
           (if cooled (last_touch m i) t1 then Some t2 else last_touch m i)"
    and "hm_ok (sm_sessions (snd (touch_action t1 t2 i u m)))"
    and "owner_of (snd (touch_action t1 t2 i u m)) i = Some u"
  using assms
  by (auto simp: touch_action_def owner_of_def owned_cases cooled_def last_touch_def elapsed_def Let_def
      split: option.splits)

lemma touch_run_spaced:
  assumes "hm_ok (sm_sessions m)" and "owner_of m i = Some u"
  shows "successively (\<lambda>a b. ACTION_COOLDOWN \<le> fst b - snd a) (touch_run i u m ts) \<and>
         (\<forall>a \<in> set (take 1 (touch_run i u m ts)). cooled (last_touch m i) (fst a))"
  using assms
proof (induction ts arbitrary: m)
  case Nil
  then show ?case by simp
next
  case (Cons t ts)
  obtain t1 t2 where t: "t = (t1, t2)" by force
  let ?m = "snd (touch_action t1 t2 i u m)"
  note laws = touch_action_owner [OF Cons.prems, of t1 t2]
  note IH = Cons.IH [OF laws(3,4)]
  show ?case
  proof (cases "cooled (last_touch m i) t1")
    case False
    then show ?thesis
      using IH laws(1,2) by (cases "touch_action t1 t2 i u m") (auto simp: t)
  next
    case True
    then show ?thesis
      using IH laws(1,2)
      by (cases "touch_action t1 t2 i u m"; cases "touch_run i u ?m ts") (auto simp: t cooled_def)
  qed
qed

text \<open>The cooldown holds over any run. Of any sequence of \<open>touch_action\<close> calls by the owner, two
  successive accepted ones are at least a second apart (from the stamp of the first to the
  check of the second); each single call is accepted exactly when no stamp is younger
  than a second, and a refused one is told the time that is left and stamps nothing.\<close>

theorem cooldown_spaces_actions:
  assumes "hm_ok (sm_sessions m)" and "owner_of m i = Some u"
  shows "successively (\<lambda>a b. ACTION_COOLDOWN \<le> fst b - snd a) (touch_run i u m ts) \<and>
         fst (touch_action t1 t2 i u m) =
           (if cooled (last_touch m i) t1 then Inr ()
            else Inl (Cooldown (ACTION_COOLDOWN - (t1 - the (last_touch m i))))) \<and>
         last_touch (snd (touch_action t1 t2 i u m)) i =
           (if cooled (last_touch m i) t1 then Some t2 else last_touch m i)"
  using touch_run_spaced [OF assms, of ts] touch_action_owner(1,2) [OF assms, of t1 t2] by blast

theorem cooldown_spaces_actions_witness:
  "hm_ok (sm_sessions demo_manager) \<and> owner_of demo_manager 7 = Some ''alice'' \<and>
   fst (touch_action 5 6 7 ''alice'' demo_manager) = Inr () \<and>
   last_touch (snd (touch_action 5 6 7 ''alice'' demo_manager)) 7 = Some 6 \<and>
   successively (\<lambda>a b. ACTION_COOLDOWN \<le> fst b - snd a) (touch_run 7 ''alice'' demo_manager [(5, 6), (7, 8)])"
proof -
  have "last_touch demo_manager 7 = None"
    by (simp add: last_touch_def demo_get demo_session_def)
  then show ?thesis
    using cooldown_spaces_actions [OF manager_invD(1) [OF demo_inv] demo_owner, of "[(5, 6), (7, 8)]" 5 6]
      demo_owner manager_invD(1) [OF demo_inv]
    by (simp add: cooled_def)
qed

end
