(* ===== verification/Session_Machine.thy ===== *)
theory Session_Machine
  imports Session_Laws
begin

text \<open>
  The session manager as a state machine: a configuration is the store and the time of the
  last step, a step is one locked operation (the clocks never go back, the id drawn is
  fresh, the file operations of its \<open>persist\<close> end in any way). Reachability gives the
  invariant of the manager in every interleaving of the operations, and the promise of
  \<open>create\<close>, one live session per user, as long as nobody extends a session that has
  already expired; \<open>extend\<close> does not check that, and the last theorem shows what follows.
\<close>

subsection \<open>Steps\<close>

definition clk_le :: "clock \<Rightarrow> clock \<Rightarrow> bool" where
  "clk_le c c' \<longleftrightarrow> mono c \<le> mono c' \<and> utc c \<le> utc c'"

lemma clk_le_refl [simp]: "clk_le c c"
  by (simp add: clk_le_def)

lemma clk_le_trans [trans]: "clk_le a b \<Longrightarrow> clk_le b c \<Longrightarrow> clk_le a c"
  by (simp add: clk_le_def)

lemma expired_stays: "is_expired c s \<Longrightarrow> clk_le c c' \<Longrightarrow> is_expired c' s"
  by (auto simp: is_expired_def clk_le_def elapsed_def)

text \<open>The closures the handlers pass to \<open>update\<close>: those that log and set the status, and \<open>extend\<close>.\<close>

definition notes_only :: "(session \<Rightarrow> unit outcome \<times> session) \<Rightarrow> bool" where
  "notes_only f \<longleftrightarrow>
     (\<forall>s. snd (f s) = s\<lparr>s_status := s_status (snd (f s)), s_events := s_events (snd (f s))\<rparr> \<and>
          (s_status s \<noteq> Ended \<longrightarrow> s_status (snd (f s)) \<noteq> Ended) \<and>
          (length (s_events s) \<le> MAX_EVENTS \<longrightarrow> length (s_events (snd (f s))) \<le> MAX_EVENTS))"

definition extend_closure ::
    "clock \<Rightarrow> clock \<Rightarrow> duration \<Rightarrow> session \<Rightarrow> (str, unit) result outcome \<times> session" where
  "extend_closure c1 c2 extra s =
     (case session_extend c1 c2 extra s of
        Panics \<Rightarrow> (Panics, s)
      | Returns (r, s') \<Rightarrow> (Returns r, s'))"

type_synonym mgr_config = "store \<times> clock"

text \<open>With the flag \<open>careful\<close> a session is extended only while it is live.\<close>

inductive mgr_step :: "(str \<Rightarrow> u8 list) \<Rightarrow> bool \<Rightarrow> mgr_config \<Rightarrow> mgr_config \<Rightarrow> bool"
  for sha256 careful where
  tick: "clk_le c c' \<Longrightarrow> mgr_step sha256 careful (st, c) (st, c')"
| created: "owner_of (fst st) i = None \<Longrightarrow> clk_le c c1 \<Longrightarrow> clk_le c1 c2 \<Longrightarrow>
    create sha256 P c1 c2 i u t sc ttl st = (r, st') \<Longrightarrow> mgr_step sha256 careful (st, c) (st', c2)"
| noted: "notes_only f \<Longrightarrow> update P i u f st = (r, st') \<Longrightarrow> mgr_step sha256 careful (st, c) (st', c)"
| prolonged: "clk_le c c1 \<Longrightarrow> clk_le c1 c2 \<Longrightarrow>
    (careful \<Longrightarrow> \<forall>s. hm_get (sm_sessions (fst st)) i = Some s \<longrightarrow> \<not> is_expired c1 s) \<Longrightarrow>
    update P i u (extend_closure c1 c2 extra) st = (r, st') \<Longrightarrow> mgr_step sha256 careful (st, c) (st', c2)"
| ended: "end_session_of P i u st = (r, st') \<Longrightarrow> mgr_step sha256 careful (st, c) (st', c)"
| touched: "touch_action t1 t2 i u m = (r, m') \<Longrightarrow> mgr_step sha256 careful ((m, d), c) ((m', d), c)"
| swept: "(\<And>i. clk_le c (clk i) \<and> clk_le (clk i) c') \<Longrightarrow> sweep_expired P clk st = (gone, st') \<Longrightarrow>
    mgr_step sha256 careful (st, c) (st', c')"

inductive_cases mgr_stepE: "mgr_step sha256 careful a b"

inductive mgr_reach ::
    "(str \<Rightarrow> u8 list) \<Rightarrow> bool \<Rightarrow> manifest \<Rightarrow> bool \<Rightarrow> duration \<Rightarrow> str option \<Rightarrow> mgr_config \<Rightarrow> bool"
  for sha256 careful mf en ttl path where
  boot: "mgr_reach sha256 careful mf en ttl path
           (((manager_new mf en ttl)\<lparr>sm_persistence_path := path\<rparr>, d), c)"
| more: "mgr_reach sha256 careful mf en ttl path a \<Longrightarrow> mgr_step sha256 careful a b \<Longrightarrow>
         mgr_reach sha256 careful mf en ttl path b"

subsection \<open>Invariants\<close>

lemma notes_only_ok:
  assumes "notes_only f" and "session_ok sha256 i s"
  shows "session_ok sha256 i (snd (f s))" and "s_user_id (snd (f s)) = s_user_id s"
    and "is_expired c (snd (f s)) \<longleftrightarrow> is_expired c s"
proof -
  from assms(1) have eq: "snd (f s) = s\<lparr>s_status := s_status (snd (f s)), s_events := s_events (snd (f s))\<rparr>"
    and st: "s_status s \<noteq> Ended \<Longrightarrow> s_status (snd (f s)) \<noteq> Ended"
    and ev: "length (s_events s) \<le> MAX_EVENTS \<Longrightarrow> length (s_events (snd (f s))) \<le> MAX_EVENTS"
    unfolding notes_only_def by blast+
  show "session_ok sha256 i (snd (f s))"
    using assms(2) st ev by (subst eq) (simp add: session_ok_def)
  show "s_user_id (snd (f s)) = s_user_id s" by (subst eq) simp
  show "is_expired c (snd (f s)) \<longleftrightarrow> is_expired c s" by (subst eq) (simp add: is_expired_def)
qed

lemma extend_closure_ok:
  assumes "session_ok sha256 i s"
  shows "session_ok sha256 i (snd (extend_closure c1 c2 extra s))"
    and "s_user_id (snd (extend_closure c1 c2 extra s)) = s_user_id s"
  using assms session_ok_extended [OF assms]
  by (auto simp: extend_closure_def extend_cases Let_def) (simp add: extended_def)

lemma manager_inv_step:
  assumes "mgr_step sha256 careful (st, c) (st', c')" and inv: "manager_inv sha256 (fst st)"
  shows "manager_inv sha256 (fst st')"
  using assms(1)
proof (cases rule: mgr_step.cases)
  case (created i c1 P u t sc ttl r)
  then show ?thesis
    using manager_inv_create [OF inv, of i P c1 c' u t sc ttl "snd st"] by simp
next
  case (noted f P i u r)
  then show ?thesis
    using manager_inv_update [OF inv, of i u f P "snd st"] notes_only_ok by fastforce
next
  case (prolonged c1 i P u extra r)
  then show ?thesis
    using manager_inv_update [OF inv, of i u "extend_closure c1 c' extra" P "snd st"] extend_closure_ok
    by fastforce
next
  case (ended P i u r)
  then show ?thesis using manager_inv_end [OF inv, of P i u "snd st"] by simp
next
  case (touched t1 t2 i u m r m' d)
  then show ?thesis using manager_inv_touch [of sha256 m t1 t2 i u] inv by simp
next
  case (swept clk P gone)
  then show ?thesis
    using sweep_expired_laws(1) [OF inv, of P clk "snd st"] by simp
qed (simp_all add: inv)

definition one_live :: "clock \<Rightarrow> session_manager \<Rightarrow> bool" where
  "one_live c m \<longleftrightarrow>
     (\<forall>i s. hm_get (sm_sessions m) i = Some s \<and> \<not> is_expired c s \<longrightarrow>
        hm_get (sm_per_user m) (s_user_id s) = Some i)"

lemma one_liveD:
  "one_live c m \<Longrightarrow> hm_get (sm_sessions m) i = Some s \<Longrightarrow> \<not> is_expired c s \<Longrightarrow>
     hm_get (sm_per_user m) (s_user_id s) = Some i"
  by (simp add: one_live_def)

lemma one_live_later: "one_live c m \<Longrightarrow> clk_le c c' \<Longrightarrow> one_live c' m"
  using expired_stays by (fastforce simp: one_live_def)

lemma one_live_update:
  assumes inv: "manager_inv sha256 m" and one: "one_live c m"
    and run: "update P i u f (m, d) = (r, st')"
    and f: "\<And>s. hm_get (sm_sessions m) i = Some s \<Longrightarrow> s_user_id (snd (f s)) = s_user_id s \<and>
              (\<not> is_expired c (snd (f s)) \<longrightarrow> hm_get (sm_per_user m) (s_user_id s) = Some i)"
  shows "one_live c (fst st')"
proof (cases "owned m i u")
  case (Inl e)
  then show ?thesis using run one by (auto simp: update_def)
next
  case (Inr s)
  then have s: "hm_get (sm_sessions m) i = Some s" by (simp add: result_simps)
  have "fst st' = m\<lparr>sm_sessions := hm_insert i (snd (f s)) (sm_sessions m)\<rparr>"
    using run Inr by (auto simp: update_def Let_def split: prod.splits outcome.splits)
  then show ?thesis
    using f [OF s] one manager_invD(1) [OF inv] by (auto simp: one_live_def)
qed

lemma one_live_drop:
  assumes inv: "manager_inv sha256 m" and s: "hm_get (sm_sessions m) i = Some s" and one: "one_live c m"
  shows "one_live c (drop_session i s m)"
  using one unfolding one_live_def drop_session_get [OF inv s] by (auto simp: result_simps)

lemma one_live_create:
  assumes inv: "manager_inv sha256 m" and one: "one_live c1 m" and "clk_le c1 c2"
    and run: "create sha256 P c1 c2 i u t sc ttl (m, d) = (r, st')"
  shows "one_live c2 (fst st')"
proof (cases r)
  case (Inl e)
  then show ?thesis
    using run one one_live_later [OF one assms(3)]
    by (auto simp: create_cases Let_def split: option.splits if_splits)
next
  case (Inr s)
  from run Inr have s: "s_id s = i" "s_user_id s = u" and free: "holds_live c1 m u = None"
    and st: "fst st' = create_state m s"
    by (auto simp: create_cases Let_def split: option.splits if_splits)
  note [simp] = manager_invD(1,2) [OF inv]
  have "hm_get (sm_per_user m) (s_user_id x) = Some k \<and> s_user_id x \<noteq> u"
    if x: "hm_get (sm_sessions m) k = Some x" "\<not> is_expired c2 x" for k x
  proof -
    from x(2) have live: "\<not> is_expired c1 x" using expired_stays assms(3) by blast
    then have ptr: "hm_get (sm_per_user m) (s_user_id x) = Some k" using one_liveD [OF one x(1)] by blast
    moreover have "s_status x \<noteq> Ended" using manager_invD(3) [OF inv x(1)] by (simp add: session_ok_def)
    ultimately have "holds_live c1 m (s_user_id x) = Some k" using x(1) live by (simp add: holds_live_def)
    with free ptr show ?thesis by auto
  qed
  then show ?thesis
    using s unfolding st one_live_def create_state_def by (auto split: if_splits)
qed

lemma one_live_step:
  assumes "mgr_step sha256 True (st, c) (st', c')" and inv: "manager_inv sha256 (fst st)"
    and one: "one_live c (fst st)"
  shows "one_live c' (fst st')"
  using assms(1)
proof (cases rule: mgr_step.cases)
  case tick
  then show ?thesis using one_live_later [OF one] by simp
next
  case (created i c1 P u t sc ttl r)
  then show ?thesis
    using one_live_create [OF inv one_live_later [OF one], of c1 c' P i u t sc ttl "snd st"] by simp
next
  case (noted f P i u r)
  have "s_user_id (snd (f s)) = s_user_id s \<and>
      (\<not> is_expired c (snd (f s)) \<longrightarrow> hm_get (sm_per_user (fst st)) (s_user_id s) = Some i)"
    if s: "hm_get (sm_sessions (fst st)) i = Some s" for s
    using notes_only_ok [OF noted(2) manager_invD(3) [OF inv s]] one_liveD [OF one s] by blast
  then show ?thesis
    using one_live_update [OF inv one, of P i u f "snd st" r st'] noted by simp
next
  case (prolonged c1 i P u extra r)
  have later: "clk_le c c'" using prolonged(1,2) by (rule clk_le_trans)
  have "s_user_id (snd (extend_closure c1 c' extra s)) = s_user_id s \<and>
      (\<not> is_expired c' (snd (extend_closure c1 c' extra s)) \<longrightarrow>
         hm_get (sm_per_user (fst st)) (s_user_id s) = Some i)"
    if s: "hm_get (sm_sessions (fst st)) i = Some s" for s
  proof -
    have "\<not> is_expired c s" using prolonged(1,3) s expired_stays by blast
    then show ?thesis
      using extend_closure_ok(2) [OF manager_invD(3) [OF inv s]] one_liveD [OF one s] by blast
  qed
  then show ?thesis
    using one_live_update [OF inv one_live_later [OF one later], of P i u "extend_closure c1 c' extra" "snd st" r st']
      prolonged by simp
next
  case (ended P i u r)
  show ?thesis
  proof (cases "owned (fst st) i u")
    case (Inl e)
    then show ?thesis using ended one by (cases st) (auto simp: end_session_of_def)
  next
    case (Inr s)
    then have s: "hm_get (sm_sessions (fst st)) i = Some s" by (simp add: result_simps)
    have "fst st' = drop_session i s (fst st)"
      using ended Inr by (cases st) (auto simp: end_session_of_def Let_def drop_session_def)
    then show ?thesis using one_live_drop [OF inv s one] ended by simp
  qed
next
  case (touched t1 t2 i u m r m' d)
  then show ?thesis
    using one manager_invD(1) [OF inv]
    by (auto simp: touch_action_def owned_cases one_live_def is_expired_def Let_def split: option.splits if_splits)
next
  case (swept clk P gone)
  then have later: "clk_le c c'" using clk_le_trans by blast
  note laws = sweep_expired_laws [OF inv, where P = P and clk = clk and d = "snd st"]
  have st': "fst st' = fst (snd (sweep_expired P clk (fst st, snd st)))" using swept(2) by simp
  show ?thesis
    using one_liveD [OF one_live_later [OF one later]] laws(2,3)
    unfolding one_live_def st' by (auto simp: result_simps)
qed

lemma reach_inv:
  "mgr_reach sha256 careful mf en ttl path a \<Longrightarrow> manager_inv sha256 (fst (fst a))"
proof (induction rule: mgr_reach.induct)
  case (boot d c)
  then show ?case by (simp add: manager_inv_def manager_new_def default_ttl_in_range)
next
  case (more a b)
  then show ?case
    by (cases a; cases b) (auto dest: manager_inv_step)
qed

lemma reach_one_live:
  "mgr_reach sha256 True mf en ttl path a \<Longrightarrow> one_live (snd a) (fst (fst a))"
proof (induction rule: mgr_reach.induct)
  case (boot d c)
  then show ?case by (simp add: one_live_def manager_new_def)
next
  case (more a b)
  then show ?case
    using one_live_step [of sha256 "fst a" "snd a" "fst b" "snd b"] reach_inv [OF more.hyps(1)] by simp
qed

subsection \<open>Properties\<close>

text \<open>C1: In every reachable state of the manager, over every interleaving of \<open>create\<close>, \<open>update\<close>
  (logging, status changes, extension), \<open>end\<close>, \<open>touch_action\<close> and \<open>sweep_expired\<close> and
  whatever their file operations do, the maps are consistent: each session is stored under
  its own id, is not \<open>Ended\<close>, has at most 500 events and owns the namespace, shuttle and
  connection name derived from its user and id, and each user pointer leads to a session of
  that user, which is what \<open>get_user_session\<close> then returns.\<close>

theorem reachable_manager_consistent:
  assumes "mgr_reach sha256 careful mf en ttl path ((m, d), c)"
  shows "(hm_get (sm_sessions m) i = Some s \<longrightarrow>
            s_id s = i \<and> s_status s \<noteq> Ended \<and> length (s_events s) \<le> 500 \<and>
            s_namespace s = derive_namespace sha256 (s_user_id s) i \<and>
            s_shuttle_name s = derive_shuttle_name sha256 (s_user_id s) i \<and>
            s_connection_name s = derive_connection_name sha256 (s_user_id s) i) \<and>
         (hm_get (sm_per_user m) u = Some j \<longrightarrow>
            (\<exists>t. get_user_session m m u = Some t \<and> s_id t = j \<and> s_user_id t = u))"
proof -
  have inv: "manager_inv sha256 m" using reach_inv [OF assms] by simp
  have "\<exists>t. get_user_session m m u = Some t \<and> s_id t = j \<and> s_user_id t = u"
    if ptr: "hm_get (sm_per_user m) u = Some j"
  proof -
    obtain t where "hm_get (sm_sessions m) j = Some t" "s_user_id t = u"
      using manager_invD(4) [OF inv ptr] by (auto simp: owner_of_def)
    then show ?thesis
      using manager_invD(3) [OF inv, of j t] by (simp add: get_user_session_def ptr session_ok_def)
  qed
  then show ?thesis
    using manager_invD(3) [OF inv, of i s] by (auto simp: session_ok_def MAX_EVENTS_def)
qed

lemma demo_reach:
  "mgr_reach demo_sha careful demo_manifest True DEFAULT_TTL None
     (snd (create demo_sha demo_persist demo_clock demo_clock 7 ''alice'' None ''s1'' None
        (manager_new demo_manifest True DEFAULT_TTL, Map.empty)), demo_clock)"
proof -
  let ?m = "manager_new demo_manifest True DEFAULT_TTL"
  let ?run = "create demo_sha demo_persist demo_clock demo_clock 7 ''alice'' None ''s1'' None (?m, Map.empty)"
  have path: "?m\<lparr>sm_persistence_path := None\<rparr> = ?m" by (simp add: manager_new_def)
  have "owner_of (fst (?m, Map.empty)) 7 = None" by (simp add: owner_of_def manager_new_def)
  moreover have "?run = (fst ?run, snd ?run)" by simp
  ultimately have "mgr_step demo_sha careful ((?m, Map.empty), demo_clock) (snd ?run, demo_clock)"
    using mgr_step.created clk_le_refl by blast
  then show ?thesis
    using mgr_reach.more mgr_reach.boot [of demo_sha careful demo_manifest True DEFAULT_TTL None Map.empty demo_clock]
    unfolding path by blast
qed

definition demo_after_create :: session_manager where
  "demo_after_create = demo_manager\<lparr>sm_persistence_path := None\<rparr>"

lemma demo_created:
  "snd (create demo_sha demo_persist demo_clock demo_clock 7 ''alice'' None ''s1'' None
     (manager_new demo_manifest True DEFAULT_TTL, Map.empty)) = (demo_after_create, Map.empty)"
proof -
  have "mf_scenario demo_manifest ''s1'' = Some demo_scenario"
    by (simp add: mf_scenario_def demo_manifest_def demo_scenario_def)
  moreover have "unwrap_or (clamp_ttl DEFAULT_TTL) DEFAULT_TTL = DEFAULT_TTL"
    by (simp add: clamp_ttl_def ttl_defs)
  ultimately show ?thesis
    by (simp add: create_cases manager_new_def holds_live_def ttl_accepted_def ttl_choice_def Let_def
        create_state_def persist_def demo_after_create_def demo_manager_def demo_session_def hm_defs)
qed

theorem reachable_manager_consistent_witness:
  "mgr_reach demo_sha False demo_manifest True DEFAULT_TTL None ((demo_after_create, Map.empty), demo_clock) \<and>
   hm_get (sm_per_user demo_after_create) ''alice'' = Some 7 \<and>
   (\<exists>t. get_user_session demo_after_create demo_after_create ''alice'' = Some t \<and> s_id t = 7)"
proof -
  have reach: "mgr_reach demo_sha False demo_manifest True DEFAULT_TTL None
      ((demo_after_create, Map.empty), demo_clock)"
    using demo_reach [of False] unfolding demo_created .
  have "hm_get (sm_per_user demo_after_create) ''alice'' = Some 7"
    by (simp add: demo_after_create_def demo_manager_def hm_defs)
  then show ?thesis using reachable_manager_consistent [OF reach, of 7 demo_session "''alice''" 7] reach by blast
qed

text \<open>One live session per user. In every run in which clocks do not go back and a session is only
  extended while it is live, at every moment two sessions of the same user that have not
  expired are the same session, and it is the one the user's pointer leads to.\<close>

theorem one_live_session_per_user:
  assumes "mgr_reach sha256 True mf en ttl path ((m, d), c)"
    and "hm_get (sm_sessions m) i = Some s" and "\<not> is_expired c s"
    and "hm_get (sm_sessions m) j = Some t" and "\<not> is_expired c t"
    and "s_user_id s = s_user_id t"
  shows "i = j \<and> hm_get (sm_per_user m) (s_user_id s) = Some i"
proof -
  have one: "one_live c m" using reach_one_live [OF assms(1)] by simp
  show ?thesis
    using one_liveD [OF one assms(2,3)] one_liveD [OF one assms(4,5)] assms(6) by simp
qed

theorem one_live_session_per_user_witness:
  "mgr_reach demo_sha True demo_manifest True DEFAULT_TTL None ((demo_after_create, Map.empty), demo_clock) \<and>
   hm_get (sm_sessions demo_after_create) 7 = Some demo_session \<and> \<not> is_expired demo_clock demo_session \<and>
   hm_get (sm_per_user demo_after_create) (s_user_id demo_session) = Some 7"
proof -
  have reach: "mgr_reach demo_sha True demo_manifest True DEFAULT_TTL None
      ((demo_after_create, Map.empty), demo_clock)"
    using demo_reach [of True] unfolding demo_created .
  have s: "hm_get (sm_sessions demo_after_create) 7 = Some demo_session"
    by (simp add: demo_after_create_def demo_manager_def hm_defs)
  have live: "\<not> is_expired demo_clock demo_session"
    by (simp add: is_expired_def elapsed_def demo_session_def session_new_def demo_clock_def
        from_std_def ttl_defs)
  show ?thesis using one_live_session_per_user [OF reach s live s live refl] reach s live by blast
qed

text \<open>C38: Extending an expired session breaks the limit. When a session has expired but was not yet
  swept, its user can create a second one and then extend the first: the extension
  succeeds, and both are live at that moment.\<close>

theorem expired_session_can_be_revived:
  assumes inv: "manager_inv sha256 m" and s: "hm_get (sm_sessions m) j = Some s"
    and dead: "s_ttl s < elapsed (mono c) (s_created_monotonic s)"
    and fresh: "owner_of m i = None"
    and second: "create sha256 P c c i (s_user_id s) t sc ttl (m, d) = (Inr s2, st1)"
    and extra: "0 < extra" "extra \<le> MAX_TTL"
      "elapsed (mono c) (s_created_monotonic s) + extra \<le> DURATION_MAX"
  shows "\<exists>st2 s1. update P j (s_user_id s) (extend_closure c c extra) st1 = (Returns (Inr (Inr ())), st2) \<and>
           hm_get (sm_sessions (fst st2)) j = Some s1 \<and> hm_get (sm_sessions (fst st2)) i = Some s2 \<and>
           i \<noteq> j \<and> s_user_id s1 = s_user_id s2 \<and> \<not> is_expired c s1 \<and> \<not> is_expired c s2"
proof -
  have ne: "i \<noteq> j" using fresh s by (auto simp: owner_of_def)
  from second have s2: "s2 = session_new sha256 c i (s_user_id s) t sc (ttl_choice m ttl)"
    and st1: "fst st1 = create_state m s2" and ttl: "ttl_accepted ttl"
    by (auto simp: create_cases Let_def split: option.splits if_splits)
  note [simp] = manager_invD(1,2) [OF inv]
  have range: "MIN_TTL \<le> ttl_choice m ttl" "ttl_choice m ttl \<le> MAX_TTL"
    using ttl manager_invD(5,6) [OF inv]
    by (auto simp: ttl_choice_def ttl_accepted_def split: option.splits)
  moreover have "0 < MIN_TTL" by (simp add: ttl_defs)
  ultimately have live2: "\<not> is_expired c s2"
    by (simp add: s2 session_new_def is_expired_def elapsed_def from_std_max_ttl)
  have rem: "remaining c s = 0" using dead by (simp add: remaining_def)
  have "MAX_TTL \<le> DURATION_MAX" by (simp add: ttl_defs)
  then have ext: "extend_closure c c extra s = (Returns (Inr ()), extended c extra s)"
    using extra by (simp add: extend_closure_def extend_cases rem)
  let ?m2 = "(fst st1)\<lparr>sm_sessions := hm_insert j (extended c extra s) (sm_sessions (fst st1))\<rparr>"
  have get1: "hm_get (sm_sessions (fst st1)) = (hm_get (sm_sessions m))(i \<mapsto> s2)"
    by (simp add: st1 create_state_def s2)
  have ok1: "hm_ok (sm_sessions (fst st1))" by (simp add: st1 create_state_def)
  have own: "owned (fst st1) j (s_user_id s) = Inr s" using ne s by (simp add: result_simps get1)
  have upd: "update P j (s_user_id s) (extend_closure c c extra) st1 =
      (Returns (Inr (Inr ())), persist P (?m2, snd st1))"
    by (cases st1) (use own in \<open>simp add: update_def ext Let_def\<close>)
  have "hm_get (sm_sessions ?m2) j = Some (extended c extra s)" "hm_get (sm_sessions ?m2) i = Some s2"
    using ne ok1 by (simp_all add: get1)
  moreover have "\<not> is_expired c (extended c extra s)" using extra(1) by (simp add: extended_deadlines)
  moreover have "s_user_id (extended c extra s) = s_user_id s2" by (simp add: extended_def s2)
  ultimately show ?thesis
    using upd ne live2 by (intro exI [of _ "persist P (?m2, snd st1)"] exI [of _ "extended c extra s"]) simp
qed

theorem expired_session_can_be_revived_witness:
  "hm_get (sm_sessions demo_manager) 7 = Some demo_session \<and>
   is_expired \<lparr>mono = 10 ^ 15, utc = 10 ^ 15\<rparr> demo_session \<and>
   (\<exists>st1 st2 s1 s2. update demo_persist 7 ''alice''
      (extend_closure \<lparr>mono = 10 ^ 15, utc = 10 ^ 15\<rparr> \<lparr>mono = 10 ^ 15, utc = 10 ^ 15\<rparr> (from_secs 60)) st1 =
        (Returns (Inr (Inr ())), st2) \<and>
      hm_get (sm_sessions (fst st2)) 7 = Some s1 \<and> hm_get (sm_sessions (fst st2)) 9 = Some s2 \<and>
      s_user_id s1 = s_user_id s2 \<and>
      \<not> is_expired \<lparr>mono = 10 ^ 15, utc = 10 ^ 15\<rparr> s1 \<and> \<not> is_expired \<lparr>mono = 10 ^ 15, utc = 10 ^ 15\<rparr> s2)"
proof -
  let ?c = "\<lparr>mono = 10 ^ 15, utc = 10 ^ 15\<rparr>"
  have s: "hm_get (sm_sessions demo_manager) 7 = Some demo_session" by (simp add: demo_get)
  have user: "s_user_id demo_session = ''alice''" by (simp add: demo_session_def)
  have dead: "s_ttl demo_session < elapsed (mono ?c) (s_created_monotonic demo_session)"
    by (simp add: demo_session_def elapsed_def demo_clock_def ttl_defs)
  then have gone: "is_expired ?c demo_session" by (simp add: is_expired_def)
  have fresh: "owner_of demo_manager 9 = None" by (simp add: owner_of_def demo_get)
  have "sm_enabled demo_manager" "mf_scenario (sm_manifest demo_manager) ''s1'' \<noteq> None"
    by (simp_all add: demo_manager_def manager_new_def mf_scenario_def demo_manifest_def demo_scenario_def)
  moreover have "holds_live ?c demo_manager ''alice'' = None"
    using gone by (auto simp: holds_live_def demo_get split: option.split)
  ultimately have "\<exists>s2 st1. create demo_sha demo_persist ?c ?c 9 (s_user_id demo_session) None ''s1'' None
      (demo_manager, Map.empty) = (Inr s2, st1)"
    by (simp add: create_cases user ttl_accepted_def Let_def)
  then obtain s2 st1 where second: "create demo_sha demo_persist ?c ?c 9 (s_user_id demo_session) None ''s1'' None
      (demo_manager, Map.empty) = (Inr s2, st1)" by blast
  have "0 < from_secs 60" "from_secs 60 \<le> MAX_TTL"
      "elapsed (mono ?c) (s_created_monotonic demo_session) + from_secs 60 \<le> DURATION_MAX"
    by (simp_all add: ttl_defs elapsed_def demo_session_def demo_clock_def)
  from expired_session_can_be_revived [OF demo_inv s dead fresh second this] show ?thesis
    using s gone unfolding user by blast
qed

end
