(* ===== verification/Quota.thy ===== *)
theory Quota
  imports Hash_Map Rust_Text
begin

text \<open>
  The daily session quota (\<^verbatim>\<open>datashuttle-playground/src/quota.rs\<close>). A time is in nanoseconds
  since the epoch; \<open>date_naive\<close> is its UTC day. The tracker is the hash map from tenant
  key to \<open>DailyRecord\<close> and the limit; \<open>try_consume_at\<close> prunes, inserts and charges as
  the source does, under its one mutex.

  The locale \<open>daily_budget\<close> states what a session creator may rely on (a charge
  succeeds exactly below the limit, touches one slot, and drops other days); the exact
  number of sessions granted over a whole run is proved inside it, and the
  interpretation \<open>budget\<close> discharges the contract for the tracker.
\<close>

subsection \<open>Data\<close>

record daily_record =
  rec_day :: int
  rec_count :: u32

record quota_tracker =
  q_state :: "(str, daily_record) hash_map"
  q_max_per_day :: u32

datatype quota_error = DailyLimit str u32 u32

definition MAX_SESSIONS_PER_TENANT_PER_DAY :: u32 where
  "MAX_SESSIONS_PER_TENANT_PER_DAY = 20"

definition NANOS_PER_DAY :: int where
  "NANOS_PER_DAY = 86400000000000"

definition date_naive :: "int \<Rightarrow> int" where
  "date_naive now = now div NANOS_PER_DAY"

subsection \<open>Operations\<close>

definition with_limit :: "u32 \<Rightarrow> quota_tracker" where
  "with_limit max_per_day = \<lparr>q_state = hm_empty, q_max_per_day = max_per_day\<rparr>"

definition quota_new :: quota_tracker where
  "quota_new = with_limit MAX_SESSIONS_PER_TENANT_PER_DAY"

abbreviation tenant_key :: "str option \<Rightarrow> str" where
  "tenant_key tenant \<equiv> opt_unwrap_or tenant ''''"

definition try_consume_at ::
    "quota_tracker \<Rightarrow> str option \<Rightarrow> int \<Rightarrow> (quota_error, u32) result \<times> quota_tracker" where
  "try_consume_at q tenant now =
     (let today = date_naive now;
          key = tenant_key tenant;
          m = hm_retain (\<lambda>_ r. rec_day r = today) (q_state q);
          entry = (case hm_get m key of
                     Some r \<Rightarrow> r
                   | None \<Rightarrow> \<lparr>rec_day = today, rec_count = 0\<rparr>);
          m = hm_insert key entry m
      in if q_max_per_day q \<le> rec_count entry
         then (Inl (DailyLimit key (rec_count entry) (q_max_per_day q)), q\<lparr>q_state := m\<rparr>)
         else (let entry = entry\<lparr>rec_count := rec_count entry + 1\<rparr>
               in (Inr (rec_count entry), q\<lparr>q_state := hm_insert key entry m\<rparr>)))"

definition peek :: "quota_tracker \<Rightarrow> str option \<Rightarrow> int \<Rightarrow> u32" where
  "peek q tenant now =
     opt_unwrap_or
       (map_option rec_count
         (opt_filter (\<lambda>r. rec_day r = date_naive now) (hm_get (q_state q) (tenant_key tenant)))) 0"

text \<open>The \<open>Display\<close> text of the error; the dash is U+2014.\<close>

fun quota_error_display :: "quota_error \<Rightarrow> str" where
  "quota_error_display (DailyLimit tenant count limit) =
     ''playground daily quota exhausted for tenant ('' @ tenant @ ''): '' @
     show_nat (unat count) @ ''/'' @ show_nat (unat limit) @ '' '' @
     [CHR 0xE2, CHR 0x80, CHR 0x94] @ '' resets at UTC midnight''"

declare try_consume_at_def [op_defs]

subsection \<open>The contract\<close>

locale daily_budget =
  fixes consume :: "'q \<Rightarrow> 'k \<Rightarrow> int \<Rightarrow> bool \<times> 'q"
    and used :: "'q \<Rightarrow> 'k \<Rightarrow> int \<Rightarrow> nat"
    and limit :: "'q \<Rightarrow> nat"
    and good :: "'q \<Rightarrow> bool"
  assumes granted_iff: "good q \<Longrightarrow> fst (consume q k d) \<longleftrightarrow> used q k d < limit q"
    and used_same: "good q \<Longrightarrow> used (snd (consume q k d)) k d =
                      (if used q k d < limit q then Suc (used q k d) else used q k d)"
    and used_other: "good q \<Longrightarrow> k' \<noteq> k \<Longrightarrow> used (snd (consume q k d)) k' d = used q k' d"
    and used_pruned: "good q \<Longrightarrow> d' \<noteq> d \<Longrightarrow> used (snd (consume q k d)) k' d' = 0"
    and limit_fixed: "limit (snd (consume q k d)) = limit q"
    and good_consume: "good q \<Longrightarrow> good (snd (consume q k d))"
    and used_limit: "good q \<Longrightarrow> used q k d \<le> limit q"
begin

fun run :: "'q \<Rightarrow> ('k \<times> int) list \<Rightarrow> bool list" where
  "run q [] = []"
| "run q ((k, d) # cs) = fst (consume q k d) # run (snd (consume q k d)) cs"

definition attempts :: "'k \<Rightarrow> int \<Rightarrow> ('k \<times> int) list \<Rightarrow> nat" where
  "attempts k d cs = length (filter (\<lambda>c. c = (k, d)) cs)"

definition grants :: "'q \<Rightarrow> 'k \<Rightarrow> int \<Rightarrow> ('k \<times> int) list \<Rightarrow> nat" where
  "grants q k d cs = length (filter (\<lambda>(c, ok). c = (k, d) \<and> ok) (zip cs (run q cs)))"

lemma attempts_past: "(\<And>c. c \<in> set cs \<Longrightarrow> d < snd c) \<Longrightarrow> attempts k d cs = 0"
  unfolding attempts_def by (fastforce simp: filter_empty_conv)

lemma grants_le_attempts: "grants q k d cs \<le> attempts k d cs"
proof (induction cs arbitrary: q)
  case Nil
  then show ?case by (simp add: grants_def)
next
  case (Cons c cs)
  then show ?case by (cases c) (simp add: grants_def attempts_def le_SucI)
qed

text \<open>No charge lies in the future of the next call: the precondition of a run.\<close>

definition no_future :: "'q \<Rightarrow> ('k \<times> int) list \<Rightarrow> bool" where
  "no_future q cs \<longleftrightarrow> (\<forall>c \<in> set (take 1 cs). \<forall>k d. snd c < d \<longrightarrow> used q k d = 0)"

lemma no_future_step:
  assumes "good q" and "sorted (map snd ((k, d) # cs))"
  shows "no_future (snd (consume q k d)) cs"
  using assms by (cases cs) (auto simp: no_future_def used_pruned)

lemma grants_exact:
  assumes "good q" and "sorted (map snd cs)" and "no_future q cs"
  shows "grants q k d cs = min (attempts k d cs) (limit q - used q k d)"
  using assms
proof (induction cs arbitrary: q)
  case Nil
  then show ?case by (simp add: grants_def attempts_def)
next
  case (Cons c cs)
  obtain k0 d0 where c: "c = (k0, d0)" by force
  let ?q = "snd (consume q k0 d0)"
  from Cons.prems have good: "good ?q" and "sorted (map snd cs)"
    and "no_future ?q cs"
    using no_future_step unfolding c by (auto intro: good_consume)
  with Cons.IH have IH: "grants ?q k d cs = min (attempts k d cs) (limit q - used ?q k d)"
    by (simp add: limit_fixed)
  have step: "grants q k d (c # cs) =
      (if c = (k, d) \<and> used q k d < limit q then 1 else 0) + grants ?q k d cs"
    using Cons.prems(1) by (auto simp: grants_def c granted_iff)
  consider "c = (k, d)" | "d0 = d" "k0 \<noteq> k" | "d0 < d" | "d < d0"
    unfolding c by fastforce
  then show ?case
  proof cases
    case 1
    then show ?thesis
      using IH step Cons.prems(1) used_limit
      by (auto simp: c attempts_def used_same)
  next
    case 2
    then show ?thesis
      using IH step Cons.prems(1) by (auto simp: c attempts_def used_other)
  next
    case 3
    then show ?thesis
      using IH step Cons.prems(1,3) by (auto simp: c attempts_def used_pruned no_future_def)
  next
    case 4
    then have "attempts k d (c # cs) = 0"
      using Cons.prems(2) unfolding c by (intro attempts_past) (auto simp: c)
    then show ?thesis using grants_le_attempts [of q k d "c # cs"] by simp
  qed
qed

end

subsection \<open>The tracker keeps the contract\<close>

definition quota_inv :: "quota_tracker \<Rightarrow> bool" where
  "quota_inv q \<longleftrightarrow> hm_ok (q_state q) \<and>
     (\<forall>k r. hm_get (q_state q) k = Some r \<longrightarrow> rec_count r \<le> q_max_per_day q)"

definition charged :: "quota_tracker \<Rightarrow> str \<Rightarrow> int \<Rightarrow> nat" where
  "charged q k d = unat (peek q (Some k) (d * NANOS_PER_DAY))"

definition consume_day :: "quota_tracker \<Rightarrow> str \<Rightarrow> int \<Rightarrow> bool \<times> quota_tracker" where
  "consume_day q k d =
     (let (r, q') = try_consume_at q (Some k) (d * NANOS_PER_DAY) in (is_ok r, q'))"

lemma date_naive_day [simp]: "date_naive (d * NANOS_PER_DAY) = d"
  by (simp add: date_naive_def NANOS_PER_DAY_def)

lemma date_naive_mono: "t \<le> t' \<Longrightarrow> date_naive t \<le> date_naive t'"
  by (simp add: date_naive_def NANOS_PER_DAY_def zdiv_mono1)

text \<open>A charge depends on the tenant's key and on the UTC day only.\<close>

lemma consume_day_now:
  "consume_day q (tenant_key t) (date_naive now) =
     (is_ok (fst (try_consume_at q t now)), snd (try_consume_at q t now))"
  by (simp add: consume_day_def try_consume_at_def Let_def)

lemma charged_alt:
  "charged q k d =
     (case hm_get (q_state q) k of Some r \<Rightarrow> if rec_day r = d then unat (rec_count r) else 0 | None \<Rightarrow> 0)"
  by (simp add: charged_def peek_def split: option.split)

lemma unat_Suc_below: "(c :: u32) < m \<Longrightarrow> unat (c + 1) = Suc (unat c)"
proof -
  assume "c < m"
  then have "c \<noteq> - 1"
    using word_order.extremum_strict [of m] by auto
  then have "1 + c \<noteq> 0"
    by (simp add: add_eq_0_iff)
  then show ?thesis
    by (simp add: unatSuc add.commute)
qed

lemma unat_Suc_below_nat [simp]: "\<not> unat (m :: u32) \<le> unat (c :: u32) \<Longrightarrow> unat (c + 1) = Suc (unat c)"
  by (rule unat_Suc_below [of c m]) (simp add: word_less_nat_alt)

lemma quota_inv_consume:
  assumes "quota_inv q"
  shows "quota_inv (snd (try_consume_at q tenant now))"
proof -
  from assms have ok: "hm_ok (q_state q)"
    and le: "\<And>k r. hm_get (q_state q) k = Some r \<Longrightarrow> rec_count r \<le> q_max_per_day q"
    by (auto simp: quota_inv_def)
  then show ?thesis
    by (auto simp: quota_inv_def try_consume_at_def Let_def result_simps inc_le not_le ok
        split: option.splits if_splits dest: le)
qed

interpretation budget: daily_budget consume_day charged "\<lambda>q. unat (q_max_per_day q)" quota_inv
proof
  fix q k k' and d d' :: int
  show "unat (q_max_per_day (snd (consume_day q k d))) = unat (q_max_per_day q)"
    by (simp add: consume_day_def try_consume_at_def Let_def split: prod.splits)
  assume inv: "quota_inv q"
  then have ok: "hm_ok (q_state q)" by (simp add: quota_inv_def)
  note calc = consume_day_def try_consume_at_def Let_def charged_alt word_less_nat_alt
    word_le_nat_alt ok
  show "fst (consume_day q k d) = (charged q k d < unat (q_max_per_day q))"
    by (auto simp: calc split: option.splits if_splits)
  show "charged (snd (consume_day q k d)) k d =
      (if charged q k d < unat (q_max_per_day q) then Suc (charged q k d) else charged q k d)"
    by (auto simp: calc split: option.splits if_splits)
  show "charged (snd (consume_day q k d)) k' d = charged q k' d" if "k' \<noteq> k"
    using that by (auto simp: calc split: option.splits if_splits)
  show "charged (snd (consume_day q k d)) k' d' = 0" if "d' \<noteq> d"
    using that by (auto simp: calc result_simps split: option.splits if_splits)
  show "quota_inv (snd (consume_day q k d))"
    using quota_inv_consume [OF inv, of "Some k" "d * NANOS_PER_DAY"]
    by (cases "try_consume_at q (Some k) (d * NANOS_PER_DAY)") (simp add: consume_day_def)
  show "charged q k d \<le> unat (q_max_per_day q)"
    using inv by (auto simp: charged_alt quota_inv_def word_le_nat_alt split: option.splits)
qed

subsection \<open>Properties\<close>

fun quota_run :: "quota_tracker \<Rightarrow> (str option \<times> int) list \<Rightarrow> (quota_error, u32) result list" where
  "quota_run q [] = []"
| "quota_run q ((t, now) # cs) =
     (let (r, q') = try_consume_at q t now in r # quota_run q' cs)"

definition slot_of :: "str option \<times> int \<Rightarrow> str \<times> int" where
  "slot_of c = (tenant_key (fst c), date_naive (snd c))"

lemma quota_run_budget: "map is_ok (quota_run q cs) = budget.run q (map slot_of cs)"
proof (induction cs arbitrary: q)
  case Nil
  then show ?case by simp
next
  case (Cons c cs)
  then show ?case
    by (cases c) (simp add: slot_of_def consume_day_now split: prod.splits)
qed

lemma filter_zip_map:
  "length (filter (\<lambda>(c, r). f c = x \<and> g r) (zip cs rs)) =
     length (filter (\<lambda>(c, r). c = x \<and> r) (zip (map f cs) (map g rs)))"
proof (induction cs arbitrary: rs)
  case Nil
  then show ?case by simp
next
  case (Cons c cs)
  then show ?case by (cases rs) auto
qed

lemma quota_inv_with_limit: "quota_inv (with_limit n)"
  by (simp add: quota_inv_def with_limit_def)

text \<open>C17: The daily cap is exact. From a fresh tracker, over any sequence of
  \<open>try_consume_at\<close> calls of any tenants whose times never go back, the calls of one tenant
  slot on one UTC day that succeed are exactly as many as were made, up to the limit:
  never more than the limit, and none refused below it, whatever other tenants do.\<close>

theorem quota_grants_exactly_limit:
  assumes "sorted (map snd cs)"
  shows "length (filter (\<lambda>(c, r). slot_of c = (k, d) \<and> is_ok r) (zip cs (quota_run (with_limit n) cs)))
       = min (length (filter (\<lambda>c. slot_of c = (k, d)) cs)) (unat n)"
proof -
  have sorted: "sorted (map snd (map slot_of cs))"
    using assms by (auto simp: slot_of_def sorted_iff_nth_mono date_naive_mono)
  have "charged (with_limit n) k d = 0" for k d
    by (simp add: charged_alt with_limit_def)
  then show ?thesis
    using budget.grants_exact [OF quota_inv_with_limit sorted, of n k d]
    unfolding budget.grants_def budget.attempts_def
      filter_zip_map [of slot_of "(k, d)" is_ok] quota_run_budget
    by (simp add: budget.no_future_def filter_map o_def with_limit_def)
qed

theorem quota_grants_exactly_limit_witness:
  "sorted (map snd [(Some ''a'', 0 :: int), (None, 5), (Some ''a'', 7), (Some ''a'', 9)]) \<and>
   length (filter (\<lambda>(c, r). slot_of c = (''a'', 0) \<and> is_ok r)
     (zip [(Some ''a'', 0), (None, 5), (Some ''a'', 7), (Some ''a'', 9)]
       (quota_run (with_limit 2) [(Some ''a'', 0), (None, 5), (Some ''a'', 7), (Some ''a'', 9)]))) = 2"
  using quota_grants_exactly_limit
    [of "[(Some ''a'', 0), (None, 5), (Some ''a'', 7), (Some ''a'', 9)]" "''a''" 0 2]
  by (simp add: slot_of_def date_naive_def NANOS_PER_DAY_def)

text \<open>One charge, branch by branch. Below the limit \<open>try_consume_at\<close> returns the count
  after the increment, which never wraps around; at the limit it returns
  \<open>DailyLimit\<close> with the tenant's key, the count and the limit, and charges nothing. The
  other tenants' counts of the day are untouched, every other day's record is gone, and
  no count exceeds the limit.\<close>

theorem try_consume_at_charges:
  assumes "quota_inv q" and "try_consume_at q tenant now = (r, q')"
  shows "(unat (peek q tenant now) < unat (q_max_per_day q) \<longrightarrow>
            r = Inr (peek q' tenant now) \<and> unat (peek q' tenant now) = Suc (unat (peek q tenant now))) \<and>
         (unat (peek q tenant now) \<ge> unat (q_max_per_day q) \<longrightarrow>
            r = Inl (DailyLimit (tenant_key tenant) (peek q tenant now) (q_max_per_day q)) \<and>
            peek q' tenant now = peek q tenant now) \<and>
         (tenant_key t \<noteq> tenant_key tenant \<longrightarrow> peek q' t now = peek q t now) \<and>
         (date_naive other \<noteq> date_naive now \<longrightarrow> peek q' t other = 0) \<and>
         quota_inv q'"
proof -
  from assms(1) have ok: "hm_ok (q_state q)" by (simp add: quota_inv_def)
  note calc = try_consume_at_def Let_def peek_def ok word_le_nat_alt
  have "quota_inv q'" using quota_inv_consume [OF assms(1), of tenant now] assms(2) by simp
  moreover have "unat (peek q tenant now) < unat (q_max_per_day q) \<longrightarrow>
      r = Inr (peek q' tenant now) \<and> unat (peek q' tenant now) = Suc (unat (peek q tenant now))"
    using assms(2) by (cases "hm_get (q_state q) (tenant_key tenant)") (auto simp: calc split: if_splits)
  moreover have "unat (peek q tenant now) \<ge> unat (q_max_per_day q) \<longrightarrow>
      r = Inl (DailyLimit (tenant_key tenant) (peek q tenant now) (q_max_per_day q)) \<and>
      peek q' tenant now = peek q tenant now"
    using assms(2) by (cases "hm_get (q_state q) (tenant_key tenant)") (auto simp: calc split: if_splits)
  moreover have "tenant_key t \<noteq> tenant_key tenant \<longrightarrow> peek q' t now = peek q t now"
    using assms(2) by (auto simp: calc result_simps split: option.splits if_splits)
  moreover have "date_naive other \<noteq> date_naive now \<longrightarrow> peek q' t other = 0"
    using assms(2) by (auto simp: calc result_simps split: option.splits if_splits)
  ultimately show ?thesis by blast
qed

theorem try_consume_at_charges_witness:
  "quota_inv (with_limit 1) \<and>
   try_consume_at (with_limit 1) (Some ''t'') 5 =
     (Inr 1, \<lparr>q_state = [(''t'', \<lparr>rec_day = 0, rec_count = 1\<rparr>)], q_max_per_day = 1\<rparr>) \<and>
   peek \<lparr>q_state = [(''t'', \<lparr>rec_day = 0, rec_count = 1\<rparr>)], q_max_per_day = 1\<rparr> (Some ''t'') 5 = 1"
proof -
  have run: "try_consume_at (with_limit 1) (Some ''t'') 5 =
     (Inr 1, \<lparr>q_state = [(''t'', \<lparr>rec_day = 0, rec_count = 1\<rparr>)], q_max_per_day = 1\<rparr>)"
    by (simp add: try_consume_at_def with_limit_def date_naive_def NANOS_PER_DAY_def
        hm_defs)
  show ?thesis
    using try_consume_at_charges [OF quota_inv_with_limit run] run quota_inv_with_limit [of 1]
    by (simp add: peek_def with_limit_def)
qed

end
