(* ===== verification/Config.thy ===== *)
theory Config
  imports Sessions
begin

text \<open>
  The server's configuration (\<^verbatim>\<open>datashuttle-playground-server/src/config.rs\<close>): \<open>load\<close> reads
  each variable of the environment once. The environment is a function from names to
  values; a variable that is not valid UTF-8 counts as unset, as \<open>std::env::var\<close> gives an
  error for both. An error is the text of its outermost context.
\<close>

type_synonym env = "str \<Rightarrow> str option"

record config =
  cfg_bind_addr :: str
  cfg_manifest_path :: "str option"
  cfg_auth_token :: "str option"
  cfg_session_ttl :: duration
  cfg_session_quota_per_day :: u32
  cfg_api_base_url :: "str option"
  cfg_api_service_token :: "str option"
  cfg_api_timeout :: duration
  cfg_deployment_kind :: str
  cfg_examples_dir :: str
  cfg_data_dir :: str

definition DEFAULT_TTL_SECS :: nat where
  "DEFAULT_TTL_SECS = 2 * 60 * 60"

definition DEFAULT_QUOTA :: u32 where
  "DEFAULT_QUOTA = 20"

definition DEFAULT_API_TIMEOUT_SECS :: nat where
  "DEFAULT_API_TIMEOUT_SECS = 30"

text \<open>A number of a given width, or the default when the variable is unset.\<close>

definition env_number :: "env \<Rightarrow> str \<Rightarrow> nat \<Rightarrow> str \<Rightarrow> nat \<Rightarrow> (str, nat) result" where
  "env_number env key bound complaint dflt =
     (case env key of
        None \<Rightarrow> Inr dflt
      | Some v \<Rightarrow> ok_or complaint (parse_uint bound v))"

abbreviation non_empty :: "str \<Rightarrow> bool" where
  "non_empty s \<equiv> s \<noteq> []"

definition load :: "env \<Rightarrow> (str, config) result" where
  "load env =
     rbind (env_number env ''PLAYGROUND_TTL_SECS'' (2 ^ 64) ''PLAYGROUND_TTL_SECS must be a u64''
              DEFAULT_TTL_SECS) (\<lambda>ttl.
     rbind (env_number env ''PLAYGROUND_QUOTA_PER_DAY'' (2 ^ 32)
              ''PLAYGROUND_QUOTA_PER_DAY must be a u32'' (unat DEFAULT_QUOTA)) (\<lambda>quota.
     rbind (env_number env ''PLAYGROUND_API_TIMEOUT_SECS'' (2 ^ 64)
              ''PLAYGROUND_API_TIMEOUT_SECS must be a u64'' DEFAULT_API_TIMEOUT_SECS) (\<lambda>timeout.
     Inr \<lparr>cfg_bind_addr = opt_unwrap_or (env ''PLAYGROUND_BIND_ADDR'') ''0.0.0.0:8081'',
          cfg_manifest_path = env ''PLAYGROUND_MANIFEST'',
          cfg_auth_token = opt_filter non_empty (env ''PLAYGROUND_TOKEN''),
          cfg_session_ttl = from_secs ttl,
          cfg_session_quota_per_day = of_nat quota,
          cfg_api_base_url = opt_filter non_empty (map_option trim (env ''PLAYGROUND_API_BASE_URL'')),
          cfg_api_service_token = opt_filter non_empty (env ''PLAYGROUND_SERVICE_TOKEN''),
          cfg_api_timeout = from_secs timeout,
          cfg_deployment_kind =
            opt_unwrap_or (opt_filter non_empty (map_option trim (env ''PLAYGROUND_DEPLOYMENT''))) ''cloud'',
          cfg_examples_dir =
            opt_unwrap_or (opt_filter non_empty (env ''PLAYGROUND_EXAMPLES_DIR'')) ''/opt/datashuttle/examples'',
          cfg_data_dir =
            opt_unwrap_or (opt_filter non_empty (env ''PLAYGROUND_DATA_DIR'')) ''/var/lib/datashuttle-playground''\<rparr>)))"

lemma env_number_Inr [result_simps]:
  "env_number env key bound complaint dflt = Inr n \<longleftrightarrow>
     (env key = None \<and> n = dflt) \<or> (\<exists>v. env key = Some v \<and> parse_uint bound v = Some n)"
  by (auto simp: env_number_def result_simps split: option.splits)

lemma env_number_ok:
  "is_ok (env_number env key bound complaint dflt) \<longleftrightarrow>
     (\<forall>v. env key = Some v \<longrightarrow> parse_uint bound v \<noteq> None)"
proof (cases "env key")
  case (Some v)
  then show ?thesis by (cases "parse_uint bound v") (simp_all add: env_number_def)
qed (simp add: env_number_def)

lemma load_ok_iff:
  "is_ok (load env) \<longleftrightarrow>
     (\<forall>v. env ''PLAYGROUND_TTL_SECS'' = Some v \<longrightarrow> parse_uint (2 ^ 64) v \<noteq> None) \<and>
     (\<forall>v. env ''PLAYGROUND_QUOTA_PER_DAY'' = Some v \<longrightarrow> parse_uint (2 ^ 32) v \<noteq> None) \<and>
     (\<forall>v. env ''PLAYGROUND_API_TIMEOUT_SECS'' = Some v \<longrightarrow> parse_uint (2 ^ 64) v \<noteq> None)"
proof -
  have bind: "is_ok (rbind r f) \<longleftrightarrow> is_ok r \<and> is_ok (f (projr r))" for r and f :: "nat \<Rightarrow> (str, config) result"
    by (cases r) simp_all
  show ?thesis unfolding load_def bind env_number_ok by simp
qed

lemma load_quota:
  assumes "load env = Inr cfg"
  shows "case env ''PLAYGROUND_QUOTA_PER_DAY'' of
           None \<Rightarrow> unat (cfg_session_quota_per_day cfg) = 20
         | Some v \<Rightarrow> parse_uint (2 ^ 32) v = Some (unat (cfg_session_quota_per_day cfg))"
proof -
  from assms obtain quota where quota: "cfg_session_quota_per_day cfg = of_nat quota"
    and num: "env_number env ''PLAYGROUND_QUOTA_PER_DAY'' (2 ^ 32) ''PLAYGROUND_QUOTA_PER_DAY must be a u32''
      (unat DEFAULT_QUOTA) = Inr quota"
    by (auto simp: load_def result_simps(1))
  have "quota < 2 ^ 32"
    using num parse_uint_bound unsigned_less [of DEFAULT_QUOTA] by (fastforce simp: result_simps)
  then have "unat (of_nat quota :: u32) = quota" by (simp add: unat_of_nat take_bit_nat_eq_self)
  then show ?thesis
    using num by (auto simp: quota result_simps DEFAULT_QUOTA_def split: option.split)
qed

lemma load_options:
  assumes "load env = Inr cfg"
  shows "cfg_auth_token cfg = opt_filter non_empty (env ''PLAYGROUND_TOKEN'')"
    and "cfg_api_base_url cfg = opt_filter non_empty (map_option trim (env ''PLAYGROUND_API_BASE_URL''))"
    and "cfg_api_service_token cfg = opt_filter non_empty (env ''PLAYGROUND_SERVICE_TOKEN'')"
    and "cfg_deployment_kind cfg =
      opt_unwrap_or (opt_filter non_empty (map_option trim (env ''PLAYGROUND_DEPLOYMENT''))) ''cloud''"
    and "cfg_data_dir cfg =
      opt_unwrap_or (opt_filter non_empty (env ''PLAYGROUND_DATA_DIR'')) ''/var/lib/datashuttle-playground''"
  using assms by (auto simp: load_def rbind_Inr_iff)

lemma opt_unwrap_non_empty: "d \<noteq> [] \<Longrightarrow> opt_unwrap_or (opt_filter non_empty m) d \<noteq> []"
  by (cases m) auto

text \<open>The configuration is loaded exactly when the three numeric variables are unset or parse at
  their width, and then every value is the variable's or the documented default: an
  empty token means no authentication, an empty or blank base URL, service token or
  deployment counts as unset, and the quota read is the number written, without
  wrap-around. The session manager built from it always has a lifetime in range.\<close>

theorem load_reads_environment:
  "(is_ok (load env) \<longleftrightarrow>
      (\<forall>v. env ''PLAYGROUND_TTL_SECS'' = Some v \<longrightarrow> parse_uint (2 ^ 64) v \<noteq> None) \<and>
      (\<forall>v. env ''PLAYGROUND_QUOTA_PER_DAY'' = Some v \<longrightarrow> parse_uint (2 ^ 32) v \<noteq> None) \<and>
      (\<forall>v. env ''PLAYGROUND_API_TIMEOUT_SECS'' = Some v \<longrightarrow> parse_uint (2 ^ 64) v \<noteq> None)) \<and>
   (load env = Inr cfg \<longrightarrow>
      (case env ''PLAYGROUND_QUOTA_PER_DAY'' of
         None \<Rightarrow> unat (cfg_session_quota_per_day cfg) = 20
       | Some v \<Rightarrow> parse_uint (2 ^ 32) v = Some (unat (cfg_session_quota_per_day cfg))) \<and>
      (cfg_auth_token cfg = None \<longleftrightarrow> env ''PLAYGROUND_TOKEN'' \<in> {None, Some []}) \<and>
      cfg_api_base_url cfg \<noteq> Some [] \<and> cfg_api_service_token cfg \<noteq> Some [] \<and>
      cfg_deployment_kind cfg \<noteq> [] \<and> cfg_data_dir cfg \<noteq> [] \<and>
      MIN_TTL \<le> sm_default_ttl (manager_new mf en (cfg_session_ttl cfg)) \<and>
      sm_default_ttl (manager_new mf en (cfg_session_ttl cfg)) \<le> MAX_TTL)"
proof (intro conjI impI)
  show "is_ok (load env) \<longleftrightarrow>
      (\<forall>v. env ''PLAYGROUND_TTL_SECS'' = Some v \<longrightarrow> parse_uint (2 ^ 64) v \<noteq> None) \<and>
      (\<forall>v. env ''PLAYGROUND_QUOTA_PER_DAY'' = Some v \<longrightarrow> parse_uint (2 ^ 32) v \<noteq> None) \<and>
      (\<forall>v. env ''PLAYGROUND_API_TIMEOUT_SECS'' = Some v \<longrightarrow> parse_uint (2 ^ 64) v \<noteq> None)"
    by (rule load_ok_iff)
  assume cfg: "load env = Inr cfg"
  show "case env ''PLAYGROUND_QUOTA_PER_DAY'' of
      None \<Rightarrow> unat (cfg_session_quota_per_day cfg) = 20
    | Some v \<Rightarrow> parse_uint (2 ^ 32) v = Some (unat (cfg_session_quota_per_day cfg))"
    by (rule load_quota [OF cfg])
  note opts = load_options [OF cfg]
  show "cfg_auth_token cfg = None \<longleftrightarrow> env ''PLAYGROUND_TOKEN'' \<in> {None, Some []}"
    unfolding opts(1) by (cases "env ''PLAYGROUND_TOKEN''") auto
  show "cfg_api_base_url cfg \<noteq> Some []" "cfg_api_service_token cfg \<noteq> Some []"
    unfolding opts(2,3) by (auto simp: result_simps)
  show "cfg_deployment_kind cfg \<noteq> []" "cfg_data_dir cfg \<noteq> []"
    unfolding opts(4,5) by (rule opt_unwrap_non_empty, simp)+
  show "MIN_TTL \<le> sm_default_ttl (manager_new mf en (cfg_session_ttl cfg))"
      "sm_default_ttl (manager_new mf en (cfg_session_ttl cfg)) \<le> MAX_TTL"
    by (simp_all add: manager_new_def default_ttl_in_range)
qed

theorem load_reads_environment_witness:
  "is_ok (load (\<lambda>k. if k = ''PLAYGROUND_QUOTA_PER_DAY'' then Some ''7'' else None)) \<and>
   \<not> is_ok (load (\<lambda>k. if k = ''PLAYGROUND_QUOTA_PER_DAY'' then Some ''x'' else None))"
proof -
  have p: "parse_uint (2 ^ 32) ''7'' = Some 7" "parse_uint (2 ^ 32) ''x'' = None" 
    by (simp_all add: parse_uint_def is_digit_def digit_val_def)
  show ?thesis
    unfolding load_reads_environment [THEN conjunct1] using p by simp
qed

end
