(* ===== verification/Gateway.thy ===== *)
theory Gateway
  imports Config
begin

unbundle bit_operations_syntax

text \<open>
  The way into the server: \<open>auth_middleware\<close>, \<open>valid_bearer\<close> and \<open>constant_time_eq\<close> of
  \<^verbatim>\<open>router.rs\<close>, the identity headers of \<^verbatim>\<open>identity.rs\<close>. A header map is the function from a
  lower-case name to the bytes of its first value. A response is either the rejection (status
  and error text) or what the handler returned.
\<close>

record identity =
  id_user_id :: str
  id_tenant_id :: "str option"
  id_actor_id :: "str option"
  id_auth_method :: str

record request =
  rq_path :: str
  rq_headers :: "str \<Rightarrow> str option"
  rq_identity :: "identity option"

type_synonym http_error = "nat \<times> str"

text \<open>\<open>HeaderValue::to_str\<close>: visible ASCII and tabs only.\<close>

definition to_str :: "str \<Rightarrow> str option" where
  "to_str v =
     (if list_all (\<lambda>c. let n = (of_char c :: nat) in (32 \<le> n \<and> n < 127) \<or> n = 9) v then Some v else None)"

definition header :: "request \<Rightarrow> str \<Rightarrow> str option" where
  "header req name =
     opt_filter non_empty (map_option trim (Option.bind (rq_headers req name) to_str))"

definition is_exempt :: "str \<Rightarrow> bool" where
  "is_exempt path \<longleftrightarrow> path \<in> {''/health'', ''/metrics'', ''/api/v1/health'', ''/api/v1/manifest''}"

definition identity_of :: "request \<Rightarrow> identity option" where
  "identity_of req =
     (case header req ''x-datashuttle-user-id'' of
        None \<Rightarrow> None
      | Some uid \<Rightarrow>
          Some \<lparr>id_user_id = uid,
                id_tenant_id = header req ''x-datashuttle-tenant-id'',
                id_actor_id = header req ''x-datashuttle-actor-id'',
                id_auth_method = opt_unwrap_or (header req ''x-datashuttle-auth-method'') ''unknown''\<rparr>)"

definition identity_middleware ::
    "(request \<Rightarrow> (http_error, 'a) result) \<Rightarrow> request \<Rightarrow> (http_error, 'a) result" where
  "identity_middleware next_run req =
     (if is_exempt (rq_path req) then next_run req
      else (case identity_of req of
              None \<Rightarrow> Inl (401, ''playground requires authenticated identity'')
            | Some i \<Rightarrow> next_run (req\<lparr>rq_identity := Some i\<rparr>)))"

definition constant_time_eq :: "u8 list \<Rightarrow> u8 list \<Rightarrow> bool" where
  "constant_time_eq a b =
     (if length a \<noteq> length b then False
      else fold (\<lambda>(x, y) diff. diff OR (x XOR y)) (zip a b) 0 = 0)"

definition as_bytes :: "str \<Rightarrow> u8 list" where
  "as_bytes s = map (\<lambda>c. word_of_nat (of_char c)) s"

definition valid_bearer :: "request \<Rightarrow> str \<Rightarrow> bool" where
  "valid_bearer req expected =
     opt_unwrap_or
       (map_option (\<lambda>tok. constant_time_eq (as_bytes tok) (as_bytes expected))
         (Option.bind (Option.bind (rq_headers req ''authorization'') to_str)
           (\<lambda>v. strip_prefix v ''Bearer '')))
       False"

definition auth_middleware ::
    "str option \<Rightarrow> (request \<Rightarrow> (http_error, 'a) result) \<Rightarrow> request \<Rightarrow> (http_error, 'a) result" where
  "auth_middleware auth_token next_run req =
     (if rq_path req = ''/health'' \<or> rq_path req = ''/metrics'' \<or> rq_path req = ''/api/v1/health'' \<or>
         rq_path req = ''/api/v1/manifest''
      then next_run req
      else (case auth_token of
              None \<Rightarrow> next_run req
            | Some expected \<Rightarrow>
                if \<not> valid_bearer req expected then Inl (401, ''missing or invalid bearer token'')
                else next_run req))"

text \<open>The layers of \<open>router\<close>: the bearer check runs first, then the identity, then the handler.\<close>

definition gateway ::
    "str option \<Rightarrow> (request \<Rightarrow> (http_error, 'a) result) \<Rightarrow> request \<Rightarrow> (http_error, 'a) result" where
  "gateway auth_token handler = auth_middleware auth_token (identity_middleware handler)"

subsection \<open>Comparison in constant time\<close>

lemma xor_zero_iff: "(x :: u8) XOR y = 0 \<longleftrightarrow> x = y"
proof
  assume "x XOR y = 0"
  then have "(x XOR y) XOR y = y" by simp
  then show "x = y" by (simp add: xor.assoc)
qed simp

lemma diff_fold:
  "fold (\<lambda>(x, y) diff. diff OR (x XOR y)) xys (d :: u8) = 0 \<longleftrightarrow> d = 0 \<and> (\<forall>(x, y) \<in> set xys. x = y)"
  by (induction xys arbitrary: d) (auto simp: or_eq_0_iff xor_zero_iff split: prod.splits)

lemma constant_time_eq_iff: "constant_time_eq a b \<longleftrightarrow> a = b"
proof (cases "length a = length b")
  case True
  then have "(\<forall>(x, y) \<in> set (zip a b). x = y) \<longleftrightarrow> a = b"
    by (induction a b rule: list_induct2) auto
  with True show ?thesis by (simp add: constant_time_eq_def diff_fold)
next
  case False
  then show ?thesis by (auto simp: constant_time_eq_def)
qed

lemma byte_inj: "(word_of_nat (of_char x) :: u8) = word_of_nat (of_char y) \<longleftrightarrow> x = y"
proof -
  have "take_bit 8 (of_char c :: nat) = of_char c" for c
    by (simp add: take_bit_nat_eq_self_iff)
  then show ?thesis by (simp add: word_of_nat_eq_iff)
qed

lemma as_bytes_inj: "as_bytes a = as_bytes b \<longleftrightarrow> a = b"
  unfolding as_bytes_def by (rule inj_map_eq_map) (simp add: inj_def byte_inj)

lemma valid_bearer_iff:
  "valid_bearer req t \<longleftrightarrow> Option.bind (rq_headers req ''authorization'') to_str = Some (''Bearer '' @ t)"
proof (cases "Option.bind (rq_headers req ''authorization'') to_str")
  case None
  then show ?thesis by (simp add: valid_bearer_def)
next
  case (Some v)
  then show ?thesis
    using strip_prefix_iff [of v "''Bearer ''"]
    by (cases "strip_prefix v ''Bearer ''")
      (auto simp: valid_bearer_def constant_time_eq_iff as_bytes_inj)
qed

lemma header_non_empty: "header req name = Some v \<Longrightarrow> v \<noteq> []"
  by (simp add: header_def result_simps)

lemma identity_of_user: "identity_of req = Some i \<Longrightarrow> header req ''x-datashuttle-user-id'' = Some (id_user_id i)"
  by (auto simp: identity_of_def split: option.splits)

lemma exempt_paths:
  "rq_path req = ''/health'' \<or> rq_path req = ''/metrics'' \<or> rq_path req = ''/api/v1/health'' \<or>
     rq_path req = ''/api/v1/manifest'' \<longleftrightarrow> is_exempt (rq_path req)"
  by (simp add: is_exempt_def)

lemma gateway_exempt: "is_exempt (rq_path req) \<Longrightarrow> gateway tok h req = h req"
  by (simp add: gateway_def auth_middleware_def identity_middleware_def exempt_paths)

lemma gateway_protected:
  "\<not> is_exempt (rq_path req) \<Longrightarrow> gateway tok h req =
     (if \<exists>t. tok = Some t \<and> \<not> valid_bearer req t then Inl (401, ''missing or invalid bearer token'')
      else (case identity_of req of
              None \<Rightarrow> Inl (401, ''playground requires authenticated identity'')
            | Some i \<Rightarrow> h (req\<lparr>rq_identity := Some i\<rparr>)))"
  unfolding gateway_def auth_middleware_def identity_middleware_def exempt_paths
  by (simp split: option.split)

text \<open>The gateway lets exactly the right requests through. A probe path goes straight to its
  handler. Any other request reaches its handler exactly when the \<open>Authorization\<close> header
  is \<open>Bearer\<close> followed by the configured token, byte for byte (the constant-time
  comparison is equality), or no token is configured, and the user header names
  a user; the handler then sees the identity of the headers, whose user is not empty, and
  whatever identity the request carried before is gone. Otherwise the answer is 401 and
  no handler runs.\<close>

theorem gateway_admits_exactly:
  "(is_exempt (rq_path req) \<longrightarrow> gateway tok h req = h req) \<and>
   (\<not> is_exempt (rq_path req) \<longrightarrow>
      (gateway tok (\<lambda>r. Inr r) req = Inr r' \<longleftrightarrow>
         (\<forall>t. tok = Some t \<longrightarrow>
            Option.bind (rq_headers req ''authorization'') to_str = Some (''Bearer '' @ t)) \<and>
         (\<exists>i. identity_of req = Some i \<and> id_user_id i \<noteq> [] \<and> r' = req\<lparr>rq_identity := Some i\<rparr>)) \<and>
      (gateway tok h req = Inl (401, ''missing or invalid bearer token'') \<or>
       gateway tok h req = Inl (401, ''playground requires authenticated identity'') \<or>
       (\<exists>i. identity_of req = Some i \<and> gateway tok h req = h (req\<lparr>rq_identity := Some i\<rparr>))))"
proof (cases "is_exempt (rq_path req)")
  case True
  then show ?thesis by (simp add: gateway_exempt)
next
  case False
  have user: "id_user_id i \<noteq> []" if "identity_of req = Some i" for i
    using header_non_empty identity_of_user [OF that] by blast
  show ?thesis
    unfolding gateway_protected [OF False] valid_bearer_iff
    using False user by (auto split: option.split)
qed

theorem gateway_admits_exactly_witness:
  "\<not> is_exempt (rq_path \<lparr>rq_path = ''/api/v1/sessions'', rq_headers = \<lambda>_. None, rq_identity = None\<rparr>) \<and>
   (\<forall>r'. gateway (Some ''t'') (\<lambda>r. Inr r)
       \<lparr>rq_path = ''/api/v1/sessions'', rq_headers = \<lambda>_. None, rq_identity = None\<rparr> \<noteq> Inr r')"
  using gateway_admits_exactly
    [of "\<lparr>rq_path = ''/api/v1/sessions'', rq_headers = \<lambda>_. None, rq_identity = None\<rparr>" "Some ''t''" "\<lambda>r. Inr r"]
  by (auto simp: is_exempt_def)

end
