(* ===== verification/Metrics.thy ===== *)
theory Metrics
  imports Rust_Text
begin

text \<open>
  The dispatcher's errors (\<open>DispatchError\<close> of \<^verbatim>\<open>tcp.rs\<close>) and the typed labels of the metrics
  (\<^verbatim>\<open>metrics.rs\<close>): outcome and error kinds, their texts, and the two mappings to an error
  kind, \<open>from_dispatch_error\<close> and \<open>from_message\<close>. The counters and histograms themselves are
  the prometheus crate's; an update of one is an entry of a log (\<open>metric\<close>), and of their
  registration the names and labels are kept. Unicode lower case is a parameter of \<open>from_message\<close>.
\<close>

subsection \<open>Dispatcher errors\<close>

datatype dispatch_error =
    DConfig str
  | DConnect str
  | DAuth str
  | DSchemaMismatch str
  | DDuplicateKey str
  | DTimeout nat
  | DProtocol str
  | DUnavailable

fun dispatch_error_display :: "dispatch_error \<Rightarrow> str" where
  "dispatch_error_display (DConfig m) = ''playground dispatcher misconfigured: '' @ m"
| "dispatch_error_display (DConnect m) = ''could not connect to playground sidecar: '' @ m"
| "dispatch_error_display (DAuth m) = ''authentication to playground sidecar failed: '' @ m"
| "dispatch_error_display (DSchemaMismatch m) = ''schema mismatch: '' @ m"
| "dispatch_error_display (DDuplicateKey m) = ''duplicate key: '' @ m"
| "dispatch_error_display (DTimeout n) = ''query timed out after '' @ show_nat n @ ''s''"
| "dispatch_error_display (DProtocol m) = ''playground dispatcher protocol error: '' @ m"
| "dispatch_error_display DUnavailable =
     ''playground dispatcher unavailable in this build (saas feature off)''"

definition POOL_ACQUIRE_TIMEOUT_SECS :: nat where
  "POOL_ACQUIRE_TIMEOUT_SECS = 10"

definition STATEMENT_TIMEOUT_SECS :: nat where
  "STATEMENT_TIMEOUT_SECS = 30"

subsection \<open>Labels\<close>

datatype session_start_outcome = StartOk | StartDenied

fun session_start_label :: "session_start_outcome \<Rightarrow> str" where
  "session_start_label StartOk = ''ok''"
| "session_start_label StartDenied = ''denied''"

datatype action_outcome_kind = OutcomeOk | OutcomeErr

fun action_outcome_label :: "action_outcome_kind \<Rightarrow> str" where
  "action_outcome_label OutcomeOk = ''ok''"
| "action_outcome_label OutcomeErr = ''err''"

datatype action_error_kind =
    KConnect | KAuth | KTimeout | KDuplicateKey | KSchemaMismatch | KProtocol | KConfig | KOther

fun action_error_label :: "action_error_kind \<Rightarrow> str" where
  "action_error_label KConnect = ''connect''"
| "action_error_label KAuth = ''auth''"
| "action_error_label KTimeout = ''timeout''"
| "action_error_label KDuplicateKey = ''duplicate_key''"
| "action_error_label KSchemaMismatch = ''schema_mismatch''"
| "action_error_label KProtocol = ''protocol''"
| "action_error_label KConfig = ''config''"
| "action_error_label KOther = ''other''"

fun from_dispatch_error :: "dispatch_error \<Rightarrow> action_error_kind" where
  "from_dispatch_error (DConfig _) = KConfig"
| "from_dispatch_error (DConnect _) = KConnect"
| "from_dispatch_error (DAuth _) = KAuth"
| "from_dispatch_error (DSchemaMismatch _) = KSchemaMismatch"
| "from_dispatch_error (DDuplicateKey _) = KDuplicateKey"
| "from_dispatch_error (DTimeout _) = KTimeout"
| "from_dispatch_error (DProtocol _) = KProtocol"
| "from_dispatch_error DUnavailable = KConfig"

definition from_message :: "(str \<Rightarrow> str) \<Rightarrow> str \<Rightarrow> action_error_kind" where
  "from_message to_lowercase msg =
     (let m = to_lowercase msg
      in if contains m ''duplicate'' \<or> contains m ''23505'' \<or> contains m ''1062'' then KDuplicateKey
         else if contains m ''timeout'' \<or> contains m ''57014'' \<or> contains m ''timed out'' then KTimeout
         else if contains m ''authentication'' \<or> contains m ''access denied'' \<or> contains m ''permission''
         then KAuth
         else if contains m ''connect'' \<or> contains m ''refused'' \<or> contains m ''unreachable'' then KConnect
         else if contains m ''schema'' \<or> contains m ''undefined'' \<or> contains m ''no such'' \<or>
                 contains m ''42p01'' \<or> contains m ''42703''
         then KSchemaMismatch
         else if contains m ''config'' \<or> contains m ''misconfig'' then KConfig
         else KOther)"

datatype teardown_kind = TeardownSession | TeardownOrphan

fun teardown_label :: "teardown_kind \<Rightarrow> str" where
  "teardown_label TeardownSession = ''session''"
| "teardown_label TeardownOrphan = ''orphan''"

datatype orphan_protocol = OrphanPostgres | OrphanMysql

fun orphan_label :: "orphan_protocol \<Rightarrow> str" where
  "orphan_label OrphanPostgres = ''postgres''"
| "orphan_label OrphanMysql = ''mysql''"

text \<open>An update of a metric, with the labels and the value the method passes on.\<close>

datatype metric =
    SmokeRun str str
  | SessionStarted str str
  | SessionActive str int
  | ActionDuration str str str nat
  | ActionError str str str
  | TeardownDuration str nat
  | OrphanReaped str

definition record_smoke_run :: "str \<Rightarrow> bool \<Rightarrow> metric" where
  "record_smoke_run scenario ok = SmokeRun scenario (if ok then ''ok'' else ''error'')"

definition set_session_active :: "str \<Rightarrow> int \<Rightarrow> metric" where
  "set_session_active tenant val = SessionActive tenant val"

definition record_orphan_reaped :: "orphan_protocol \<Rightarrow> metric" where
  "record_orphan_reaped protocol = OrphanReaped (orphan_label protocol)"

definition record_session_start :: "str \<Rightarrow> session_start_outcome \<Rightarrow> metric" where
  "record_session_start scenario outcome = SessionStarted scenario (session_start_label outcome)"

definition observe_action_duration :: "str \<Rightarrow> str \<Rightarrow> action_outcome_kind \<Rightarrow> nat \<Rightarrow> metric" where
  "observe_action_duration scenario action outcome duration =
     ActionDuration scenario action (action_outcome_label outcome) duration"

definition record_action_error :: "str \<Rightarrow> str \<Rightarrow> action_error_kind \<Rightarrow> metric" where
  "record_action_error scenario action kind = ActionError scenario action (action_error_label kind)"

definition observe_teardown :: "teardown_kind \<Rightarrow> nat \<Rightarrow> metric" where
  "observe_teardown kind duration = TeardownDuration (teardown_label kind) duration"

subsection \<open>Registration\<close>

text \<open>The families of \<open>PlaygroundMetrics::new\<close> in the order they are registered, each with its labels.\<close>

definition families :: "(str \<times> str list) list" where
  "families =
     [(''datashuttle_playground_session_started_total'', [''scenario'', ''outcome'']),
      (''datashuttle_playground_session_active'', [''tenant'']),
      (''datashuttle_playground_action_duration_seconds'', [''scenario'', ''action'', ''outcome'']),
      (''datashuttle_playground_action_error_total'', [''scenario'', ''action'', ''error_kind'']),
      (''datashuttle_playground_teardown_duration_seconds'', [''kind'']),
      (''datashuttle_playground_orphan_resources_reaped_total'', [''protocol'']),
      (''datashuttle_playground_smoke_run_total'', [''scenario'', ''result''])]"

text \<open>A registry refuses a name it already has.\<close>

fun metrics_new :: "str list \<Rightarrow> (str \<times> str list) list \<Rightarrow> (str, str list) result" where
  "metrics_new registry [] = Inr registry"
| "metrics_new registry ((name, labels) # fams) =
     (if name \<in> set registry then Inl ''Duplicate metrics collector registration attempted''
      else metrics_new (registry @ [name]) fams)"

text \<open>The family an update goes to, and its label values in order.\<close>

fun series_of :: "metric \<Rightarrow> str \<times> str list" where
  "series_of (SmokeRun scenario result) = (''datashuttle_playground_smoke_run_total'', [scenario, result])"
| "series_of (SessionStarted scenario outcome) = (''datashuttle_playground_session_started_total'', [scenario, outcome])"
| "series_of (SessionActive tenant _) = (''datashuttle_playground_session_active'', [tenant])"
| "series_of (ActionDuration scenario action outcome _) =
     (''datashuttle_playground_action_duration_seconds'', [scenario, action, outcome])"
| "series_of (ActionError scenario action kind) = (''datashuttle_playground_action_error_total'', [scenario, action, kind])"
| "series_of (TeardownDuration kind _) = (''datashuttle_playground_teardown_duration_seconds'', [kind])"
| "series_of (OrphanReaped protocol) = (''datashuttle_playground_orphan_resources_reaped_total'', [protocol])"

subsection \<open>Properties\<close>

lemma metrics_new_ok:
  "is_ok (metrics_new registry fams) \<longleftrightarrow>
     distinct (map fst fams) \<and> set registry \<inter> set (map fst fams) = {}"
  by (induction registry fams rule: metrics_new.induct) auto

text \<open>Metric updates cannot panic. The seven families have different names, so registering them in a
  registry fails exactly when one of the names is taken, and every update goes to a registered
  family with as many label values as the family has labels, which is what \<open>with_label_values\<close>
  panics about otherwise.\<close>

theorem metric_labels_match:
  "(is_ok (metrics_new registry families) \<longleftrightarrow> set registry \<inter> set (map fst families) = {}) \<and>
   (\<exists>labels. map_of families (fst (series_of m)) = Some labels \<and> length labels = length (snd (series_of m)))"
proof
  have "distinct (map fst families)" by (simp add: families_def)
  then show "is_ok (metrics_new registry families) \<longleftrightarrow> set registry \<inter> set (map fst families) = {}"
    by (simp only: metrics_new_ok simp_thms)
  show "\<exists>labels. map_of families (fst (series_of m)) = Some labels \<and> length labels = length (snd (series_of m))"
    by (cases m) (simp_all add: families_def)
qed

lemma inj_action_error_label: "inj action_error_label"
proof (rule injI)
  fix a b
  show "action_error_label a = action_error_label b \<Longrightarrow> a = b" by (cases a; cases b) simp_all
qed

lemma contains_in_prefix: "contains a w \<Longrightarrow> contains (a @ t) w"
  unfolding contains_iff by (meson sublist_append_rightI sublist_order.order_trans)

text \<open>The error kinds of the two mappings. The label texts are pairwise different, so a kind is
  one series. The text of a duplicate-key error always maps to the duplicate-key kind, as
  the error itself does, given that lower-casing keeps an ASCII beginning of a text in
  place. But no text at all maps to the protocol kind: the handlers, which map texts, never
  report the protocol errors of the dispatcher under their own label.\<close>

theorem error_kinds_of_messages:
  assumes lower: "\<And>a m. list_all (\<lambda>c. (of_char c :: nat) < 128) a \<Longrightarrow>
                    \<exists>t. to_lowercase (a @ m) = to_ascii_lowercase a @ t"
  shows "inj action_error_label \<and>
         from_message to_lowercase (dispatch_error_display (DDuplicateKey m)) =
           from_dispatch_error (DDuplicateKey m) \<and>
         from_message to_lowercase msg \<noteq> KProtocol"
proof -
  have "list_all (\<lambda>c. (of_char c :: nat) < 128) ''duplicate key: ''" by simp
  then obtain t where "to_lowercase (''duplicate key: '' @ m) = to_ascii_lowercase ''duplicate key: '' @ t"
    using lower by blast
  moreover have "contains (to_ascii_lowercase ''duplicate key: '') ''duplicate''" by code_simp
  ultimately have "contains (to_lowercase (''duplicate key: '' @ m)) ''duplicate''"
    using contains_in_prefix by simp
  then have "from_message to_lowercase (dispatch_error_display (DDuplicateKey m)) = KDuplicateKey"
    by (simp add: from_message_def)
  moreover have "from_message to_lowercase msg \<noteq> KProtocol"
    by (simp add: from_message_def Let_def)
  ultimately show ?thesis by (simp add: inj_action_error_label)
qed

theorem error_kinds_of_messages_witness:
  "from_message to_ascii_lowercase (dispatch_error_display (DDuplicateKey ''k=1'')) = KDuplicateKey \<and>
   from_message to_ascii_lowercase (dispatch_error_display (DProtocol ''[XX000] oops'')) \<noteq> KProtocol"
proof -
  have "\<exists>t. to_ascii_lowercase (a @ m) = to_ascii_lowercase a @ t" for a m
    by (simp add: to_ascii_lowercase_def)
  then show ?thesis using error_kinds_of_messages [of to_ascii_lowercase] by simp
qed

end
