(* ===== verification/World.thy ===== *)
theory World
  imports Session_Machine Quota Gateway Metrics "HOL-Library.State_Monad" "HOL-Library.Monad_Syntax"
begin

text \<open>
  The world the handlers act on. Its state is the session store, the quota tracker, the
  connections the dispatcher has opened, the log of every call that left the process (in
  order) and the log of metric updates. What the outside answers is the record \<open>outside\<close>: functions of
  the calls made before and of the call itself, so that any behaviour of the databases, of
  the API and of the processes is one such record.

  A handler is a computation in the state monad. Each use of the session manager is one
  step: first the other requests running at the same time may have changed the store in any
  way (\<open>ox_others\<close>), then the operation runs on it with its own clock readings. The counter
  \<open>w_tick\<close> numbers these steps.
\<close>

subsection \<open>Calls and answers\<close>

datatype http_body = NoBody | JsonBody json | RawBody str

record http_call =
  hc_method :: str
  hc_url :: str
  hc_bearer :: "str option"
  hc_basic :: "(str \<times> str) option"
  hc_headers :: "(str \<times> str) list"
  hc_body :: http_body

record reqwest_error =
  re_timeout :: bool
  re_connect :: bool
  re_text :: str

datatype pg_error = PgDatabase "str option" str | PgIo str | PgPoolTimedOut | PgPoolClosed | PgOther str

datatype mysql_error = MyServer nat str | MyDriver str | MyIo str | MyUrl str | MyOther str

datatype redis_kind =
  AuthenticationFailed | IoError | ClientError | TypeError | ResponseError | ExtensionError | OtherKind

type_synonym redis_error = "redis_kind \<times> str"

text \<open>The two output streams as \<open>String::from_utf8_lossy\<close> gives them.\<close>

record process_output =
  po_success :: bool
  po_status :: str
  po_stdout :: str
  po_stderr :: str

datatype event =
    EHttp http_call
  | EProcess str "str list"
  | EPgConnect str
  | EPgBegin
  | EPgExec str
  | EPgRaw str
  | EPgCommit
  | EPgFetch str
  | EMyConn
  | EMyQuery str
  | EMyFetch str
  | ERedisConn
  | ERedisCmd "str list"

text \<open>
  It also holds what the code takes from its environment: variables, files of the
  image, clocks, fresh ids, and the functions of third-party crates (serde_json, base64,
  SHA-256) and of the Unicode tables.
\<close>

record outside =
  ox_env :: env
  ox_exists :: "str \<Rightarrow> bool"
  ox_read :: "str \<Rightarrow> (str, str) result"
  ox_read_bytes :: "str \<Rightarrow> (str, str) result"
  ox_http :: "event list \<Rightarrow> http_call \<Rightarrow> (reqwest_error, nat \<times> (str, str) result) result"
  ox_client_build :: "nat \<Rightarrow> str option"
  ox_process :: "event list \<Rightarrow> str \<Rightarrow> str list \<Rightarrow> (str, process_output) result"
  ox_pg :: "event list \<Rightarrow> event \<Rightarrow> pg_error option"
  ox_pg_rows :: "event list \<Rightarrow> str \<Rightarrow> nat list \<times> pg_error option"
  ox_pg_fetch :: "event list \<Rightarrow> str \<Rightarrow> (pg_error, str option list) result"
  ox_my :: "event list \<Rightarrow> event \<Rightarrow> mysql_error option"
  ox_my_affected :: "event list \<Rightarrow> nat"
  ox_my_fetch :: "event list \<Rightarrow> str \<Rightarrow> (mysql_error, str list) result"
  ox_redis_open :: "str \<Rightarrow> str option"
  ox_redis_conn :: "event list \<Rightarrow> redis_error option"
  ox_redis :: "event list \<Rightarrow> str list \<Rightarrow> (redis_error, str) result"
  ox_redis_scan :: "event list \<Rightarrow> str \<Rightarrow> (redis_error, nat \<times> str list) result list"
  ox_from_str :: "str \<Rightarrow> json option"
  ox_to_string :: "json \<Rightarrow> str"
  ox_method_error :: "str \<Rightarrow> str option"
  ox_status_text :: "nat \<Rightarrow> str"
  ox_base64 :: "str \<Rightarrow> str"
  ox_upper :: "str \<Rightarrow> str"
  ox_lower :: "str \<Rightarrow> str"
  ox_sha256 :: "str \<Rightarrow> u8 list"
  ox_uuid :: "nat \<Rightarrow> uuid"
  ox_clock :: "nat \<Rightarrow> nat \<Rightarrow> clock"
  ox_persist :: "nat \<Rightarrow> persist_env"
  ox_others :: "nat \<Rightarrow> store \<Rightarrow> store"

subsection \<open>State\<close>

record clickhouse_config =
  ch_base_url :: str
  ch_user :: str
  ch_password :: str
  ch_default_db :: str

record redis_config =
  rc_password :: str
  rc_url :: str

text \<open>The connections of \<open>TcpPlaygroundDispatcher\<close>, each opened on first use.\<close>

record pools =
  pl_pg :: "str option"
  pl_mysql :: bool
  pl_clickhouse :: "clickhouse_config option"
  pl_redis :: "redis_config option"

record world =
  w_store :: store
  w_quota :: quota_tracker
  w_pools :: pools
  w_log :: "event list"
  w_metrics :: "metric list"
  w_tick :: nat

type_synonym 'a act = "(world, 'a) state"

abbreviation ret :: "'a \<Rightarrow> 'a act" where
  "ret \<equiv> State_Monad.return"

text \<open>The question-mark operator inside a handler.\<close>

definition attempt :: "('e, 'a) result act \<Rightarrow> ('a \<Rightarrow> ('e, 'b) result act) \<Rightarrow> ('e, 'b) result act" where
  "attempt m f = do { r \<leftarrow> m; (case r of Inl e \<Rightarrow> ret (Inl e) | Inr x \<Rightarrow> f x) }"

definition gets :: "(world \<Rightarrow> 'a) \<Rightarrow> 'a act" where
  "gets f = State (\<lambda>w. (f w, w))"

text \<open>A call that leaves the process: the answer depends on the calls before it.\<close>

definition perform :: "event \<Rightarrow> (event list \<Rightarrow> 'a) \<Rightarrow> 'a act" where
  "perform e answer = State (\<lambda>w. (answer (w_log w), w\<lparr>w_log := w_log w @ [e]\<rparr>))"

definition metric_update :: "metric \<Rightarrow> unit act" where
  "metric_update m = State (\<lambda>w. ((), w\<lparr>w_metrics := w_metrics w @ [m]\<rparr>))"

text \<open>One step on the session store.\<close>

definition mgr_op :: "outside \<Rightarrow> (nat \<Rightarrow> store \<Rightarrow> 'a \<times> store) \<Rightarrow> 'a act" where
  "mgr_op ox f =
     State (\<lambda>w. let (x, st) = f (w_tick w) (ox_others ox (w_tick w) (w_store w))
                in (x, w\<lparr>w_store := st, w_tick := Suc (w_tick w)\<rparr>))"

definition read_clock :: "outside \<Rightarrow> clock act" where
  "read_clock ox = State (\<lambda>w. (ox_clock ox (w_tick w) 0, w\<lparr>w_tick := Suc (w_tick w)\<rparr>))"

subsection \<open>The session manager in the world\<close>

definition mgr_create ::
    "outside \<Rightarrow> str \<Rightarrow> str option \<Rightarrow> str \<Rightarrow> duration option \<Rightarrow> (session_error, session) result act" where
  "mgr_create ox user_id tenant_id scenario_id ttl =
     mgr_op ox (\<lambda>n. create (ox_sha256 ox) (ox_persist ox n) (ox_clock ox n 0) (ox_clock ox n 1) (ox_uuid ox n)
                      user_id tenant_id scenario_id ttl)"

definition mgr_get :: "outside \<Rightarrow> uuid \<Rightarrow> str \<Rightarrow> (session_error, session) result act" where
  "mgr_get ox i user_id = mgr_op ox (\<lambda>n st. (get (fst st) i user_id, st))"

definition mgr_update ::
    "outside \<Rightarrow> uuid \<Rightarrow> str \<Rightarrow> (clock \<Rightarrow> clock \<Rightarrow> session \<Rightarrow> 'r outcome \<times> session) \<Rightarrow>
       (session_error, 'r) result outcome act" where
  "mgr_update ox i user_id f =
     mgr_op ox (\<lambda>n. update (ox_persist ox n) i user_id (f (ox_clock ox n 0) (ox_clock ox n 1)))"

text \<open>\<open>update\<close> with a closure that cannot panic.\<close>

definition mgr_note ::
    "outside \<Rightarrow> uuid \<Rightarrow> str \<Rightarrow> (utc_time \<Rightarrow> session \<Rightarrow> session) \<Rightarrow> (session_error, unit) result act" where
  "mgr_note ox i user_id f =
     mgr_op ox (\<lambda>n st.
       (case update (ox_persist ox n) i user_id (\<lambda>s. (Returns (), f (utc (ox_clock ox n 0)) s)) st of
          (Returns r, st') \<Rightarrow> (r, st')
        | (Panics, st') \<Rightarrow> (Inr (), st')))"

definition mgr_end :: "outside \<Rightarrow> uuid \<Rightarrow> str \<Rightarrow> (session_error, session) result act" where
  "mgr_end ox i user_id = mgr_op ox (\<lambda>n. end_session_of (ox_persist ox n) i user_id)"

definition mgr_touch :: "outside \<Rightarrow> uuid \<Rightarrow> str \<Rightarrow> (session_error, unit) result act" where
  "mgr_touch ox i user_id =
     mgr_op ox (\<lambda>n st. (case touch_action (mono (ox_clock ox n 0)) (mono (ox_clock ox n 1)) i user_id (fst st) of
                          (r, m) \<Rightarrow> (r, (m, snd st))))"

definition mgr_sweep :: "outside \<Rightarrow> session list act" where
  "mgr_sweep ox = mgr_op ox (\<lambda>n. sweep_expired (ox_persist ox n) (\<lambda>i. ox_clock ox n (unat i)))"

definition mgr_user_session :: "outside \<Rightarrow> str \<Rightarrow> session option act" where
  "mgr_user_session ox user_id =
     do { ptr \<leftarrow> mgr_op ox (\<lambda>n st. (hm_get (sm_per_user (fst st)) user_id, st));
          (case ptr of
             None \<Rightarrow> ret None
           | Some i \<Rightarrow> mgr_op ox (\<lambda>n st. (hm_get (sm_sessions (fst st)) i, st))) }"

definition quota_consume :: "outside \<Rightarrow> str option \<Rightarrow> (quota_error, u32) result act" where
  "quota_consume ox tenant =
     State (\<lambda>w. let (r, q) = try_consume_at (w_quota w) tenant (utc (ox_clock ox (w_tick w) 0))
                in (r, w\<lparr>w_quota := q, w_tick := Suc (w_tick w)\<rparr>))"

subsection \<open>Reasoning about computations\<close>

text \<open>What a computation adds to the log of calls.\<close>

definition calls :: "'a act \<Rightarrow> world \<Rightarrow> event list" where
  "calls m w = drop (length (w_log w)) (w_log (snd (run_state m w)))"

lemma run_attempt [simp]:
  "run_state (attempt m f) w =
     (case run_state m w of (Inl e, w') \<Rightarrow> (Inl e, w') | (Inr x, w') \<Rightarrow> run_state (f x) w')"
  by (simp add: attempt_def split: prod.split sum.split)

lemma run_gets [simp]: "run_state (gets f) w = (f w, w)"
  by (simp add: gets_def)

lemma run_perform [simp]: "run_state (perform e f) w = (f (w_log w), w\<lparr>w_log := w_log w @ [e]\<rparr>)"
  by (simp add: perform_def)

lemma run_metric_update [simp]:
  "run_state (metric_update m) w = ((), w\<lparr>w_metrics := w_metrics w @ [m]\<rparr>)"
  by (simp add: metric_update_def)

text \<open>Post-processing a result touches nothing.\<close>

lemma snd_run_bind_ret [simp]:
  "snd (run_state (State_Monad.bind m (\<lambda>r. ret (f r))) w) = snd (run_state m w)"
  by (simp split: prod.split)

lemma fst_run_bind_ret [simp]:
  "fst (run_state (State_Monad.bind m (\<lambda>r. ret (f r))) w) = f (fst (run_state m w))"
  by (simp split: prod.split)

subsection \<open>Which calls a computation makes\<close>

text \<open>
  \<open>sends P m\<close>: whatever the world answers, \<open>m\<close> appends to the log, and only calls that satisfy \<open>P\<close>.
  \<open>trace P m w es\<close>: started in \<open>w\<close>, \<open>m\<close> appends to the log, and the calls among them that satisfy \<open>P\<close>
  are \<open>es\<close>, in this order. The rules follow the structure of a computation.
\<close>

definition sends :: "(event \<Rightarrow> bool) \<Rightarrow> 'a act \<Rightarrow> bool" where
  "sends P m \<longleftrightarrow> (\<forall>w. \<exists>es. w_log (snd (run_state m w)) = w_log w @ es \<and> list_all P es)"

definition trace :: "(event \<Rightarrow> bool) \<Rightarrow> 'a act \<Rightarrow> world \<Rightarrow> event list \<Rightarrow> bool" where
  "trace P m w es \<longleftrightarrow> (\<exists>ds. w_log (snd (run_state m w)) = w_log w @ ds \<and> filter P ds = es)"

named_theorems sends_intro \<open>which calls a computation makes, by its structure\<close>

lemma sendsI: "(\<And>w. \<exists>es. w_log (snd (run_state m w)) = w_log w @ es \<and> list_all P es) \<Longrightarrow> sends P m"
  by (simp add: sends_def)

lemma sendsE:
  assumes "sends P m"
  obtains es where "w_log (snd (run_state m w)) = w_log w @ es" "list_all P es"
  using assms unfolding sends_def by blast

lemma sends_ret [sends_intro]: "sends P (ret x)"
  by (simp add: sends_def)

lemma sends_gets [sends_intro]: "sends P (gets f)"
  by (simp add: sends_def)

lemma sends_perform [sends_intro]: "P e \<Longrightarrow> sends P (perform e f)"
  by (simp add: sends_def)

lemma sends_metric [sends_intro]: "sends P (metric_update m)"
  by (simp add: sends_def)

lemma sends_read_clock [sends_intro]: "sends P (read_clock ox)"
  by (simp add: sends_def read_clock_def)

lemma sends_mgr_op [sends_intro]: "sends P (mgr_op ox f)"
  by (simp add: sends_def mgr_op_def split: prod.split)

lemma sends_bind [sends_intro]:
  assumes "sends P m" and "\<And>x. sends P (f x)"
  shows "sends P (State_Monad.bind m f)"
proof (rule sendsI)
  fix w
  obtain x w1 where run: "run_state m w = (x, w1)" by fastforce
  obtain es where "w_log w1 = w_log w @ es" "list_all P es"
    using sendsE [OF assms(1), of w] run by auto
  moreover obtain fs where "w_log (snd (run_state (f x) w1)) = w_log w1 @ fs" "list_all P fs"
    using sendsE [OF assms(2)] by blast
  ultimately show "\<exists>es. w_log (snd (run_state (State_Monad.bind m f) w)) = w_log w @ es \<and> list_all P es"
    using run by simp
qed

lemma sends_bind_gets: "(\<And>w. sends P (g (f w))) \<Longrightarrow> sends P (State_Monad.bind (gets f) g)"
  by (simp add: sends_def)

lemma sends_attempt [sends_intro]:
  "sends P m \<Longrightarrow> (\<And>x. sends P (f x)) \<Longrightarrow> sends P (attempt m f)"
  unfolding attempt_def by (intro sends_bind) (auto intro: sends_ret split: sum.split)

lemma sends_if [sends_intro]:
  "(b \<Longrightarrow> sends P m) \<Longrightarrow> (\<not> b \<Longrightarrow> sends P n) \<Longrightarrow> sends P (if b then m else n)"
  by simp

lemma sends_mono: "sends P m \<Longrightarrow> (\<And>e. P e \<Longrightarrow> Q e) \<Longrightarrow> sends Q m"
  unfolding sends_def by (metis list.pred_mono_strong)

lemma sends_world:
  assumes "\<And>w. w_log (snd (run_state m w)) = w_log w"
  shows "sends P m"
  using assms by (simp add: sends_def)

lemma trace_bind:
  assumes "trace P m w es" and "trace P (f (fst (run_state m w))) (snd (run_state m w)) fs"
  shows "trace P (State_Monad.bind m f) w (es @ fs)"
proof -
  obtain x w1 where "run_state m w = (x, w1)" by fastforce
  with assms show ?thesis by (fastforce simp: trace_def)
qed

lemma trace_quiet: "sends (\<lambda>e. \<not> P e) m \<Longrightarrow> trace P m w []"
  unfolding sends_def trace_def by (metis filter_False list_all_iff)

lemma trace_first:
  assumes "sends (\<lambda>e. \<not> P e) m" and "trace P (f (fst (run_state m w))) (snd (run_state m w)) fs"
  shows "trace P (State_Monad.bind m f) w fs"
  using trace_bind [of P m w "[]" f fs] trace_quiet [OF assms(1)] assms(2) by simp

subsection \<open>A concrete world\<close>

definition demo_outside :: outside where
  "demo_outside =
     \<lparr>ox_env = (\<lambda>_. None), ox_exists = (\<lambda>_. False), ox_read = (\<lambda>_. Inl ''No such file''),
      ox_read_bytes = (\<lambda>_. Inl ''No such file''),
      ox_http = (\<lambda>_ _. Inr (200, Inr ''{}'')), ox_client_build = (\<lambda>_. None),
      ox_process = (\<lambda>_ _ _. Inl ''not found''),
      ox_pg = (\<lambda>_ _. None), ox_pg_rows = (\<lambda>_ _. ([], None)), ox_pg_fetch = (\<lambda>_ _. Inr []),
      ox_my = (\<lambda>_ _. None), ox_my_affected = (\<lambda>_. 0), ox_my_fetch = (\<lambda>_ _. Inr []),
      ox_redis_open = (\<lambda>_. None), ox_redis_conn = (\<lambda>_. None), ox_redis = (\<lambda>_ _. Inr ''Ok''),
      ox_redis_scan = (\<lambda>_ _. [Inr (0, [])]),
      ox_from_str = (\<lambda>_. Some JNull), ox_to_string = (\<lambda>_. ''null''), ox_method_error = (\<lambda>_. None),
      ox_status_text = show_nat, ox_base64 = (\<lambda>s. s), ox_upper = to_ascii_uppercase,
      ox_lower = to_ascii_lowercase, ox_sha256 = demo_sha, ox_uuid = (\<lambda>n. of_nat n),
      ox_clock = (\<lambda>_ _. demo_clock), ox_persist = (\<lambda>_. demo_persist), ox_others = (\<lambda>_ st. st)\<rparr>"

definition demo_world :: world where
  "demo_world = \<lparr>w_store = (demo_manager, Map.empty), w_quota = quota_new,
     w_pools = \<lparr>pl_pg = None, pl_mysql = False, pl_clickhouse = None, pl_redis = None\<rparr>,
     w_log = [], w_metrics = [], w_tick = 0\<rparr>"

end
