(* ===== verification/Splitters.thy ===== *)
theory Splitters
  imports Rust_Text
begin

text \<open>
  The three hand-written scanners of the server: \<open>split_ds_sql_statements\<close>
  (\<^verbatim>\<open>handlers.rs\<close>), \<open>split_clickhouse_statements\<close> and \<open>tokenize_redis_line\<close>
  (\<^verbatim>\<open>dispatcher.rs\<close>). Each is the source's loop with its flags and its buffers; the
  bytes of a text stand for its characters, as every character the loops test is ASCII.

  The reference is a scanner automaton that reads one character at a time and a generic
  cut of a text at the separators the automaton sees (\<open>cut_at\<close>). The lemmas show that the
  loops cut exactly there, and that a cut loses nothing.
\<close>

subsection \<open>Cutting a text with an automaton\<close>

fun glue :: "char \<Rightarrow> str list \<Rightarrow> str list" where
  "glue c [] = [[c]]"
| "glue c (p # ps) = (c # p) # ps"

fun cut_at :: "('q \<Rightarrow> char \<Rightarrow> 'q) \<Rightarrow> ('q \<Rightarrow> bool) \<Rightarrow> char \<Rightarrow> 'q \<Rightarrow> str \<Rightarrow> str list" where
  "cut_at step open d q [] = [[]]"
| "cut_at step open d q (c # cs) =
     (if c = d \<and> open q then [] # cut_at step open d (step q c) cs
      else glue c (cut_at step open d (step q c) cs))"

fun prepend :: "str \<Rightarrow> str list \<Rightarrow> str list" where
  "prepend s [] = [s]"
| "prepend s (p # ps) = (s @ p) # ps"

lemma cut_at_Nil [simp]: "cut_at step open d q s \<noteq> []"
proof (cases s)
  case (Cons c cs)
  then show ?thesis by (cases "cut_at step open d (step q c) cs") auto
qed simp

lemma prepend_glue [simp]: "prepend s (glue c ps) = prepend (s @ [c]) ps"
  by (cases ps) simp_all

lemma prepend_Nil: "ps \<noteq> [] \<Longrightarrow> prepend [] ps = ps"
  by (cases ps) simp_all

lemma prepend_cut_at [simp]: "prepend [] (cut_at step open d q s) = cut_at step open d q s"
  by (rule prepend_Nil) simp

lemma join_glue: "ps \<noteq> [] \<Longrightarrow> join d (glue c ps) = c # join d ps"
  by (cases ps; cases "tl ps") auto

lemma join_cut_at: "join d (cut_at step open d q s) = s"
  by (induction s arbitrary: q) (simp_all add: join_glue join_Cons)

subsection \<open>The DataShuttle splitter\<close>

definition push_stmt :: "str \<Rightarrow> str list \<Rightarrow> str list" where
  "push_stmt cur out = (let trimmed = trim cur in if trimmed \<noteq> [] then out @ [trimmed] else out)"

fun split_ds :: "bool \<Rightarrow> bool \<Rightarrow> str \<Rightarrow> str list \<Rightarrow> str \<Rightarrow> str list" where
  "split_ds in_string in_line_comment cur out [] = push_stmt cur out"
| "split_ds in_string in_line_comment cur out (ch # rest) =
     (if in_line_comment then split_ds in_string (ch \<noteq> CHR 0x0A) (cur @ [ch]) out rest
      else if \<not> in_string \<and> ch = CHR ''-'' \<and> take 1 rest = ''-''
      then split_ds in_string True (cur @ ''--'') out (drop 1 rest)
      else if ch = CHR 0x27
      then if in_string \<and> take 1 rest = [CHR 0x27]
           then split_ds in_string False (cur @ [ch, CHR 0x27]) out (drop 1 rest)
           else split_ds (\<not> in_string) False (cur @ [ch]) out rest
      else if ch = CHR '';'' \<and> \<not> in_string
      then split_ds in_string False [] (push_stmt cur out) rest
      else split_ds in_string False (cur @ [ch]) out rest)"

definition split_ds_sql_statements :: "str \<Rightarrow> str list" where
  "split_ds_sql_statements sql = split_ds False False [] [] sql"

datatype ds_state = Code | Dash | Str | Comment

fun ds_step :: "ds_state \<Rightarrow> char \<Rightarrow> ds_state" where
  "ds_step Str c = (if c = CHR 0x27 then Code else Str)"
| "ds_step Comment c = (if c = CHR 0x0A then Code else Comment)"
| "ds_step Code c = (if c = CHR 0x27 then Str else if c = CHR ''-'' then Dash else Code)"
| "ds_step Dash c = (if c = CHR ''-'' then Comment else if c = CHR 0x27 then Str else Code)"

abbreviation ds_open :: "ds_state \<Rightarrow> bool" where
  "ds_open q \<equiv> q = Code \<or> q = Dash"

abbreviation ds_cut :: "ds_state \<Rightarrow> str \<Rightarrow> str list" where
  "ds_cut \<equiv> cut_at ds_step ds_open (CHR '';'')"

definition statements :: "str list \<Rightarrow> str list" where
  "statements ps = filter (\<lambda>t. t \<noteq> []) (map trim ps)"

lemma push_stmt_statements: "push_stmt cur out = out @ statements [cur]"
  by (simp add: push_stmt_def statements_def Let_def)

lemma ds_cut_Dash: "take 1 s \<noteq> ''-'' \<Longrightarrow> ds_cut Dash s = ds_cut Code s"
  by (cases s) auto

lemma split_ds_cut:
  "split_ds ins inc cur out s =
     out @ statements (prepend cur (ds_cut (if inc then Comment else if ins then Str else Code) s))"
  if "\<not> (ins \<and> inc)"
  using that
proof (induction ins inc cur out s rule: split_ds.induct)
  case (1 ins inc cur out)
  then show ?case by (simp add: push_stmt_statements)
next
  case (2 ins inc cur out ch rest)
  consider (comment) "inc" "\<not> ins"
    | (dashes) "\<not> inc" "\<not> ins" "ch = CHR ''-''" "take 1 rest = ''-''"
    | (dash) "\<not> inc" "\<not> ins" "ch = CHR ''-''" "take 1 rest \<noteq> ''-''"
    | (escape) "\<not> inc" "ins" "ch = CHR 0x27" "take 1 rest = [CHR 0x27]"
    | (quote) "\<not> inc" "ch = CHR 0x27" "\<not> (ins \<and> take 1 rest = [CHR 0x27])"
    | (semi) "\<not> inc" "\<not> ins" "ch = CHR '';''"
    | (other) "\<not> inc" "ch \<noteq> CHR 0x27" "ins \<or> ch \<noteq> CHR '';'' \<and> ch \<noteq> CHR ''-''"
    using "2.prems" by blast
  then show ?case
  proof cases
    case comment
    then show ?thesis using "2.IH"(1) by simp
  next
    case dashes
    then obtain r where "rest = CHR ''-'' # r" by (cases rest) auto
    then show ?thesis using dashes "2.IH"(2) by simp
  next
    case dash
    then show ?thesis using "2.IH"(6) by (simp add: ds_cut_Dash)
  next
    case escape
    then obtain r where "rest = CHR 0x27 # r" by (cases rest) auto
    then show ?thesis using escape "2.IH"(3) by simp
  next
    case quote
    then show ?thesis using "2.IH"(4) by (cases ins) simp_all
  next
    case semi
    then show ?thesis
      using "2.IH"(5) by (simp add: push_stmt_statements statements_def)
  next
    case other
    then show ?thesis using "2.IH"(6) by (cases ins) simp_all
  qed
qed

subsection \<open>The ClickHouse splitter\<close>

text \<open>
  The loop reads bytes and pushes \<open>bytes[i] as char\<close>: the character whose code point is the
  byte, which a \<open>String\<close> stores in one byte below 128 and in two from there on.
\<close>

definition push_byte :: "char \<Rightarrow> str" where
  "push_byte c =
     (let n = of_char c :: nat
      in if n < 128 then [c] else [char_of (192 + n div 64), char_of (128 + n mod 64)])"

definition ch_encode :: "str \<Rightarrow> str" where
  "ch_encode p = concat (map push_byte p)"

lemma ch_encode_Nil [simp]: "ch_encode [] = []"
  by (simp add: ch_encode_def)

function split_ch :: "bool \<Rightarrow> bool \<Rightarrow> str \<Rightarrow> str list \<Rightarrow> str \<Rightarrow> str list" where
  "split_ch in_single in_double current out [] = push_stmt current out"
| "split_ch in_single in_double current out (c # rest) =
     (if \<not> in_single \<and> \<not> in_double \<and> c = CHR ''-'' \<and> take 1 rest = ''-''
      then split_ch in_single in_double
             (current @ ch_encode (takeWhile (\<lambda>b. b \<noteq> CHR 0x0A) (c # rest))) out
             (dropWhile (\<lambda>b. b \<noteq> CHR 0x0A) rest)
      else if c = CHR 0x27 \<and> \<not> in_double
      then split_ch (\<not> in_single) in_double (current @ push_byte c) out rest
      else if c = CHR 0x22 \<and> \<not> in_single
      then split_ch in_single (\<not> in_double) (current @ push_byte c) out rest
      else if c = CHR '';'' \<and> \<not> in_single \<and> \<not> in_double
      then split_ch in_single in_double [] (push_stmt current out) rest
      else split_ch in_single in_double (current @ push_byte c) out rest)"
  by pat_completeness auto
termination
  by (relation "measure (\<lambda>(_, _, _, _, s). length s)") (auto simp: le_imp_less_Suc length_dropWhile_le)

definition split_clickhouse_statements :: "str \<Rightarrow> str list" where
  "split_clickhouse_statements sql = split_ch False False [] [] sql"

datatype ch_state = ChCode | ChDash | Single | Double | ChComment

fun ch_step :: "ch_state \<Rightarrow> char \<Rightarrow> ch_state" where
  "ch_step Single c = (if c = CHR 0x27 then ChCode else Single)"
| "ch_step Double c = (if c = CHR 0x22 then ChCode else Double)"
| "ch_step ChComment c = (if c = CHR 0x0A then ChCode else ChComment)"
| "ch_step ChCode c =
     (if c = CHR 0x27 then Single else if c = CHR 0x22 then Double
      else if c = CHR ''-'' then ChDash else ChCode)"
| "ch_step ChDash c =
     (if c = CHR ''-'' then ChComment else if c = CHR 0x27 then Single
      else if c = CHR 0x22 then Double else ChCode)"

abbreviation ch_open :: "ch_state \<Rightarrow> bool" where
  "ch_open q \<equiv> q = ChCode \<or> q = ChDash"

abbreviation ch_cut :: "ch_state \<Rightarrow> str \<Rightarrow> str list" where
  "ch_cut \<equiv> cut_at ch_step ch_open (CHR '';'')"

fun prepend_encoded :: "str \<Rightarrow> str list \<Rightarrow> str list" where
  "prepend_encoded s [] = [s]"
| "prepend_encoded s (p # ps) = (s @ ch_encode p) # map ch_encode ps"

lemma prepend_encoded_glue [simp]: "prepend_encoded s (glue c ps) = prepend_encoded (s @ push_byte c) ps"
  by (cases ps) (simp_all add: ch_encode_def)

lemma prepend_encoded_Nil [simp]: "prepend_encoded [] (cut_at f g d q s) = map ch_encode (cut_at f g d q s)"
  by (cases "cut_at f g d q s") simp_all

lemma ch_cut_Dash: "take 1 s \<noteq> ''-'' \<Longrightarrow> ch_cut ChDash s = ch_cut ChCode s"
  by (cases s) auto

lemma ch_cut_comment:
  "prepend_encoded s (ch_cut ChComment t) =
     prepend_encoded (s @ ch_encode (takeWhile (\<lambda>b. b \<noteq> CHR 0x0A) t))
       (ch_cut ChCode (dropWhile (\<lambda>b. b \<noteq> CHR 0x0A) t))"
proof (induction t arbitrary: s)
  case Nil
  then show ?case by (simp add: ch_encode_def)
next
  case (Cons c t)
  then show ?case by (cases "c = CHR 0x0A") (simp_all add: ch_encode_def)
qed

lemma split_ch_cut:
  "split_ch sgl dbl cur out s =
     out @ statements (prepend_encoded cur (ch_cut (if sgl then Single else if dbl then Double else ChCode) s))"
  if "\<not> (sgl \<and> dbl)"
  using that
proof (induction sgl dbl cur out s rule: split_ch.induct)
  case (1 sgl dbl cur out)
  then show ?case by (simp add: push_stmt_statements ch_encode_def)
next
  case (2 sgl dbl cur out c rest)
  consider (dashes) "\<not> sgl" "\<not> dbl" "c = CHR ''-''" "take 1 rest = ''-''"
    | (dash) "\<not> sgl" "\<not> dbl" "c = CHR ''-''" "take 1 rest \<noteq> ''-''"
    | (single) "\<not> dbl" "c = CHR 0x27"
    | (double) "\<not> sgl" "c = CHR 0x22"
    | (semi) "\<not> sgl" "\<not> dbl" "c = CHR '';''"
    | (other) "dbl \<or> c \<noteq> CHR 0x27" "sgl \<or> c \<noteq> CHR 0x22"
        "sgl \<or> dbl \<or> c \<noteq> CHR '';'' \<and> c \<noteq> CHR ''-''"
    using "2.prems" by blast
  then show ?case
  proof cases
    case dashes
    then obtain r where r: "rest = CHR ''-'' # r" by (cases rest) auto
    have "split_ch sgl dbl cur out (c # rest) =
        out @ statements (prepend_encoded (cur @ ch_encode (takeWhile (\<lambda>b. b \<noteq> CHR 0x0A) (c # rest)))
          (ch_cut ChCode (dropWhile (\<lambda>b. b \<noteq> CHR 0x0A) rest)))"
      using dashes "2.IH"(1) by simp
    also have "\<dots> = out @ statements (prepend_encoded cur (ch_cut ChCode (c # rest)))"
      using ch_cut_comment [of "cur @ push_byte c @ push_byte c" r] dashes
      by (simp add: r ch_encode_def)
    finally show ?thesis using dashes by simp
  next
    case dash
    then show ?thesis using "2.IH"(5) by (simp add: ch_cut_Dash)
  next
    case single
    then show ?thesis using "2.IH"(2) by (cases sgl) simp_all
  next
    case double
    then show ?thesis using "2.IH"(3) by (cases dbl) simp_all
  next
    case semi
    then show ?thesis using "2.IH"(4) by (simp add: push_stmt_statements statements_def)
  next
    case other
    then show ?thesis using "2.IH"(5) "2.prems" by (cases sgl; cases dbl) simp_all
  qed
qed

subsection \<open>The Redis tokenizer\<close>

function tok_redis :: "bool \<Rightarrow> bool \<Rightarrow> str \<Rightarrow> str list \<Rightarrow> str \<Rightarrow> str list" where
  "tok_redis in_single in_double buf out [] = (if buf \<noteq> [] then out @ [buf] else out)"
| "tok_redis in_single in_double buf out (c # rest) =
     (if c = CHR 0x27 \<and> \<not> in_double then tok_redis (\<not> in_single) in_double buf out rest
      else if c = CHR 0x22 \<and> \<not> in_single then tok_redis in_single (\<not> in_double) buf out rest
      else if ws_head (c # rest) \<noteq> 0 \<and> \<not> in_single \<and> \<not> in_double
      then tok_redis in_single in_double [] (if buf \<noteq> [] then out @ [buf] else out)
             (drop (ws_head (c # rest) - 1) rest)
      else tok_redis in_single in_double (buf @ [c]) out rest)"
  by pat_completeness auto
termination
  by (relation "measure (\<lambda>(_, _, _, _, s). length s)") (auto simp: le_imp_less_Suc)

definition tokenize_redis_line :: "str \<Rightarrow> str list" where
  "tokenize_redis_line line = tok_redis False False [] [] line"

definition dquote :: "str \<Rightarrow> str" where
  "dquote a = CHR 0x22 # a @ [CHR 0x22]"

lemma tok_redis_quoted:
  "CHR 0x22 \<notin> set a \<Longrightarrow> tok_redis False True buf out (a @ CHR 0x22 # rest) = tok_redis False False (buf @ a) out rest"
  by (induction a arbitrary: buf) auto

lemma ws_head_space [simp]: "ws_head (CHR '' '' # s) = 1"
  by (simp add: ws_head.simps ascii_ws_def)

lemma tok_redis_dquoted:
  assumes "\<And>a. a \<in> set args \<Longrightarrow> CHR 0x22 \<notin> set a"
  shows "tok_redis False False [] out (join (CHR '' '') (map dquote args)) = out @ filter (\<lambda>a. a \<noteq> []) args"
  using assms
proof (induction args arbitrary: out)
  case Nil
  then show ?case by simp
next
  case (Cons a args)
  note q = tok_redis_quoted [of a "[]"]
  show ?case
  proof (cases "args = []")
    case True
    then show ?thesis using Cons.prems q [of out "[]"] by (simp add: dquote_def)
  next
    case False
    then have "join (CHR '' '') (map dquote (a # args)) =
        CHR 0x22 # a @ CHR 0x22 # CHR '' '' # join (CHR '' '') (map dquote args)"
      by (simp add: join_Cons dquote_def)
    then show ?thesis
      using Cons q [of out "CHR '' '' # join (CHR '' '') (map dquote args)"] by (simp add: ascii_ws_def)
  qed
qed

subsection \<open>Properties\<close>

text \<open>C22: \<open>split_ds_sql_statements\<close> cuts at exactly the right semicolons. Its result is the cut of
  the script at the semicolons that are neither in a string literal (with doubled quotes)
  nor in a line comment, as a character-by-character automaton sees them, each piece
  trimmed and the empty ones dropped; the pieces joined with semicolons are the script, so
  nothing is lost or reordered.\<close>

theorem split_ds_cuts_at_top_level:
  "split_ds_sql_statements sql = filter (\<lambda>t. t \<noteq> []) (map trim (ds_cut Code sql)) \<and>
   join (CHR '';'') (ds_cut Code sql) = sql"
  using split_ds_cut [of False False "[]" "[]" sql]
  by (simp add: split_ds_sql_statements_def statements_def join_cut_at)

lemma length_ch_encode:
  "length (ch_encode p) = length p + length (filter (\<lambda>c. (of_char c :: nat) \<ge> 128) p)"
  by (induction p) (auto simp: ch_encode_def push_byte_def Let_def)

lemma ch_encode_ascii: "(\<And>c. c \<in> set p \<Longrightarrow> (of_char c :: nat) < 128) \<Longrightarrow> ch_encode p = p"
  by (induction p) (auto simp: ch_encode_def push_byte_def Let_def)

text \<open>C34: \<open>split_clickhouse_statements\<close> cuts at exactly the right semicolons, but re-encodes what
  it cuts. The statements are the pieces between the semicolons outside single and double
  quotes and line comments, trimmed, the empty ones dropped; the pieces joined are the
  script. Each byte is pushed as a character of its own, so an ASCII piece is kept as it
  is and any other one grows by a byte for every non-ASCII byte: its text is no longer the
  author's.\<close>

theorem split_clickhouse_cuts_and_reencodes:
  "split_clickhouse_statements sql = filter (\<lambda>t. t \<noteq> []) (map (\<lambda>p. trim (ch_encode p)) (ch_cut ChCode sql)) \<and>
   join (CHR '';'') (ch_cut ChCode sql) = sql \<and>
   length (ch_encode p) = length p + length (filter (\<lambda>c. (of_char c :: nat) \<ge> 128) p) \<and>
   (list_all (\<lambda>c. (of_char c :: nat) < 128) p \<longrightarrow> ch_encode p = p)"
  using split_ch_cut [of False False "[]" "[]" sql] ch_encode_ascii [of p]
  by (simp add: split_clickhouse_statements_def statements_def join_cut_at length_ch_encode o_def list_all_iff)

theorem split_clickhouse_cuts_and_reencodes_witness:
  "list_all (\<lambda>c. (of_char c :: nat) < 128) ''SELECT 1'' \<and> ch_encode ''SELECT 1'' = ''SELECT 1'' \<and>
   length (ch_encode [CHR 0xC3, CHR 0xA9]) = 4"
  using split_clickhouse_cuts_and_reencodes [of "[]" "''SELECT 1''"]
    split_clickhouse_cuts_and_reencodes [of "[]" "[CHR 0xC3, CHR 0xA9]"] by simp

text \<open>\<open>tokenize_redis_line\<close> reads back quoted arguments, except empty ones. A line of
  arguments in double quotes, none containing a double quote, separated by spaces, gives
  exactly these arguments, whatever spaces, apostrophes and non-ASCII text they contain;
  but an empty quoted argument disappears from the command.\<close>

theorem redis_tokens_round_trip:
  assumes "list_all (\<lambda>a. CHR 0x22 \<notin> set a) args"
  shows "tokenize_redis_line (join (CHR '' '') (map dquote args)) = filter (\<lambda>a. a \<noteq> []) args"
  using tok_redis_dquoted [of args "[]"] assms by (simp add: tokenize_redis_line_def list_all_iff)

theorem redis_tokens_round_trip_witness:
  "list_all (\<lambda>a. CHR 0x22 \<notin> set a) [''SET'', ''a b'', []] \<and>
   tokenize_redis_line (join (CHR '' '') (map dquote [''SET'', ''a b'', []])) = [''SET'', ''a b'']"
  using redis_tokens_round_trip [of "[''SET'', ''a b'', []]"] by simp

end
