(* ===== verification/Dispatcher.thy ===== *)
theory Dispatcher
  imports World Splitters
begin

text \<open>
  The source dispatcher: the trait \<open>PlaygroundDispatcher\<close> and \<open>NoopPlaygroundDispatcher\<close> of
  \<^verbatim>\<open>tcp.rs\<close>, \<open>TcpPlaygroundDispatcher\<close> with its connection builders and error mappings of
  \<^verbatim>\<open>dispatcher.rs\<close>. A trait object is a value of \<open>dispatcher\<close>, and each method of the trait
  is a definition that asks which one it has. The drivers (sqlx, mysql_async, redis,
  reqwest) answer through the world; every statement they are given is a call of its log.
\<close>

datatype dispatcher = Noop | Tcp

type_synonym 'a dresult = "(dispatch_error, 'a) result act"

text \<open>What every method of the no-op dispatcher, and every default method of the trait, does.\<close>

definition noop_method :: "'a dresult" where
  "noop_method = ret (Inl DUnavailable)"

text \<open>The trait's own bodies, which the no-op inherits for ClickHouse and Redis: the same error.\<close>

definition default_method :: "'a dresult" where
  "default_method = ret (Inl DUnavailable)"

lemma default_noop: "default_method = noop_method"
  by (simp add: default_method_def noop_method_def)

definition is_tcp_backed :: "dispatcher \<Rightarrow> bool" where
  "is_tcp_backed d \<longleftrightarrow> d = Tcp"

subsection \<open>Environment and secrets\<close>

definition env_or :: "outside \<Rightarrow> str \<Rightarrow> str \<Rightarrow> str" where
  "env_or ox key dflt = opt_unwrap_or (ox_env ox key) dflt"

text \<open>The \<open>Display\<close> text of the error of \<open>str::parse\<close> for an unsigned type with values below \<open>m\<close>.\<close>

fun digits_error :: "nat \<Rightarrow> nat \<Rightarrow> str \<Rightarrow> str" where
  "digits_error m acc [] = []"
| "digits_error m acc (c # s) =
     (if \<not> is_digit c then ''invalid digit found in string''
      else if 10 * acc + digit_val c \<ge> m then ''number too large to fit in target type''
      else digits_error m (10 * acc + digit_val c) s)"

definition parse_error :: "nat \<Rightarrow> str \<Rightarrow> str" where
  "parse_error m s =
     (if s = [] then ''cannot parse integer from empty string''
      else if s = ''+'' then ''invalid digit found in string''
      else digits_error m 0 (if hd s = CHR ''+'' then tl s else s))"

definition env_u16 :: "outside \<Rightarrow> str \<Rightarrow> nat \<Rightarrow> (dispatch_error, nat) result" where
  "env_u16 ox key dflt =
     (case ox_env ox key of
        Some v \<Rightarrow>
          (case parse_uint (2 ^ 16) v of
             Some n \<Rightarrow> Inr n
           | None \<Rightarrow> Inl (DConfig (key @ ''='' @ v @ '': '' @ parse_error (2 ^ 16) v)))
      | None \<Rightarrow> Inr dflt)"

definition load_secret :: "outside \<Rightarrow> str \<Rightarrow> str \<Rightarrow> (dispatch_error, str) result" where
  "load_secret ox env_key secret_path =
     (if ox_exists ox secret_path
      then (case ox_read ox secret_path of
              Inl e \<Rightarrow> Inl (DConfig (''read '' @ secret_path @ '': '' @ e))
            | Inr raw \<Rightarrow> Inr (trim raw))
      else ok_or (DConfig (''playground password not found at '' @ secret_path @ '' and $'' @ env_key @ '' unset''))
             (ox_env ox env_key))"

definition hex_upper :: "nat \<Rightarrow> char" where
  "hex_upper n = ''0123456789ABCDEF'' ! n"

definition is_unreserved :: "char \<Rightarrow> bool" where
  "is_unreserved c \<longleftrightarrow>
     is_ascii_alphanumeric c \<or> c = CHR ''-'' \<or> c = CHR ''_'' \<or> c = CHR ''.'' \<or> c = CHR ''~''"

definition url_encode :: "str \<Rightarrow> str" where
  "url_encode s =
     concat (map (\<lambda>c. if is_unreserved c then [c]
                      else [CHR ''%'', hex_upper (of_char c div 16), hex_upper (of_char c mod 16)]) s)"

subsection \<open>Error mappings\<close>

fun map_pg_error :: "pg_error \<Rightarrow> dispatch_error" where
  "map_pg_error (PgDatabase code msg) =
     (let code = opt_unwrap_or code []
      in if code = ''23505'' then DDuplicateKey msg
         else if code = ''42P01'' \<or> code = ''42703'' then DSchemaMismatch msg
         else if code = ''28P01'' \<or> code = ''28000'' then DAuth msg
         else if code = ''57014'' then DTimeout STATEMENT_TIMEOUT_SECS
         else DProtocol (''['' @ code @ ''] '' @ msg))"
| "map_pg_error (PgIo e) = DConnect e"
| "map_pg_error PgPoolTimedOut = DTimeout POOL_ACQUIRE_TIMEOUT_SECS"
| "map_pg_error PgPoolClosed = DConnect ''pool closed''"
| "map_pg_error (PgOther e) = DProtocol e"

definition map_reqwest_error :: "reqwest_error \<Rightarrow> dispatch_error" where
  "map_reqwest_error e =
     (if re_timeout e then DTimeout STATEMENT_TIMEOUT_SECS
      else if re_connect e then DConnect (re_text e)
      else DProtocol (re_text e))"

definition map_clickhouse_status :: "outside \<Rightarrow> nat \<Rightarrow> str \<Rightarrow> dispatch_error" where
  "map_clickhouse_status ox status body =
     (let code = Option.bind (strip_prefix body ''Code: '')
            (\<lambda>s. parse_uint (2 ^ 32) (trim (hd (split_on (\<lambda>c. c = CHR ''.'') s))));
          msg = (case str_lines body of [] \<Rightarrow> ox_status_text ox status | l # _ \<Rightarrow> l)
      in if code = Some 60 \<or> code = Some 81 \<or> code = Some 47 then DSchemaMismatch msg
         else if code = Some 62 \<or> code = Some 63 then DProtocol (''syntax: '' @ msg)
         else if code = Some 159 then DTimeout STATEMENT_TIMEOUT_SECS
         else if code = Some 516 \<or> code = Some 192 then DAuth msg
         else if status = 401 \<or> status = 403 then DAuth msg
         else DProtocol (''['' @ show_nat status @ ''] '' @ msg))"

fun map_redis_error :: "redis_error \<Rightarrow> dispatch_error" where
  "map_redis_error (AuthenticationFailed, msg) = DAuth msg"
| "map_redis_error (IoError, msg) = DConnect msg"
| "map_redis_error (ClientError, msg) = DConnect msg"
| "map_redis_error (kind, msg) = DProtocol msg"

fun map_mysql_error :: "mysql_error \<Rightarrow> dispatch_error" where
  "map_mysql_error (MyServer code msg) =
     (if code = 1062 then DDuplicateKey msg
      else if code = 1146 \<or> code = 1054 then DSchemaMismatch msg
      else if code = 1045 \<or> code = 1044 \<or> code = 1698 then DAuth msg
      else if code = 1064 then DProtocol (''syntax: '' @ msg)
      else if code = 1969 \<or> code = 3024 then DTimeout STATEMENT_TIMEOUT_SECS
      else DProtocol (''['' @ show_nat code @ ''] '' @ msg))"
| "map_mysql_error (MyDriver e) = DProtocol e"
| "map_mysql_error (MyIo e) = DConnect e"
| "map_mysql_error (MyUrl e) = DConfig e"
| "map_mysql_error (MyOther e) = DProtocol e"


definition done_or :: "('e \<Rightarrow> dispatch_error) \<Rightarrow> 'e option \<Rightarrow> (dispatch_error, unit) result" where
  "done_or f r = (case r of None \<Rightarrow> Inr () | Some e \<Rightarrow> Inl (f e))"

subsection \<open>PostgreSQL\<close>

definition pg_url :: "outside \<Rightarrow> (dispatch_error, str) result" where
  "pg_url ox =
     rbind (env_u16 ox ''DS_PG_PLAYGROUND_PORT'' 5432) (\<lambda>port.
     rbind (load_secret ox ''DS_PG_PLAYGROUND_PASSWORD'' ''/run/secrets/pg_playground_password'') (\<lambda>password.
     Inr (''postgres://'' @ env_or ox ''DS_PG_PLAYGROUND_USER'' ''playground_admin'' @ '':'' @
          url_encode password @ ''@'' @ env_or ox ''DS_PG_PLAYGROUND_HOST'' ''postgres-playground'' @ '':'' @
          show_nat port @ ''/'' @ env_or ox ''DS_PG_PLAYGROUND_DB'' ''playground'' @ ''?sslmode=disable'')))"

definition pg_pool :: "outside \<Rightarrow> unit dresult" where
  "pg_pool ox =
     do { p \<leftarrow> gets (\<lambda>w. pl_pg (w_pools w));
          (case p of
             Some _ \<Rightarrow> ret (Inr ())
           | None \<Rightarrow>
               (case pg_url ox of
                  Inl e \<Rightarrow> ret (Inl e)
                | Inr url \<Rightarrow>
                    do { r \<leftarrow> perform (EPgConnect url) (\<lambda>log. ox_pg ox log (EPgConnect url));
                         (case r of
                            Some e \<Rightarrow> ret (Inl (map_pg_error e))
                          | None \<Rightarrow>
                              do { State_Monad.update (\<lambda>w. w\<lparr>w_pools := (w_pools w)\<lparr>pl_pg := Some url\<rparr>\<rparr>);
                                   ret (Inr ()) }) })) }"

definition pg_do :: "outside \<Rightarrow> event \<Rightarrow> unit dresult" where
  "pg_do ox e = do { r \<leftarrow> perform e (\<lambda>log. ox_pg ox log e); ret (done_or map_pg_error r) }"

definition saturating_sum :: "nat list \<Rightarrow> nat" where
  "saturating_sum ns = fold (\<lambda>n acc. min (2 ^ 64 - 1) (acc + n)) ns 0"

definition exec_postgres_inner :: "outside \<Rightarrow> str option \<Rightarrow> str \<Rightarrow> (str \<times> str) dresult" where
  "exec_postgres_inner ox schema sql =
     attempt (pg_pool ox) (\<lambda>_.
     attempt (pg_do ox EPgBegin) (\<lambda>_.
     attempt (pg_do ox (EPgExec (''SET LOCAL statement_timeout = '' @ [CHR 0x27] @
                show_nat STATEMENT_TIMEOUT_SECS @ ''s'' @ [CHR 0x27]))) (\<lambda>_.
     attempt (case schema of
                None \<Rightarrow> ret (Inr ())
              | Some s \<Rightarrow> pg_do ox (EPgExec (''SET LOCAL search_path = '' @ [CHR 0x22] @ s @ [CHR 0x22] @ '', public''))) (\<lambda>_.
     do { res \<leftarrow> perform (EPgRaw sql) (\<lambda>log. ox_pg_rows ox log sql);
          (case res of
             (rows, Some e) \<Rightarrow> ret (Inl (map_pg_error e))
           | (rows, None) \<Rightarrow>
               attempt (pg_do ox EPgCommit) (\<lambda>_.
                 ret (Inr (''OK ('' @ show_nat (saturating_sum rows) @ '' rows)'', [])))) }))))"

definition exec_postgres :: "outside \<Rightarrow> dispatcher \<Rightarrow> str \<Rightarrow> (str \<times> str) dresult" where
  "exec_postgres ox d sql =
     (case d of Noop \<Rightarrow> noop_method | Tcp \<Rightarrow> exec_postgres_inner ox None sql)"

text \<open>Every method that takes a name checks it before it is spliced into a statement.\<close>

definition guarded :: "(str \<Rightarrow> bool) \<Rightarrow> str \<Rightarrow> str \<Rightarrow> dispatcher \<Rightarrow> 'a dresult \<Rightarrow> 'a dresult" where
  "guarded safe what name d m =
     (case d of
        Noop \<Rightarrow> noop_method
      | Tcp \<Rightarrow> if \<not> safe name then ret (Inl (DConfig (''unsafe '' @ what @ '': '' @ name))) else m)"

definition unit_result :: "'a dresult \<Rightarrow> unit dresult" where
  "unit_result m = do { r \<leftarrow> m; ret (map_ok (\<lambda>_. ()) r) }"

definition exec_postgres_in_schema :: "outside \<Rightarrow> dispatcher \<Rightarrow> str \<Rightarrow> str \<Rightarrow> (str \<times> str) dresult" where
  "exec_postgres_in_schema ox d schema sql =
     guarded is_safe_resource_name ''postgres schema name'' schema d (exec_postgres_inner ox (Some schema) sql)"

definition ping_postgres :: "outside \<Rightarrow> dispatcher \<Rightarrow> unit dresult" where
  "ping_postgres ox d = unit_result (exec_postgres ox d ''SELECT 1'')"

definition provision_postgres_schema :: "outside \<Rightarrow> dispatcher \<Rightarrow> str \<Rightarrow> unit dresult" where
  "provision_postgres_schema ox d name =
     guarded is_safe_resource_name ''postgres schema name'' name d
       (unit_result (exec_postgres ox d (''CREATE SCHEMA IF NOT EXISTS '' @ [CHR 0x22] @ name @ [CHR 0x22])))"

definition teardown_postgres_schema :: "outside \<Rightarrow> dispatcher \<Rightarrow> str \<Rightarrow> unit dresult" where
  "teardown_postgres_schema ox d name =
     guarded is_safe_resource_name ''postgres schema name'' name d
       (unit_result (exec_postgres ox d (''DROP SCHEMA IF EXISTS '' @ [CHR 0x22] @ name @ [CHR 0x22] @ '' CASCADE'')))"

definition drop_postgres_publication :: "outside \<Rightarrow> dispatcher \<Rightarrow> str \<Rightarrow> unit dresult" where
  "drop_postgres_publication ox d name =
     guarded is_safe_playground_shuttle_artifact ''postgres publication name'' name d
       (unit_result (exec_postgres ox d (''DROP PUBLICATION IF EXISTS '' @ [CHR 0x22] @ name @ [CHR 0x22])))"

definition drop_slot_sql :: "str \<Rightarrow> str" where
  "drop_slot_sql name =
     ''DO $$ BEGIN IF EXISTS (SELECT 1 FROM pg_replication_slots WHERE slot_name = '' @ [CHR 0x27] @ name @ [CHR 0x27] @
     '') THEN PERFORM pg_drop_replication_slot('' @ [CHR 0x27] @ name @ [CHR 0x27] @ ''); END IF; END $$''"

definition drop_postgres_replication_slot :: "outside \<Rightarrow> dispatcher \<Rightarrow> str \<Rightarrow> unit dresult" where
  "drop_postgres_replication_slot ox d name =
     guarded is_safe_playground_shuttle_artifact ''postgres replication slot name'' name d
       (unit_result (exec_postgres ox d (drop_slot_sql name)))"

text \<open>The listings: rows whose column is not a text are skipped.\<close>

definition pg_list :: "outside \<Rightarrow> dispatcher \<Rightarrow> str \<Rightarrow> str list dresult" where
  "pg_list ox d sql =
     (case d of
        Noop \<Rightarrow> noop_method
      | Tcp \<Rightarrow>
          attempt (pg_pool ox) (\<lambda>_.
            do { r \<leftarrow> perform (EPgFetch sql) (\<lambda>log. ox_pg_fetch ox log sql);
                 ret (map_err map_pg_error (map_ok (List.map_filter (\<lambda>x. x)) r)) }))"

definition list_postgres_playground_publications :: "outside \<Rightarrow> dispatcher \<Rightarrow> str list dresult" where
  "list_postgres_playground_publications ox d =
     pg_list ox d (''SELECT pubname FROM pg_publication WHERE pubname LIKE '' @ [CHR 0x27] @ ''pg'' @ [CHR 0x5C] @ ''_%'' @
       [CHR 0x5C] @ ''_pub'' @ [CHR 0x27] @ '' ESCAPE '' @ [CHR 0x27, CHR 0x5C, CHR 0x27])"

definition list_postgres_playground_replication_slots :: "outside \<Rightarrow> dispatcher \<Rightarrow> str list dresult" where
  "list_postgres_playground_replication_slots ox d =
     pg_list ox d (''SELECT slot_name FROM pg_replication_slots WHERE slot_name LIKE '' @ [CHR 0x27] @ ''pg'' @ [CHR 0x5C] @
       ''_%'' @ [CHR 0x5C] @ ''_slot'' @ [CHR 0x27] @ '' ESCAPE '' @ [CHR 0x27, CHR 0x5C, CHR 0x27])"

definition list_postgres_playground_schemas :: "outside \<Rightarrow> dispatcher \<Rightarrow> str list dresult" where
  "list_postgres_playground_schemas ox d =
     pg_list ox d (''SELECT schema_name FROM information_schema.schemata WHERE schema_name LIKE '' @ [CHR 0x27] @
       ''playground'' @ [CHR 0x5C] @ ''_%'' @ [CHR 0x27] @ '' ESCAPE '' @ [CHR 0x27, CHR 0x5C, CHR 0x27])"

subsection \<open>MySQL\<close>

text \<open>\<open>mysql_async::Pool::new\<close> opens no connection; building the pool fails only on its inputs.\<close>

definition mysql_pool :: "outside \<Rightarrow> unit dresult" where
  "mysql_pool ox =
     do { p \<leftarrow> gets (\<lambda>w. pl_mysql (w_pools w));
          (if p then ret (Inr ())
           else (case rbind (env_u16 ox ''DS_MYSQL_PLAYGROUND_PORT'' 3306) (\<lambda>port.
                        load_secret ox ''DS_MYSQL_PLAYGROUND_PASSWORD'' ''/run/secrets/mysql_playground_password'') of
                   Inl e \<Rightarrow> ret (Inl e)
                 | Inr password \<Rightarrow>
                     do { State_Monad.update (\<lambda>w. w\<lparr>w_pools := (w_pools w)\<lparr>pl_mysql := True\<rparr>\<rparr>);
                          ret (Inr ()) })) }"

definition my_do :: "outside \<Rightarrow> event \<Rightarrow> unit dresult" where
  "my_do ox e = do { r \<leftarrow> perform e (\<lambda>log. ox_my ox log e); ret (done_or map_mysql_error r) }"

definition backtick :: "str \<Rightarrow> str" where
  "backtick s = [CHR 0x60] @ s @ [CHR 0x60]"

definition exec_mysql_inner :: "outside \<Rightarrow> str option \<Rightarrow> str \<Rightarrow> (str \<times> str) dresult" where
  "exec_mysql_inner ox db sql =
     attempt (mysql_pool ox) (\<lambda>_.
     attempt (my_do ox EMyConn) (\<lambda>_.
     attempt (my_do ox (EMyQuery (''SET SESSION MAX_EXECUTION_TIME = '' @ show_nat (STATEMENT_TIMEOUT_SECS * 1000)))) (\<lambda>_.
     attempt (case db of None \<Rightarrow> ret (Inr ()) | Some db \<Rightarrow> my_do ox (EMyQuery (''USE '' @ backtick db))) (\<lambda>_.
     attempt (my_do ox (EMyQuery sql)) (\<lambda>_.
     do { rows \<leftarrow> gets (\<lambda>w. ox_my_affected ox (w_log w));
          ret (Inr (''OK ('' @ show_nat rows @ '' rows)'', [])) })))))"

definition exec_mysql :: "outside \<Rightarrow> dispatcher \<Rightarrow> str \<Rightarrow> (str \<times> str) dresult" where
  "exec_mysql ox d sql = (case d of Noop \<Rightarrow> noop_method | Tcp \<Rightarrow> exec_mysql_inner ox None sql)"

definition exec_mysql_in_database :: "outside \<Rightarrow> dispatcher \<Rightarrow> str \<Rightarrow> str \<Rightarrow> (str \<times> str) dresult" where
  "exec_mysql_in_database ox d db sql =
     guarded is_safe_resource_name ''mysql database name'' db d (exec_mysql_inner ox (Some db) sql)"

definition ping_mysql :: "outside \<Rightarrow> dispatcher \<Rightarrow> unit dresult" where
  "ping_mysql ox d = unit_result (exec_mysql ox d ''SELECT 1'')"

definition provision_mysql_database :: "outside \<Rightarrow> dispatcher \<Rightarrow> str \<Rightarrow> unit dresult" where
  "provision_mysql_database ox d name =
     guarded is_safe_resource_name ''mysql database name'' name d
       (unit_result (exec_mysql ox d (''CREATE DATABASE IF NOT EXISTS '' @ backtick name)))"

definition teardown_mysql_database :: "outside \<Rightarrow> dispatcher \<Rightarrow> str \<Rightarrow> unit dresult" where
  "teardown_mysql_database ox d name =
     guarded is_safe_resource_name ''mysql database name'' name d
       (unit_result (exec_mysql ox d (''DROP DATABASE IF EXISTS '' @ backtick name)))"

definition list_mysql_playground_databases :: "outside \<Rightarrow> dispatcher \<Rightarrow> str list dresult" where
  "list_mysql_playground_databases ox d =
     (case d of
        Noop \<Rightarrow> noop_method
      | Tcp \<Rightarrow>
          (let sql = ''SELECT SCHEMA_NAME FROM information_schema.SCHEMATA WHERE SCHEMA_NAME LIKE '' @ [CHR 0x27] @
                 ''playground'' @ [CHR 0x5C] @ ''_%'' @ [CHR 0x27]
           in attempt (mysql_pool ox) (\<lambda>_.
              attempt (my_do ox EMyConn) (\<lambda>_.
              do { r \<leftarrow> perform (EMyFetch sql) (\<lambda>log. ox_my_fetch ox log sql);
                   ret (map_err map_mysql_error r) }))))"

subsection \<open>ClickHouse\<close>

definition clickhouse_config_of :: "outside \<Rightarrow> (dispatch_error, clickhouse_config) result" where
  "clickhouse_config_of ox =
     rbind (env_u16 ox ''DS_CLICKHOUSE_PLAYGROUND_PORT'' 8123) (\<lambda>port.
     rbind (load_secret ox ''DS_CLICKHOUSE_PLAYGROUND_PASSWORD'' ''/run/secrets/clickhouse_playground_password'') (\<lambda>password.
     rbind (case ox_client_build ox (STATEMENT_TIMEOUT_SECS + 5) of
              None \<Rightarrow> Inr () | Some e \<Rightarrow> Inl (DConfig (''reqwest builder: '' @ e))) (\<lambda>_.
     Inr \<lparr>ch_base_url = ''http://'' @ env_or ox ''DS_CLICKHOUSE_PLAYGROUND_HOST'' ''clickhouse-playground'' @ '':'' @ show_nat port,
          ch_user = env_or ox ''DS_CLICKHOUSE_PLAYGROUND_USER'' ''playground'',
          ch_password = password,
          ch_default_db = env_or ox ''DS_CLICKHOUSE_PLAYGROUND_DB'' ''playground''\<rparr>)))"

definition clickhouse_pool :: "outside \<Rightarrow> clickhouse_config dresult" where
  "clickhouse_pool ox =
     do { p \<leftarrow> gets (\<lambda>w. pl_clickhouse (w_pools w));
          (case p of
             Some cfg \<Rightarrow> ret (Inr cfg)
           | None \<Rightarrow>
               (case clickhouse_config_of ox of
                  Inl e \<Rightarrow> ret (Inl e)
                | Inr cfg \<Rightarrow>
                    do { State_Monad.update (\<lambda>w. w\<lparr>w_pools := (w_pools w)\<lparr>pl_clickhouse := Some cfg\<rparr>\<rparr>);
                         ret (Inr cfg) })) }"

definition clickhouse_call :: "clickhouse_config \<Rightarrow> str \<Rightarrow> str \<Rightarrow> http_call" where
  "clickhouse_call cfg db stmt =
     \<lparr>hc_method = ''POST'',
      hc_url = ch_base_url cfg @ ''/?max_execution_time='' @ show_nat STATEMENT_TIMEOUT_SECS @ ''&database='' @ db,
      hc_bearer = None, hc_basic = Some (ch_user cfg, ch_password cfg), hc_headers = [], hc_body = RawBody stmt\<rparr>"

fun clickhouse_posts ::
    "outside \<Rightarrow> clickhouse_config \<Rightarrow> str \<Rightarrow> str \<Rightarrow> str list \<Rightarrow> (str \<times> str) dresult" where
  "clickhouse_posts ox cfg db last_body [] = ret (Inr (last_body, []))"
| "clickhouse_posts ox cfg db last_body (stmt # stmts) =
     do { resp \<leftarrow> perform (EHttp (clickhouse_call cfg db stmt)) (\<lambda>log. ox_http ox log (clickhouse_call cfg db stmt));
          (case resp of
             Inl e \<Rightarrow> ret (Inl (map_reqwest_error e))
           | Inr (status, text) \<Rightarrow>
               (let body = unwrap_or text []
                in if \<not> (200 \<le> status \<and> status < 300) then ret (Inl (map_clickhouse_status ox status body))
                   else clickhouse_posts ox cfg db body stmts)) }"

definition exec_clickhouse_inner :: "outside \<Rightarrow> str option \<Rightarrow> str \<Rightarrow> (str \<times> str) dresult" where
  "exec_clickhouse_inner ox db sql =
     attempt (clickhouse_pool ox) (\<lambda>cfg.
       clickhouse_posts ox cfg (opt_unwrap_or db (ch_default_db cfg)) [] (split_clickhouse_statements sql))"

definition exec_clickhouse :: "outside \<Rightarrow> dispatcher \<Rightarrow> str \<Rightarrow> (str \<times> str) dresult" where
  "exec_clickhouse ox d sql =
     (case d of Noop \<Rightarrow> default_method | Tcp \<Rightarrow> exec_clickhouse_inner ox None sql)"

definition exec_clickhouse_in_database :: "outside \<Rightarrow> dispatcher \<Rightarrow> str \<Rightarrow> str \<Rightarrow> (str \<times> str) dresult" where
  "exec_clickhouse_in_database ox d db sql =
     guarded is_safe_resource_name ''clickhouse database name'' db d (exec_clickhouse_inner ox (Some db) sql)"

definition ping_clickhouse :: "outside \<Rightarrow> dispatcher \<Rightarrow> unit dresult" where
  "ping_clickhouse ox d = unit_result (exec_clickhouse ox d ''SELECT 1'')"

definition provision_clickhouse_database :: "outside \<Rightarrow> dispatcher \<Rightarrow> str \<Rightarrow> unit dresult" where
  "provision_clickhouse_database ox d name =
     guarded is_safe_resource_name ''clickhouse database name'' name d
       (unit_result (exec_clickhouse ox d (''CREATE DATABASE IF NOT EXISTS '' @ backtick name)))"

definition teardown_clickhouse_database :: "outside \<Rightarrow> dispatcher \<Rightarrow> str \<Rightarrow> unit dresult" where
  "teardown_clickhouse_database ox d name =
     guarded is_safe_resource_name ''clickhouse database name'' name d
       (unit_result (exec_clickhouse ox d (''DROP DATABASE IF EXISTS '' @ backtick name)))"

definition list_clickhouse_playground_databases :: "outside \<Rightarrow> dispatcher \<Rightarrow> str list dresult" where
  "list_clickhouse_playground_databases ox d =
     do { r \<leftarrow> exec_clickhouse ox d (''SELECT name FROM system.databases WHERE name LIKE '' @ [CHR 0x27] @
            ''playground'' @ [CHR 0x5C] @ ''_%'' @ [CHR 0x27] @ '' FORMAT TabSeparated'');
          ret (map_ok (\<lambda>(body, _). filter (\<lambda>s. s \<noteq> []) (map trim (str_lines body))) r) }"

subsection \<open>Redis\<close>

definition redis_config_of :: "outside \<Rightarrow> (dispatch_error, redis_config) result" where
  "redis_config_of ox =
     rbind (env_u16 ox ''DS_REDIS_PLAYGROUND_PORT'' 6379) (\<lambda>port.
     rbind (env_u16 ox ''DS_REDIS_PLAYGROUND_DB'' 0) (\<lambda>db.
     (let password = unwrap_or (load_secret ox ''DS_REDIS_PLAYGROUND_PASSWORD'' ''/run/secrets/redis_playground_password'') [];
          url = ''redis://'' @ env_or ox ''DS_REDIS_PLAYGROUND_HOST'' ''redis-playground'' @ '':'' @ show_nat port @ ''/'' @ show_nat db
      in (case ox_redis_open ox url of
            Some e \<Rightarrow> Inl (DConfig (''redis client: '' @ e))
          | None \<Rightarrow> Inr \<lparr>rc_password = password, rc_url = url\<rparr>))))"

definition redis_pool :: "outside \<Rightarrow> redis_config dresult" where
  "redis_pool ox =
     do { p \<leftarrow> gets (\<lambda>w. pl_redis (w_pools w));
          (case p of
             Some cfg \<Rightarrow> ret (Inr cfg)
           | None \<Rightarrow>
               (case redis_config_of ox of
                  Inl e \<Rightarrow> ret (Inl e)
                | Inr cfg \<Rightarrow>
                    do { State_Monad.update (\<lambda>w. w\<lparr>w_pools := (w_pools w)\<lparr>pl_redis := Some cfg\<rparr>\<rparr>);
                         ret (Inr cfg) })) }"

definition redis_conn :: "outside \<Rightarrow> redis_config dresult" where
  "redis_conn ox =
     attempt (redis_pool ox) (\<lambda>cfg.
       do { r \<leftarrow> perform ERedisConn (\<lambda>log. ox_redis_conn ox log);
            ret (case r of None \<Rightarrow> Inr cfg | Some e \<Rightarrow> Inl (map_redis_error e)) })"

definition redis_cmd :: "outside \<Rightarrow> str list \<Rightarrow> str dresult" where
  "redis_cmd ox argv =
     do { r \<leftarrow> perform (ERedisCmd argv) (\<lambda>log. ox_redis ox log argv); ret (map_err map_redis_error r) }"

text \<open>The commands of a script: a line is cut at its first \<open>#\<close>, trimmed and tokenized.\<close>

definition redis_commands :: "str \<Rightarrow> str list list" where
  "redis_commands script =
     filter (\<lambda>tokens. tokens \<noteq> [])
       (map (\<lambda>raw. tokenize_redis_line (trim (hd (split_on (\<lambda>c. c = CHR ''#'') raw)))) (str_lines script))"

fun redis_run :: "outside \<Rightarrow> nat \<Rightarrow> str \<Rightarrow> str list list \<Rightarrow> (str \<times> str) dresult" where
  "redis_run ox count last_reply [] =
     ret (Inr (''OK ('' @ show_nat count @ '' commands)'' @ [CHR 0x0A] @ last_reply, []))"
| "redis_run ox count last_reply (argv # rest) =
     attempt (redis_cmd ox argv) (\<lambda>reply. redis_run ox (Suc count) reply rest)"

definition exec_redis_inner :: "outside \<Rightarrow> str \<Rightarrow> (str \<times> str) dresult" where
  "exec_redis_inner ox script =
     attempt (redis_conn ox) (\<lambda>cfg.
       do { (if rc_password cfg \<noteq> []
             then do { r \<leftarrow> redis_cmd ox [''AUTH'', rc_password cfg]; ret () } else ret ());
            redis_run ox 0 [] (redis_commands script) })"

definition exec_redis :: "outside \<Rightarrow> dispatcher \<Rightarrow> str \<Rightarrow> (str \<times> str) dresult" where
  "exec_redis ox d script = (case d of Noop \<Rightarrow> default_method | Tcp \<Rightarrow> exec_redis_inner ox script)"

definition exec_redis_in_namespace :: "outside \<Rightarrow> dispatcher \<Rightarrow> str \<Rightarrow> str \<Rightarrow> (str \<times> str) dresult" where
  "exec_redis_in_namespace ox d namespace script =
     guarded is_safe_resource_name ''redis namespace'' namespace d (exec_redis_inner ox script)"

definition ping_redis :: "outside \<Rightarrow> dispatcher \<Rightarrow> unit dresult" where
  "ping_redis ox d =
     (case d of
        Noop \<Rightarrow> default_method
      | Tcp \<Rightarrow> attempt (redis_conn ox) (\<lambda>_. unit_result (redis_cmd ox [''PING''])))"

text \<open>
  The \<open>SCAN\<close> loop. The answers of the server to one iteration are a finite list of pages
  (Redis documents that an iteration ends, with cursor 0); the loop also stops there.
\<close>

fun redis_scan :: "outside \<Rightarrow> str \<Rightarrow> nat \<Rightarrow> (redis_error, nat \<times> str list) result list \<Rightarrow> unit dresult" where
  "redis_scan ox pattern cursor [] = ret (Inr ())"
| "redis_scan ox pattern cursor (page # pages) =
     do { perform (ERedisCmd [''SCAN'', show_nat cursor, ''MATCH'', pattern, ''COUNT'', ''200'']) (\<lambda>_. ());
          (case page of
             Inl e \<Rightarrow> ret (Inl (map_redis_error e))
           | Inr (next_cursor, keys) \<Rightarrow>
               attempt (if keys \<noteq> [] then unit_result (redis_cmd ox (''DEL'' # keys)) else ret (Inr ())) (\<lambda>_.
                 if next_cursor = 0 then ret (Inr ()) else redis_scan ox pattern next_cursor pages)) }"

definition teardown_redis_namespace :: "outside \<Rightarrow> dispatcher \<Rightarrow> str \<Rightarrow> unit dresult" where
  "teardown_redis_namespace ox d namespace =
     guarded is_safe_resource_name ''redis namespace'' namespace d
       (attempt (redis_conn ox) (\<lambda>_.
          do { pages \<leftarrow> gets (\<lambda>w. ox_redis_scan ox (w_log w) (namespace @ '':*''));
               redis_scan ox (namespace @ '':*'') 0 pages }))"

subsection \<open>The transcript of a scoped execution\<close>

lemma run_pg_do [simp]:
  "run_state (pg_do ox e) w = (done_or map_pg_error (ox_pg ox (w_log w) e), w\<lparr>w_log := w_log w @ [e]\<rparr>)"
  by (simp add: pg_do_def)

text \<open>\<open>emits m w es\<close>: started in \<open>w\<close>, the computation makes calls that begin \<open>es\<close>, all of them if it succeeds.\<close>

definition emits :: "('e, 'a) result act \<Rightarrow> world \<Rightarrow> event list \<Rightarrow> bool" where
  "emits m w es \<longleftrightarrow>
     (\<exists>done. w_log (snd (run_state m w)) = w_log w @ done \<and> prefix done es \<and>
        (is_ok (fst (run_state m w)) \<longrightarrow> done = es))"

lemma emits_attempt:
  assumes "emits m w es" and "\<And>x. fst (run_state m w) = Inr x \<Longrightarrow> emits (f x) (snd (run_state m w)) fs"
  shows "emits (attempt m f) w (es @ fs)"
proof (cases "fst (run_state m w)")
  case (Inl e)
  then show ?thesis
    using assms(1) by (auto simp: emits_def split: prod.splits)
next
  case (Inr x)
  then obtain d where "w_log (snd (run_state m w)) = w_log w @ es"
      "w_log (snd (run_state (f x) (snd (run_state m w)))) = w_log (snd (run_state m w)) @ d" "prefix d fs"
      "is_ok (fst (run_state (f x) (snd (run_state m w)))) \<longrightarrow> d = fs"
    using assms(1) assms(2) [OF Inr] by (auto simp: emits_def)
  then show ?thesis
    using Inr by (auto simp: emits_def split: prod.splits)
qed

lemma emits_ret: "emits (ret r) w []"
  by (simp add: emits_def)

lemma emits_pg_do: "emits (pg_do ox e) w [e]"
  by (simp add: emits_def)

lemma emits_pg_pool:
  "\<exists>pre. (pre = [] \<or> (\<exists>url. pre = [EPgConnect url])) \<and> emits (pg_pool ox) w pre"
proof (cases "pl_pg (w_pools w)")
  case (Some u)
  then show ?thesis by (intro exI [of _ "[]"]) (simp add: emits_def pg_pool_def)
next
  case None
  show ?thesis
  proof (cases "pg_url ox")
    case (Inl e)
    then show ?thesis using None by (intro exI [of _ "[]"]) (simp add: emits_def pg_pool_def)
  next
    case (Inr url)
    then show ?thesis using None
      by (intro exI [of _ "[EPgConnect url]"])
        (simp add: emits_def pg_pool_def State_Monad.update_def split: option.split)
  qed
qed

definition pg_prelude :: "str \<Rightarrow> event list" where
  "pg_prelude schema =
     [EPgBegin,
      EPgExec (''SET LOCAL statement_timeout = '' @ [CHR 0x27] @ ''30s'' @ [CHR 0x27]),
      EPgExec (''SET LOCAL search_path = '' @ [CHR 0x22] @ schema @ [CHR 0x22] @ '', public'')]"

lemma emits_pg_body:
  "emits (do { res \<leftarrow> perform (EPgRaw sql) (\<lambda>log. ox_pg_rows ox log sql);
          (case res of
             (rows, Some e) \<Rightarrow> ret (Inl (map_pg_error e))
           | (rows, None) \<Rightarrow> attempt (pg_do ox EPgCommit) (\<lambda>_. ret (Inr (f rows)))) }) w [EPgRaw sql, EPgCommit]"
  by (simp add: emits_def split: prod.split option.split sum.split)

lemma exec_postgres_schema_emits:
  "\<exists>pre. (pre = [] \<or> (\<exists>url. pre = [EPgConnect url])) \<and>
     emits (exec_postgres_inner ox (Some schema) sql) w (pre @ pg_prelude schema @ [EPgRaw sql, EPgCommit])"
proof -
  obtain pre where pre: "pre = [] \<or> (\<exists>url. pre = [EPgConnect url])" "emits (pg_pool ox) w pre"
    using emits_pg_pool by blast
  have thirty: "show_nat STATEMENT_TIMEOUT_SECS = ''30''"
    unfolding STATEMENT_TIMEOUT_SECS_def by code_simp
  have "emits (exec_postgres_inner ox (Some schema) sql) w
      (pre @ [EPgBegin] @ [EPgExec (''SET LOCAL statement_timeout = '' @ [CHR 0x27] @
                show_nat STATEMENT_TIMEOUT_SECS @ ''s'' @ [CHR 0x27])] @
       [EPgExec (''SET LOCAL search_path = '' @ [CHR 0x22] @ schema @ [CHR 0x22] @ '', public'')] @ [EPgRaw sql, EPgCommit])"
    unfolding exec_postgres_inner_def option.case
    by (intro emits_attempt pre(2) emits_pg_do emits_pg_body)
  then show ?thesis
    using pre(1) by (auto simp: pg_prelude_def thirty)
qed

subsection \<open>Properties\<close>

text \<open>C25: The author's SQL is only ever sent after its session's schema has been put first on the search
  path and the statement timeout has been set. Whatever the database answers, the calls of \<open>exec_postgres_in_schema\<close> are a beginning of:
  connect if needed, begin, set the timeout, set the search path to the schema, the script,
  commit; all of them when it succeeds. So the script is never sent when a step before it
  failed, and nothing is committed when the script failed. For a schema name that is not
  safe nothing at all is sent.\<close>

theorem postgres_scope_before_script:
  shows "(is_safe_resource_name schema \<longrightarrow>
            (\<exists>pre sent. (pre = [] \<or> (\<exists>url. pre = [EPgConnect url])) \<and>
               w_log (snd (run_state (exec_postgres_in_schema ox Tcp schema sql) w)) = w_log w @ sent \<and>
               prefix sent (pre @ pg_prelude schema @ [EPgRaw sql, EPgCommit]) \<and>
               (is_ok (fst (run_state (exec_postgres_in_schema ox Tcp schema sql) w)) \<longrightarrow>
                  sent = pre @ pg_prelude schema @ [EPgRaw sql, EPgCommit]))) \<and>
         (\<not> is_safe_resource_name schema \<longrightarrow>
            run_state (exec_postgres_in_schema ox Tcp schema sql) w =
              (Inl (DConfig (''unsafe postgres schema name: '' @ schema)), w))"
proof (cases "is_safe_resource_name schema")
  case True
  then have "exec_postgres_in_schema ox Tcp schema sql = exec_postgres_inner ox (Some schema) sql"
    by (simp add: exec_postgres_in_schema_def guarded_def)
  then show ?thesis
    using True exec_postgres_schema_emits [of ox schema sql w] unfolding emits_def by auto
next
  case False
  then show ?thesis by (simp add: exec_postgres_in_schema_def guarded_def)
qed

theorem postgres_scope_before_script_witness:
  "is_safe_resource_name ''playground_1_2'' \<and> \<not> is_safe_resource_name ''public'' \<and>
   run_state (exec_postgres_in_schema demo_outside Tcp ''public'' ''SELECT 1'') demo_world =
     (Inl (DConfig ''unsafe postgres schema name: public''), demo_world) \<and>
   (\<exists>sent. w_log (snd (run_state (exec_postgres_in_schema demo_outside Tcp ''playground_1_2'' ''SELECT 1'') demo_world)) =
      w_log demo_world @ sent)"
proof -
  have safe: "is_safe_resource_name ''playground_1_2''" and unsafe: "\<not> is_safe_resource_name ''public''"
    by code_simp+
  show ?thesis
    using postgres_scope_before_script [where schema = "''public''" and w = demo_world and ox = demo_outside and sql = "''SELECT 1''"] unsafe
      postgres_scope_before_script [where schema = "''playground_1_2''" and w = demo_world and ox = demo_outside and sql = "''SELECT 1''"] safe
    by fastforce
qed

definition hex_value :: "char \<Rightarrow> nat" where
  "hex_value c =
     (if is_digit c then digit_val c else of_char c - 55)"

fun url_decode :: "str \<Rightarrow> str" where
  "url_decode [] = []"
| "url_decode (c # s) =
     (if c = CHR ''%''
      then (case s of a # b # t \<Rightarrow> char_of (16 * hex_value a + hex_value b) # url_decode t | _ \<Rightarrow> [])
      else c # url_decode s)"

lemma hex_upper_cases: "n < 16 \<Longrightarrow> n \<in> {0, 1, 2, 3, 4, 5, 6, 7, 8, 9, 10, 11, 12, 13, 14, 15 :: nat}"
  by (simp add: numeral_eq_Suc less_Suc_eq)

lemma hex_value_upper: "n < 16 \<Longrightarrow> hex_value (hex_upper n) = n \<and> is_ascii_alphanumeric (hex_upper n)"
  by (drule hex_upper_cases)
    (auto simp: hex_value_def hex_upper_def is_digit_def digit_val_def is_ascii_alphanumeric_def is_upper_def
      is_lower_def)

lemma percent_not_unreserved: "\<not> is_unreserved (CHR ''%'')"
  by (simp add: is_unreserved_def is_ascii_alphanumeric_def is_upper_def is_lower_def is_digit_def)

lemma url_encode_Cons:
  "url_encode (c # s) =
     (if is_unreserved c then [c] else [CHR ''%'', hex_upper (of_char c div 16), hex_upper (of_char c mod 16)]) @
     url_encode s"
  by (simp add: url_encode_def)

lemma of_char_halves: "(of_char c :: nat) div 16 < 16" "(of_char c :: nat) mod 16 < 16"
  using nat_of_char_less_256 [of c] by (simp_all add: less_mult_imp_div_less)

text \<open>The password in the connection URL can be read back. \<open>url_encode\<close> yields only unreserved
  characters and percent signs, so the encoded password contains no character that ends the
  password part of the URL, and percent-decoding gives the password, whatever bytes it has.\<close>

theorem url_encode_round_trip:
  "url_decode (url_encode s) = s \<and> list_all (\<lambda>c. is_unreserved c \<or> c = CHR ''%'') (url_encode s)"
proof (induction s)
  case Nil
  then show ?case by (simp add: url_encode_def)
next
  case (Cons c s)
  note h = hex_value_upper [OF of_char_halves(1) [of c]] hex_value_upper [OF of_char_halves(2) [of c]]
  then have "is_unreserved (hex_upper (of_char c div 16))" "is_unreserved (hex_upper (of_char c mod 16))"
    by (simp_all add: is_unreserved_def)
  then show ?case
    using Cons h percent_not_unreserved by (auto simp: url_encode_Cons)
qed

end
