(* ===== verification/Placeholders.thy ===== *)
theory Placeholders
  imports Dispatcher
begin

text \<open>
  The text side of the handlers (helpers section of \<^verbatim>\<open>handlers.rs\<close>): placeholders of the
  scenario files and where their values come from, the guard on the paths of the manifest,
  quoting for the shell, and the registries of the docker commands and of the source
  coordinates. A registry is the list of its insertions; the keys are distinct.

  The lemmas show that the chained replacements act as one simultaneous substitution, that a
  guarded path stays below the examples directory, and that a quoted value is one word of
  the shell that means the value.
\<close>

subsection \<open>Deployments and names\<close>

definition deployment_of :: "config \<Rightarrow> deployment" where
  "deployment_of cfg =
     (if cfg_deployment_kind cfg = ''cloud'' then Cloud
      else if cfg_deployment_kind cfg = ''dev'' then Dev
      else SelfManaged)"

fun deployment_str :: "deployment \<Rightarrow> str" where
  "deployment_str Dev = ''dev''"
| "deployment_str SelfManaged = ''self-managed''"
| "deployment_str Cloud = ''cloud''"

definition kafka_topic_for :: "session \<Rightarrow> str" where
  "kafka_topic_for s = s_shuttle_name s @ ''_src''"

definition s3_bucket_for :: "session \<Rightarrow> str" where
  "s3_bucket_for s = ''file-ingestion''"

definition shell_quote :: "str \<Rightarrow> str" where
  "shell_quote s =
     [CHR 0x27] @
     concat (map (\<lambda>c. if c = CHR 0x27 then [CHR 0x27, CHR 0x5C, CHR 0x27, CHR 0x27] else [c]) s) @
     [CHR 0x27]"

definition validate_example_relative_path :: "str \<Rightarrow> (str, unit) result" where
  "validate_example_relative_path path =
     (if path = [] then Inl ''empty path''
      else if starts_with path ''/'' \<or> starts_with path [CHR 0x5C]
      then Inl (''absolute path rejected: '' @ path)
      else if list_ex (\<lambda>seg. seg = ''..'' \<or> seg = ''~'')
                (split_on (\<lambda>c. c = CHR ''/'' \<or> c = CHR 0x5C) path)
      then Inl (''path traversal rejected: '' @ path)
      else Inr ())"

definition read_example_file :: "outside \<Rightarrow> config \<Rightarrow> str \<Rightarrow> (str, str) result" where
  "read_example_file ox cfg path =
     rbind (validate_example_relative_path path) (\<lambda>_.
     (let full = path_join (cfg_examples_dir cfg) path
      in map_err (\<lambda>e. ''read '' @ full @ '': '' @ e) (ox_read ox full)))"

subsection \<open>Substitution\<close>

text \<open>\<open>std::env::var(a).or_else(|_| std::env::var(b))\<close>.\<close>

definition env_either :: "outside \<Rightarrow> str \<Rightarrow> str \<Rightarrow> str option" where
  "env_either ox a b = (case ox_env ox a of Some v \<Rightarrow> Some v | None \<Rightarrow> ox_env ox b)"

definition minio_endpoint :: "outside \<Rightarrow> str" where
  "minio_endpoint ox = env_or ox ''DS_MINIO_ENDPOINT'' ''http://minio:9000''"

definition substitute_placeholders :: "outside \<Rightarrow> str \<Rightarrow> session \<Rightarrow> str" where
  "substitute_placeholders ox s sess =
     (let minio_access = opt_unwrap_or (env_either ox ''DS_MINIO_ACCESS_KEY'' ''MINIO_ROOT_USER'') ''minioadmin'';
          minio_secret = opt_unwrap_or (env_either ox ''DS_MINIO_SECRET_KEY'' ''MINIO_ROOT_PASSWORD'') ''minioadmin'';
          s = replace_all s ''{shuttle}'' (s_shuttle_name sess);
          s = replace_all s ''{namespace}'' (s_namespace sess);
          s = replace_all s ''{connection}'' (s_connection_name sess);
          s = replace_all s ''{session}'' (uuid_display (s_id sess));
          s = replace_all s ''{minio_endpoint}'' (minio_endpoint ox);
          s = replace_all s ''{minio_access_key}'' minio_access
      in replace_all s ''{minio_secret_key}'' minio_secret)"

text \<open>The warning about a placeholder left over: it is logged and changes nothing.\<close>

definition looks_like_placeholder :: "str \<Rightarrow> bool" where
  "looks_like_placeholder inner \<longleftrightarrow>
     inner \<noteq> [] \<and> length inner \<le> 40 \<and> \<not> starts_with inner ''source_'' \<and>
     list_all (\<lambda>c. is_ascii_alphanumeric c \<or> c = CHR ''_'' \<or> c = CHR ''-'') inner"

function detect_unresolved_placeholder :: "str \<Rightarrow> str option" where
  "detect_unresolved_placeholder s =
     (case dropWhile (\<lambda>c. c \<noteq> CHR ''{'') s of
        [] \<Rightarrow> None
      | _ # t \<Rightarrow>
          (case dropWhile (\<lambda>c. c \<noteq> CHR ''}'') t of
             [] \<Rightarrow> None
           | _ # rest \<Rightarrow>
               (let inner = takeWhile (\<lambda>c. c \<noteq> CHR ''}'') t
                in if looks_like_placeholder inner then Some (''{'' @ inner @ ''}'')
                   else detect_unresolved_placeholder rest)))"
  by pat_completeness auto
termination
proof (relation "measure length")
  fix s t rest :: str and a b :: char
  assume "dropWhile (\<lambda>c. c \<noteq> CHR ''{'') s = a # t" and "dropWhile (\<lambda>c. c \<noteq> CHR ''}'') t = b # rest"
  then have "length (a # t) \<le> length s" "length (b # rest) \<le> length t"
    by (metis length_dropWhile_le)+
  then show "(rest, s) \<in> measure length" by simp
qed simp

fun substitute_placeholders_value :: "outside \<Rightarrow> json \<Rightarrow> session \<Rightarrow> json" where
  "substitute_placeholders_value ox (JString s) sess = JString (substitute_placeholders ox s sess)"
| "substitute_placeholders_value ox (JArray items) sess =
     JArray (map (\<lambda>v. substitute_placeholders_value ox v sess) items)"
| "substitute_placeholders_value ox (JObject kvs) sess =
     JObject (map (\<lambda>(k, v). (k, substitute_placeholders_value ox v sess)) kvs)"
| "substitute_placeholders_value ox other sess = other"

record source_coords_spec =
  co_env_prefix :: str
  co_host :: str
  co_port :: str
  co_db :: str
  co_user :: str
  co_pw :: str

definition source_coords_registry :: "(str \<times> source_coords_spec) list" where
  "source_coords_registry =
     [(''postgres'',
        \<lparr>co_env_prefix = ''DS_PG_PLAYGROUND'', co_host = ''localhost'', co_port = ''5432'', co_db = ''ecommerce'',
         co_user = ''postgres'', co_pw = ''postgres''\<rparr>),
      (''mysql'',
        \<lparr>co_env_prefix = ''DS_MYSQL_PLAYGROUND'', co_host = ''localhost'', co_port = ''3306'', co_db = ''iot'',
         co_user = ''root'', co_pw = ''rootpass''\<rparr>),
      (''redpanda'',
        \<lparr>co_env_prefix = ''DS_KAFKA_PLAYGROUND'', co_host = ''localhost'', co_port = ''19092'', co_db = [],
         co_user = [], co_pw = []\<rparr>),
      (''clickhouse'',
        \<lparr>co_env_prefix = ''DS_CLICKHOUSE_PLAYGROUND'', co_host = ''clickhouse-playground'', co_port = ''8123'',
         co_db = ''playground'', co_user = ''playground'', co_pw = ''playground''\<rparr>),
      (''redis'',
        \<lparr>co_env_prefix = ''DS_REDIS_PLAYGROUND'', co_host = ''redis-playground'', co_port = ''6379'', co_db = ''0'',
         co_user = [], co_pw = []\<rparr>),
      (''wiremock'',
        \<lparr>co_env_prefix = ''DS_WIREMOCK_PLAYGROUND'', co_host = ''wiremock-playground'', co_port = ''8080'', co_db = [],
         co_user = [], co_pw = []\<rparr>)]"

definition substitute_source_coords :: "outside \<Rightarrow> str \<Rightarrow> source option \<Rightarrow> str" where
  "substitute_source_coords ox s src =
     (case Option.bind (Option.bind src src_docker_service) (map_of source_coords_registry) of
        None \<Rightarrow> s
      | Some coords \<Rightarrow>
          (let value = (\<lambda>suffix dflt. env_or ox (co_env_prefix coords @ suffix) dflt);
               s = replace_all s ''{source_host}'' (value ''_HOST'' (co_host coords));
               s = replace_all s ''{source_port}'' (value ''_PORT'' (co_port coords));
               s = replace_all s ''{source_db}'' (value ''_DB'' (co_db coords));
               s = replace_all s ''{source_user}'' (value ''_USER'' (co_user coords))
           in replace_all s ''{source_password}'' (value ''_PASSWORD'' (co_pw coords))))"

text \<open>The shell bodies of the docker registry; \<open>container_cmd\<close> is never read.\<close>

definition docker_exec :: "str \<Rightarrow> str \<Rightarrow> str" where
  "docker_exec client b64 =
     ''echo '' @ b64 @ '' | base64 -d | docker compose -f /opt/datashuttle/examples/docker-compose.yml exec -T '' @ client"

definition docker_shell_registry :: "(str \<times> (str \<Rightarrow> str)) list" where
  "docker_shell_registry =
     [(''postgres'', docker_exec ''postgres psql -U postgres -d ecommerce -v ON_ERROR_STOP=1''),
      (''mysql'', docker_exec ''mysql mysql -uroot -prootpass --default-character-set=utf8mb4 iot''),
      (''clickhouse'', docker_exec ''clickhouse clickhouse-client --multiquery''),
      (''mongodb'', docker_exec ''mongodb mongosh --quiet''),
      (''cassandra'', docker_exec ''cassandra cqlsh'')]"

subsection \<open>Templates\<close>

text \<open>
  A template is literal text and holes. Its source form writes a hole as its name in braces;
  filling gives each hole that has a value that value, all at once.
\<close>

datatype piece = Lit str | Hole str

fun piece_text :: "piece \<Rightarrow> str" where
  "piece_text (Lit u) = u"
| "piece_text (Hole n) = ''{'' @ n @ ''}''"

definition template_text :: "piece list \<Rightarrow> str" where
  "template_text ps = concat (map piece_text ps)"

fun fill_piece :: "(str \<Rightarrow> str option) \<Rightarrow> piece \<Rightarrow> piece" where
  "fill_piece v (Lit u) = Lit u"
| "fill_piece v (Hole n) = (case v n of None \<Rightarrow> Hole n | Some x \<Rightarrow> Lit x)"

definition brace_free :: "str \<Rightarrow> bool" where
  "brace_free s \<longleftrightarrow> CHR ''{'' \<notin> set s \<and> CHR ''}'' \<notin> set s"

fun wf_piece :: "piece \<Rightarrow> bool" where
  "wf_piece (Lit u) = (CHR ''{'' \<notin> set u)"
| "wf_piece (Hole n) = brace_free n"

lemma closed_name_unique:
  assumes "c \<notin> set m" and "c \<notin> set n" and "m @ c # u = n @ c # t"
  shows "m = n"
  using assms
proof (induction m arbitrary: n)
  case Nil
  then show ?case by (cases n) auto
next
  case (Cons a m)
  then show ?case by (cases n) auto
qed

lemma replace_all_hole:
  assumes "brace_free n" and "brace_free m"
  shows "replace_all (''{'' @ m @ ''}'' @ t) (''{'' @ n @ ''}'') x =
           (if m = n then x else ''{'' @ m @ ''}'') @ replace_all t (''{'' @ n @ ''}'') x"
proof (cases "m = n")
  case True
  then show ?thesis using replace_all_match [of "''{'' @ n @ ''}''" t x] by simp
next
  case False
  have no: "strip_prefix (''{'' @ m @ ''}'' @ t) (''{'' @ n @ ''}'') = None"
  proof (rule ccontr)
    assume "strip_prefix (''{'' @ m @ ''}'' @ t) (''{'' @ n @ ''}'') \<noteq> None"
    then obtain u where "m @ CHR ''}'' # t = n @ CHR ''}'' # u" by (auto simp: strip_prefix_iff)
    then have "m = n" using assms closed_name_unique [of "CHR ''}''" m n t u] by (simp add: brace_free_def)
    with False show False ..
  qed
  have "CHR ''{'' \<notin> set (m @ ''}'')" using assms(2) by (simp add: brace_free_def)
  then have "replace_all ((m @ ''}'') @ t) (''{'' @ n @ ''}'') x = (m @ ''}'') @ replace_all t (''{'' @ n @ ''}'') x"
    by (intro replace_all_skip) simp_all
  then show ?thesis using no False by (simp add: replace_all_Cons)
qed

text \<open>One replacement fills one hole.\<close>

lemma replace_all_template:
  assumes "brace_free n" and "list_all wf_piece ps"
  shows "replace_all (template_text ps) (''{'' @ n @ ''}'') x = template_text (map (fill_piece [n \<mapsto> x]) ps)"
  using assms(2)
proof (induction ps)
  case Nil
  then show ?case by (simp add: template_text_def)
next
  case (Cons q ps)
  show ?case
  proof (cases q)
    case (Lit u)
    then have "replace_all (u @ template_text ps) (''{'' @ n @ ''}'') x =
        u @ replace_all (template_text ps) (''{'' @ n @ ''}'') x"
      using Cons.prems by (intro replace_all_skip) simp_all
    then show ?thesis using Lit Cons by (simp add: template_text_def)
  next
    case (Hole m)
    then show ?thesis
      using Cons replace_all_hole [OF assms(1), of m "template_text ps" x] by (simp add: template_text_def)
  qed
qed

lemma fill_wf:
  assumes "list_all wf_piece ps" and "\<And>n x. v n = Some x \<Longrightarrow> CHR ''{'' \<notin> set x"
  shows "list_all wf_piece (map (fill_piece v) ps)"
  using assms(1)
proof (induction ps)
  case (Cons p ps)
  have "wf_piece (fill_piece v p)" using Cons.prems assms(2) by (cases p) (auto split: option.splits)
  with Cons show ?case by simp
qed simp

definition replace_each :: "(str \<times> str) list \<Rightarrow> str \<Rightarrow> str" where
  "replace_each kvs s = fold (\<lambda>(n, x) s. replace_all s (''{'' @ n @ ''}'') x) kvs s"

lemma replace_each_template:
  assumes "list_all wf_piece ps" and "\<forall>(n, x) \<in> set kvs. brace_free n \<and> CHR ''{'' \<notin> set x"
  shows "replace_each kvs (template_text ps) = template_text (map (fill_piece (map_of kvs)) ps)"
  using assms
proof (induction kvs arbitrary: ps)
  case Nil
  have "fill_piece Map.empty p = p" for p by (cases p) auto
  then have "map (fill_piece Map.empty) ps = ps" by (simp add: map_idI)
  then show ?case by (simp add: replace_each_def)
next
  case (Cons kv kvs)
  obtain n x where kv: "kv = (n, x)" by (cases kv)
  have two: "fill_piece (map_of kvs) (fill_piece [n \<mapsto> x] p) = fill_piece (map_of ((n, x) # kvs)) p" for p
    by (cases p) auto
  have "list_all wf_piece (map (fill_piece [n \<mapsto> x]) ps)"
    using Cons.prems kv by (intro fill_wf) (auto split: if_splits)
  from Cons.IH [OF this] Cons.prems kv
  have "replace_each kvs (template_text (map (fill_piece [n \<mapsto> x]) ps)) =
      template_text (map (fill_piece (map_of ((n, x) # kvs))) ps)"
    by (simp add: two o_def del: map_of.simps)
  then show ?case
    using Cons.prems kv replace_all_template [of n ps x] by (simp add: replace_each_def del: map_of.simps)
qed

lemma ident_brace_free: "list_all ident_char s \<Longrightarrow> CHR ''{'' \<notin> set s"
  by (auto simp: list_all_iff ident_char_def is_ascii_alphanumeric_def is_upper_def is_lower_def is_digit_def)

lemma uuid_display_brace_free: "CHR ''{'' \<notin> set (uuid_display i)"
proof -
  have "list_all ident_char (hex_encode bs)" for bs
    using hex_encode_chars by (auto simp: list_all_iff)
  then have "CHR ''{'' \<notin> set (hex_encode (uuid_bytes i))" by (rule ident_brace_free)
  then show ?thesis
    by (auto simp: uuid_display_def Let_def dest: in_set_takeD in_set_dropD)
qed

lemma session_names_brace_free:
  assumes "session_ok sha256 k s"
  shows "CHR ''{'' \<notin> set (s_shuttle_name s)" "CHR ''{'' \<notin> set (s_namespace s)"
    "CHR ''{'' \<notin> set (s_connection_name s)"
  using assms derived_ident by (simp_all add: session_ok_def ident_brace_free)

subsection \<open>Paths\<close>

lemma split_on_refine:
  "split_on (\<lambda>c. P c \<or> Q c) s = concat (map (split_on Q) (split_on P s))"
proof (induction s)
  case Nil
  then show ?case by simp
next
  case (Cons c s)
  obtain h t where "split_on P s = h # t" by (cases "split_on P s") auto
  then show ?case using Cons by (cases "split_on Q h") auto
qed

lemma split_on_join: "P d \<Longrightarrow> split_on P (u @ d # t) = split_on P u @ split_on P t"
proof (induction u)
  case (Cons c u)
  then show ?case by (cases "split_on P u") auto
qed simp

text \<open>The directories a path goes through: the kernel's walk over its components.\<close>

fun walk :: "str list \<Rightarrow> str list \<Rightarrow> str list" where
  "walk here [] = here"
| "walk here (seg # segs) =
     (if seg = [] \<or> seg = ''.'' then walk here segs
      else if seg = ''..'' then walk (butlast here) segs
      else walk (here @ [seg]) segs)"

definition path_target :: "str \<Rightarrow> str list" where
  "path_target path = walk [] (split_on (\<lambda>c. c = CHR ''/'') path)"

lemma walk_append: "walk here (xs @ ys) = walk (walk here xs) ys"
  by (induction here xs rule: walk.induct) simp_all

lemma walk_down: "''..'' \<notin> set segs \<Longrightarrow> prefix here (walk here segs)"
proof (induction here segs rule: walk.induct)
  case (2 here seg segs)
  then show ?case by (auto intro: prefix_order.trans [of here "here @ [seg]"])
qed simp

lemma path_target_join: "base \<noteq> [] \<Longrightarrow> path_target (path_join base p) = walk (path_target base) (split_on (\<lambda>c. c = CHR ''/'') p)"
proof (cases "ends_with base ''/''")
  case True
  then obtain b where "base = b @ ''/''" by (auto simp: ends_with_iff suffix_def)
  then show "base \<noteq> [] \<Longrightarrow> ?thesis"
    using True by (simp add: path_join_def path_target_def split_on_join walk_append)
next
  case False
  then show "base \<noteq> [] \<Longrightarrow> ?thesis"
    by (simp add: path_join_def path_target_def split_on_join walk_append)
qed

lemma guarded_segments:
  assumes "validate_example_relative_path p = Inr ()"
  shows "''..'' \<notin> set (split_on (\<lambda>c. c = CHR ''/'') p)"
proof
  assume "''..'' \<in> set (split_on (\<lambda>c. c = CHR ''/'') p)"
  moreover have "split_on (\<lambda>c. c = CHR 0x5C) ''..'' = [''..'']" by simp
  ultimately have "''..'' \<in> set (split_on (\<lambda>c. c = CHR ''/'' \<or> c = CHR 0x5C) p)"
    by (force simp: split_on_refine)
  with assms show False
    by (auto simp: validate_example_relative_path_def list_ex_iff split: if_splits)
qed

subsection \<open>Words of the shell\<close>

text \<open>
  How the shell reads one word: inside single quotes every character is itself up to the
  closing quote, outside a backslash takes the next character literally, and a character
  the shell gives a meaning to ends the reading.
\<close>

definition shell_special :: "char \<Rightarrow> bool" where
  "shell_special c \<longleftrightarrow>
     c \<in> set (''|&;<>()$#*?[]~={}!'' @ [CHR 0x09, CHR 0x0A, CHR 0x20, CHR 0x22, CHR 0x60, CHR 0x5C, CHR 0x27])"

fun shell_word :: "bool \<Rightarrow> str \<Rightarrow> str option" where
  "shell_word True [] = None"
| "shell_word True (c # s) =
     (if c = CHR 0x27 then shell_word False s else map_option ((#) c) (shell_word True s))"
| "shell_word False [] = Some []"
| "shell_word False (c # s) =
     (if c = CHR 0x27 then shell_word True s
      else if c = CHR 0x5C then (case s of [] \<Rightarrow> None | d # t \<Rightarrow> map_option ((#) d) (shell_word False t))
      else if shell_special c then None
      else map_option ((#) c) (shell_word False s))"

lemma shell_word_quoted:
  "shell_word True
     (concat (map (\<lambda>c. if c = CHR 0x27 then [CHR 0x27, CHR 0x5C, CHR 0x27, CHR 0x27] else [c]) s) @ CHR 0x27 # t) =
     map_option ((@) s) (shell_word False t)"
  by (induction s) (simp_all add: option.map_comp o_def option.map_ident)

subsection \<open>Properties\<close>

text \<open>C29: The chained replacements of \<open>substitute_placeholders\<close> are one simultaneous substitution.
  For a session whose names are the derived ones and a template whose literal text has no
  opening brace (nor the endpoint and credentials of the object store), every hole named
  shuttle, namespace, connection, session or minio_* becomes that value of the session or of
  the environment, every other hole and all literal text stay as they are, and no value is
  scanned again for holes.\<close>

theorem placeholders_filled_at_once:
  assumes names: "session_ok sha256 k s" and wf: "list_all wf_piece ps"
    and access: "access = opt_unwrap_or (env_either ox ''DS_MINIO_ACCESS_KEY'' ''MINIO_ROOT_USER'') ''minioadmin''"
    and secret: "secret = opt_unwrap_or (env_either ox ''DS_MINIO_SECRET_KEY'' ''MINIO_ROOT_PASSWORD'') ''minioadmin''"
    and plain: "CHR ''{'' \<notin> set (minio_endpoint ox @ access @ secret)"
  shows "substitute_placeholders ox (template_text ps) s =
           template_text (map (fill_piece (map_of
             [(''shuttle'', s_shuttle_name s), (''namespace'', s_namespace s), (''connection'', s_connection_name s),
              (''session'', uuid_display (s_id s)), (''minio_endpoint'', minio_endpoint ox),
              (''minio_access_key'', access), (''minio_secret_key'', secret)])) ps)"
proof -
  let ?kvs = "[(''shuttle'', s_shuttle_name s), (''namespace'', s_namespace s), (''connection'', s_connection_name s),
              (''session'', uuid_display (s_id s)), (''minio_endpoint'', minio_endpoint ox),
              (''minio_access_key'', access), (''minio_secret_key'', secret)]"
  have "substitute_placeholders ox (template_text ps) s = replace_each ?kvs (template_text ps)"
    unfolding substitute_placeholders_def Let_def replace_each_def access secret by simp
  also have "\<dots> = template_text (map (fill_piece (map_of ?kvs)) ps)"
    using wf plain session_names_brace_free [OF names] uuid_display_brace_free
    by (intro replace_each_template) (simp_all add: brace_free_def)
  finally show ?thesis .
qed

theorem placeholders_filled_at_once_witness:
  "list_all wf_piece [Lit ''DROP '', Hole ''shuttle'', Lit '' '', Hole ''other''] \<and>
   substitute_placeholders demo_outside (template_text [Lit ''DROP '', Hole ''shuttle'', Lit '' '', Hole ''other'']) demo_session =
     template_text [Lit ''DROP '', Lit (s_shuttle_name demo_session), Lit '' '', Hole ''other'']"
proof -
  have wf: "list_all wf_piece [Lit ''DROP '', Hole ''shuttle'', Lit '' '', Hole ''other'']"
    by (simp add: brace_free_def)
  have env: "minio_endpoint demo_outside = ''http://minio:9000''" "env_either demo_outside a b = None" for a b
    by (simp_all add: minio_endpoint_def env_or_def env_either_def demo_outside_def)
  have "session_ok demo_sha 7 demo_session" by (simp add: demo_session_def session_ok_new ttl_defs)
  from placeholders_filled_at_once [OF this wf, of "''minioadmin''" demo_outside "''minioadmin''"] wf env
  show ?thesis by simp
qed

text \<open>C28: A path of the manifest never leaves the examples directory. Whatever path the guard accepts is
  not empty, and joined to the directory it leads to the directory itself or below it;
  \<open>read_example_file\<close> opens no other file: for a path the guard rejects it reads nothing.\<close>

theorem example_paths_stay_inside:
  assumes "cfg_examples_dir cfg \<noteq> []"
  shows "(case validate_example_relative_path p of
            Inr _ \<Rightarrow> p \<noteq> [] \<and>
              prefix (path_target (cfg_examples_dir cfg)) (path_target (path_join (cfg_examples_dir cfg) p)) \<and>
              read_example_file ox cfg p =
                map_err (\<lambda>e. ''read '' @ path_join (cfg_examples_dir cfg) p @ '': '' @ e)
                  (ox_read ox (path_join (cfg_examples_dir cfg) p))
          | Inl e \<Rightarrow> read_example_file ox cfg p = Inl e)"
proof (cases "validate_example_relative_path p")
  case (Inl e)
  then show ?thesis by (simp add: read_example_file_def)
next
  case (Inr u)
  then have "p \<noteq> []" by (auto simp: validate_example_relative_path_def)
  with Inr show ?thesis
    using walk_down [OF guarded_segments] path_target_join [OF assms]
    by (simp add: read_example_file_def Let_def)
qed

definition demo_config :: config where
  "demo_config = unwrap_or (load (\<lambda>_. None))
     \<lparr>cfg_bind_addr = [], cfg_manifest_path = None, cfg_auth_token = None, cfg_session_ttl = 0,
      cfg_session_quota_per_day = 0, cfg_api_base_url = None, cfg_api_service_token = None, cfg_api_timeout = 0,
      cfg_deployment_kind = [], cfg_examples_dir = [], cfg_data_dir = []\<rparr>"

theorem example_paths_stay_inside_witness:
  "cfg_examples_dir demo_config \<noteq> [] \<and> validate_example_relative_path ''scenarios/pg/init.sql'' = Inr () \<and>
   prefix (path_target (cfg_examples_dir demo_config))
     (path_target (path_join (cfg_examples_dir demo_config) ''scenarios/pg/init.sql''))"
proof -
  have dir: "cfg_examples_dir demo_config \<noteq> []" by (simp add: demo_config_def load_def env_number_def)
  have ok: "validate_example_relative_path ''scenarios/pg/init.sql'' = Inr ()" by code_simp
  show ?thesis
    using example_paths_stay_inside [OF dir, where p = "''scenarios/pg/init.sql''"] dir ok by simp
qed

text \<open>C31: Whatever text \<open>shell_quote\<close> is given, the shell reads its result as part of one word and
  that part means the text itself: no character of it can end the word, start a command or
  expand. What follows the closing quote is read as if the text were not there.\<close>

theorem shell_quote_is_one_word:
  "shell_word False (shell_quote s @ t) = map_option ((@) s) (shell_word False t)"
  by (simp add: shell_quote_def shell_word_quoted)

end
