(* ===== verification/Api_Client.thy ===== *)
theory Api_Client
  imports World
begin

text \<open>
  The client of the API process (\<^verbatim>\<open>datashuttle-playground-server/src/api_client.rs\<close>):
  \<open>classify_statement\<close> with its helpers, \<open>request\<close> and \<open>exec_sql\<close>. A request is one call of
  the log, with the service token and the headers of the impersonated identity.
\<close>

subsection \<open>Statements\<close>

datatype dispatch =
    CreateConnection
  | CreateShuttle
  | ResumeShuttle str
  | PauseShuttle str
  | DropShuttle str
  | DropConnection str

definition strip_sql_comments :: "str \<Rightarrow> str" where
  "strip_sql_comments sql =
     concat (map (\<lambda>line. (case find_sub line ''--'' of Some idx \<Rightarrow> take idx line | None \<Rightarrow> line) @ [CHR 0x0A])
       (str_lines sql))"

text \<open>The first piece of the split at white space, \<open>;\<close>, \<open>,\<close> and \<open>(\<close>.\<close>

fun name_head :: "str \<Rightarrow> str" where
  "name_head [] = []"
| "name_head (c # s) =
     (if ws_head (c # s) \<noteq> 0 \<or> c = CHR '';'' \<or> c = CHR '','' \<or> c = CHR ''('' then [] else c # name_head s)"

definition extract_name :: "str \<Rightarrow> str \<Rightarrow> str option" where
  "extract_name upper_rest original =
     (let start = length original - length (trim_start upper_rest);
          name = trim (name_head (drop start original))
      in if name = [] then None else Some name)"

definition classify_statement :: "str \<Rightarrow> dispatch option" where
  "classify_statement sql =
     (let trimmed = trim (trim_end_char (CHR '';'') (trim (strip_sql_comments sql)));
          upper = to_ascii_uppercase trimmed
      in if starts_with upper ''CREATE CONNECTION'' then Some CreateConnection
         else if starts_with upper ''CREATE SHUTTLE'' then Some CreateShuttle
         else (case strip_prefix upper ''RESUME SHUTTLE'' of
                 Some rest \<Rightarrow> map_option ResumeShuttle (extract_name rest trimmed)
               | None \<Rightarrow>
         (case strip_prefix upper ''PAUSE SHUTTLE'' of
                 Some rest \<Rightarrow> map_option PauseShuttle (extract_name rest trimmed)
               | None \<Rightarrow>
         (case strip_prefix upper ''DROP SHUTTLE'' of
                 Some rest \<Rightarrow>
                   map_option DropShuttle
                     (extract_name (opt_unwrap_or (strip_prefix rest '' IF EXISTS'') rest) trimmed)
               | None \<Rightarrow>
         (case strip_prefix upper ''DROP CONNECTION'' of
                 Some rest \<Rightarrow>
                   map_option DropConnection
                     (extract_name (opt_unwrap_or (strip_prefix rest '' IF EXISTS'') rest) trimmed)
               | None \<Rightarrow> None)))))"

definition first_chars :: "str \<Rightarrow> nat \<Rightarrow> str" where
  "first_chars s n = take_chars n s"

subsection \<open>Requests\<close>

datatype api_call_error =
    ABuild str
  | ATransport str
  | AStatus str str nat str
  | ADecode str

fun api_call_error_display :: "api_call_error \<Rightarrow> str" where
  "api_call_error_display (ABuild m) = ''api build request: '' @ m"
| "api_call_error_display (ATransport m) = ''api transport: '' @ m"
| "api_call_error_display (AStatus method url_path status body) =
     ''api '' @ method @ '' '' @ url_path @ '': HTTP '' @ show_nat status @ '': '' @ body"
| "api_call_error_display (ADecode m) = ''api decode body: '' @ m"

fun http_status :: "api_call_error \<Rightarrow> nat option" where
  "http_status (AStatus _ _ status _) = Some status"
| "http_status _ = None"

fun body_snippet :: "api_call_error \<Rightarrow> str option" where
  "body_snippet (AStatus _ _ _ body) = Some body"
| "body_snippet _ = None"

text \<open>The constructors \<open>build\<close> and \<open>transport\<close>, with the coordinates of the call.\<close>

definition api_build :: "str \<Rightarrow> str \<Rightarrow> str \<Rightarrow> api_call_error" where
  "api_build method path e = ABuild (method @ '' '' @ path @ '': '' @ e)"

definition api_transport :: "str \<Rightarrow> str \<Rightarrow> str \<Rightarrow> api_call_error" where
  "api_transport method path e = ATransport (method @ '' '' @ path @ '': '' @ e)"

record api_client =
  ac_base_url :: str
  ac_service_token :: str

definition api_client_new :: "str \<Rightarrow> str \<Rightarrow> api_client" where
  "api_client_new base_url service_token =
     \<lparr>ac_base_url = trim_end_char (CHR ''/'') base_url, ac_service_token = service_token\<rparr>"

definition api_url :: "api_client \<Rightarrow> str \<Rightarrow> str" where
  "api_url c path =
     (if starts_with path ''http://'' \<or> starts_with path ''https://'' then path else ac_base_url c @ path)"

definition impersonation :: "identity \<Rightarrow> (str \<times> str) list" where
  "impersonation i =
     (''X-Datashuttle-Impersonate-User-Id'', id_user_id i) #
     (case id_tenant_id i of None \<Rightarrow> [] | Some tid \<Rightarrow> [(''X-Datashuttle-Impersonate-Tenant-Id'', tid)])"

definition api_call :: "api_client \<Rightarrow> str \<Rightarrow> str \<Rightarrow> json option \<Rightarrow> identity \<Rightarrow> http_call" where
  "api_call c method path body i =
     \<lparr>hc_method = method, hc_url = api_url c path, hc_bearer = Some (ac_service_token c), hc_basic = None,
      hc_headers = impersonation i,
      hc_body = (case body of None \<Rightarrow> NoBody | Some b \<Rightarrow> JsonBody b)\<rparr>"

definition snippet :: "outside \<Rightarrow> json \<Rightarrow> str" where
  "snippet ox v = (case v of JString s \<Rightarrow> take_chars 400 s | other \<Rightarrow> take_chars 400 (ox_to_string ox other))"

definition api_request ::
    "outside \<Rightarrow> api_client \<Rightarrow> str \<Rightarrow> str \<Rightarrow> json option \<Rightarrow> identity \<Rightarrow>
       (api_call_error, nat \<times> json) result act" where
  "api_request ox c method path body i =
     (case ox_method_error ox method of
        Some e \<Rightarrow> ret (Inl (api_build method path e))
      | None \<Rightarrow>
          do { resp \<leftarrow> perform (EHttp (api_call c method path body i))
                          (\<lambda>log. ox_http ox log (api_call c method path body i));
               ret (case resp of
                      Inl e \<Rightarrow> Inl (api_transport method path (re_text e))
                    | Inr (status, Inl e) \<Rightarrow> Inl (ADecode (method @ '' '' @ path @ '': '' @ e))
                    | Inr (status, Inr text) \<Rightarrow>
                        let v = (case ox_from_str ox text of Some v \<Rightarrow> v | None \<Rightarrow> JString text)
                        in if status \<ge> 400 then Inl (AStatus method path status (snippet ox v))
                           else Inr (status, v)) })"

definition sql_body :: "str \<Rightarrow> json" where
  "sql_body sql = JObject [(''sql'', JString sql)]"

text \<open>The dash in the message is U+2014.\<close>

definition exec_sql ::
    "outside \<Rightarrow> api_client \<Rightarrow> identity \<Rightarrow> str \<Rightarrow> (api_call_error, json) result act" where
  "exec_sql ox c i sql =
     (let send = (\<lambda>method path body.
            do { r \<leftarrow> api_request ox c method path body i; ret (map_ok snd r) })
      in (case classify_statement sql of
            Some CreateConnection \<Rightarrow> send ''POST'' ''/api/v1/connections'' (Some (sql_body sql))
          | Some CreateShuttle \<Rightarrow> send ''POST'' ''/api/v1/shuttles'' (Some (sql_body sql))
          | Some (ResumeShuttle name) \<Rightarrow> send ''POST'' (''/api/v1/shuttles/'' @ name @ ''/resume'') None
          | Some (PauseShuttle name) \<Rightarrow> send ''POST'' (''/api/v1/shuttles/'' @ name @ ''/pause'') None
          | Some (DropShuttle name) \<Rightarrow> send ''DELETE'' (''/api/v1/shuttles/'' @ name) None
          | Some (DropConnection name) \<Rightarrow> send ''DELETE'' (''/api/v1/connections/'' @ name) None
          | None \<Rightarrow>
              ret (Inl (AStatus ''POST'' ''/api/v1/sql'' 400
                (''unsupported playground SQL '' @ [CHR 0xE2, CHR 0x80, CHR 0x94] @
                 '' only CREATE/DROP CONNECTION + CREATE/RESUME/PAUSE/DROP SHUTTLE are dispatched. Statement: '' @
                 first_chars sql 120)))))"

subsection \<open>Classification of the statements the server builds\<close>

text \<open>The characters of a keyword phrase followed by an identifier.\<close>

definition phrase_char :: "char \<Rightarrow> bool" where
  "phrase_char c \<longleftrightarrow> ident_char c \<or> c = CHR '' ''"

lemma ident_char_solid [simp]: "ident_char c \<Longrightarrow> solid c"
  unfolding ident_char_def by (elim disjE) (simp_all add: solid_def [of "CHR ''_''"] ascii_ws_def)

lemma ident_char_not: "ident_char c \<Longrightarrow> c \<noteq> CHR '';'' \<and> c \<noteq> CHR '','' \<and> c \<noteq> CHR ''(''"
  by (auto simp: ident_char_def is_ascii_alphanumeric_def is_upper_def is_lower_def is_digit_def)

lemma phrase_char_not:
  "phrase_char c \<Longrightarrow> c \<noteq> CHR 0x0A \<and> c \<noteq> CHR ''-'' \<and> c \<noteq> CHR '';'' \<and> c \<noteq> CHR 0x0D"
  by (auto simp: phrase_char_def ident_char_def is_ascii_alphanumeric_def is_upper_def is_lower_def is_digit_def)

lemma find_sub_absent: "c \<notin> set s \<Longrightarrow> find_sub s (c # p) = None"
  by (induction s) auto

lemma strip_comments_phrase:
  assumes "s \<noteq> []" and "list_all phrase_char s"
  shows "strip_sql_comments s = s @ [CHR 0x0A]"
proof -
  have "CHR ''-'' \<notin> set s" using assms(2) phrase_char_not by (auto simp: list_all_iff)
  moreover have "str_lines s = [s]"
    using assms split_on_clean [of s "\<lambda>c. c = CHR 0x0A"] phrase_char_not
    by (fastforce simp: str_lines_def list_all_iff)
  ultimately show ?thesis by (simp add: strip_sql_comments_def find_sub_absent)
qed

lemma trim_newline:
  assumes "s \<noteq> []" and "solid (hd s)" and "solid (last s)"
  shows "trim (s @ [CHR 0x0A]) = s"
proof -
  have "trim_start (s @ [CHR 0x0A]) = s @ [CHR 0x0A]" using assms(1,2) by (cases s) auto
  moreover have "trim_end (s @ [CHR 0x0A]) = trim_end s"
    by (simp add: trim_end_def strip_heads_step [of "CHR 0x0A # rev s"] ws_last.simps(2) ascii_ws_def)
  ultimately show ?thesis using assms(1,3) by (simp add: trim_def trim_end_solid)
qed

lemma phrase_trimmed:
  assumes "s \<noteq> []" and "list_all phrase_char s" and "solid (hd s)" and "solid (last s)"
  shows "trim (trim_end_char (CHR '';'') (trim (strip_sql_comments s))) = s"
proof -
  have "last s \<noteq> CHR '';''" using assms(1,2) phrase_char_not by (auto simp: list_all_iff)
  then have "trim_end_char (CHR '';'') s = s"
    using assms(1) by (cases s rule: rev_cases) (auto simp: trim_end_char_def)
  then show ?thesis
    using assms strip_comments_phrase trim_newline trim_solid by simp
qed

lemma name_head_ident: "list_all ident_char n \<Longrightarrow> name_head n = n"
  using ident_char_not by (induction n) auto

lemma upper_ident: "ident_char c \<Longrightarrow> ident_char (if is_lower c then char_of (of_char c - 32 :: nat) else c)"
  by (auto simp: ident_char_def is_ascii_alphanumeric_def is_lower_def is_upper_def)

lemma trim_start_upper:
  assumes "n \<noteq> []" and "list_all ident_char n"
  shows "trim_start (to_ascii_uppercase n) = to_ascii_uppercase n"
proof -
  obtain c m where "n = c # m" "ident_char c" using assms by (cases n) auto
  then show ?thesis
    using ident_char_solid [OF upper_ident [of c]] by (simp add: to_ascii_uppercase_def)
qed

lemma extract_ident:
  assumes "n \<noteq> []" and "list_all ident_char n" and "trim_start r = to_ascii_uppercase n"
  shows "extract_name r (kw @ n) = Some n"
proof -
  have "trim n = n" using assms(2) by (intro trim_all_solid) (simp add: list_all_iff)
  then show ?thesis
    using assms by (simp add: extract_name_def name_head_ident)
qed

lemma phrase_ident:
  assumes "is_safe_identifier n" and "kw \<noteq> []" and "list_all phrase_char kw" and "solid (hd kw)"
  shows "trim (trim_end_char (CHR '';'') (trim (strip_sql_comments (kw @ n)))) = kw @ n"
proof (rule phrase_trimmed)
  have n: "n \<noteq> []" "list_all ident_char n" using assms(1) by (simp_all add: is_safe_identifier_def)
  then show "list_all phrase_char (kw @ n)" using assms(3) by (auto simp: list_all_iff phrase_char_def)
  show "solid (last (kw @ n))" using n by (auto simp: list_all_iff)
  show "kw @ n \<noteq> []" "solid (hd (kw @ n))" using assms(2,4) by auto
qed

lemma keyword_phrases:
  "list_all phrase_char ''DROP SHUTTLE IF EXISTS ''" "solid (CHR ''D'')"
  "list_all phrase_char ''DROP CONNECTION IF EXISTS ''"
  "list_all phrase_char ''RESUME SHUTTLE ''" "solid (CHR ''R'')"
  "list_all phrase_char ''PAUSE SHUTTLE ''" "solid (CHR ''P'')"
  "list_all phrase_char ''DROP NAMESPACE IF EXISTS ''"
  by (simp_all add: phrase_char_def ident_char_def is_ascii_alphanumeric_def is_upper_def is_lower_def
      is_digit_def solid_def ascii_ws_def)

lemma classify_built:
  assumes "is_safe_identifier n"
  shows "classify_statement (''DROP SHUTTLE IF EXISTS '' @ n) = Some (DropShuttle n)"
    and "classify_statement (''DROP CONNECTION IF EXISTS '' @ n) = Some (DropConnection n)"
    and "classify_statement (''RESUME SHUTTLE '' @ n) = Some (ResumeShuttle n)"
    and "classify_statement (''PAUSE SHUTTLE '' @ n) = Some (PauseShuttle n)"
proof -
  have n: "n \<noteq> []" "list_all ident_char n" using assms by (simp_all add: is_safe_identifier_def)
  note ext = extract_ident [OF n] trim_start_upper [OF n]
  have kw: "to_ascii_uppercase (''DROP SHUTTLE IF EXISTS '' @ n) = ''DROP SHUTTLE IF EXISTS '' @ to_ascii_uppercase n"
    "to_ascii_uppercase (''DROP CONNECTION IF EXISTS '' @ n) = ''DROP CONNECTION IF EXISTS '' @ to_ascii_uppercase n"
    "to_ascii_uppercase (''RESUME SHUTTLE '' @ n) = ''RESUME SHUTTLE '' @ to_ascii_uppercase n"
    "to_ascii_uppercase (''PAUSE SHUTTLE '' @ n) = ''PAUSE SHUTTLE '' @ to_ascii_uppercase n"
    by (simp_all add: to_ascii_uppercase_def is_lower_def)
  have e: "extract_name ('' '' @ to_ascii_uppercase n) (k @ n) = Some n" for k
    by (rule ext(1)) (simp add: ext(2))
  show "classify_statement (''DROP SHUTTLE IF EXISTS '' @ n) = Some (DropShuttle n)"
    using phrase_ident [OF assms _ keyword_phrases(1)] keyword_phrases(2) kw(1) e [of "''DROP SHUTTLE IF EXISTS ''"]
    by (simp add: classify_statement_def Let_def)
  show "classify_statement (''DROP CONNECTION IF EXISTS '' @ n) = Some (DropConnection n)"
    using phrase_ident [OF assms _ keyword_phrases(3)] keyword_phrases(2) kw(2) e [of "''DROP CONNECTION IF EXISTS ''"]
    by (simp add: classify_statement_def Let_def)
  show "classify_statement (''RESUME SHUTTLE '' @ n) = Some (ResumeShuttle n)"
    using phrase_ident [OF assms _ keyword_phrases(4)] keyword_phrases(5) kw(3) e [of "''RESUME SHUTTLE ''"]
    by (simp add: classify_statement_def Let_def)
  show "classify_statement (''PAUSE SHUTTLE '' @ n) = Some (PauseShuttle n)"
    using phrase_ident [OF assms _ keyword_phrases(6)] keyword_phrases(7) kw(4) e [of "''PAUSE SHUTTLE ''"]
    by (simp add: classify_statement_def Let_def)
qed

lemma classify_drop_namespace:
  assumes "is_safe_identifier n"
  shows "classify_statement (''DROP NAMESPACE IF EXISTS '' @ n @ '' CASCADE'') = None"
proof -
  let ?s = "''DROP NAMESPACE IF EXISTS '' @ n @ '' CASCADE''"
  have n: "list_all ident_char n" using assms by (simp add: is_safe_identifier_def)
  have tail: "list_all phrase_char '' CASCADE''" "solid (CHR ''E'')"
    by (simp_all add: phrase_char_def ident_char_def is_ascii_alphanumeric_def is_upper_def is_lower_def
        is_digit_def solid_def ascii_ws_def)
  have "list_all phrase_char ?s"
    using n tail(1) keyword_phrases(8) by (auto simp: list_all_iff phrase_char_def)
  then have "trim (trim_end_char (CHR '';'') (trim (strip_sql_comments ?s))) = ?s"
    using keyword_phrases(2) tail(2) by (intro phrase_trimmed) simp_all
  moreover have "to_ascii_uppercase ?s = ''DROP NAMESPACE IF EXISTS '' @ to_ascii_uppercase (n @ '' CASCADE'')"
    by (simp add: to_ascii_uppercase_def is_lower_def)
  ultimately show ?thesis by (simp add: classify_statement_def Let_def)
qed

text \<open>The start of a statement survives the stripping of comments, semicolons and white space.\<close>

lemma ws_last_within:
  assumes "solid c" shows "ws_last (u @ c # v) \<le> length u"
proof (cases u)
  case Nil then show ?thesis using assms by simp
next
  case (Cons a u')
  show ?thesis
  proof (cases u')
    case Nil
    then show ?thesis using Cons assms
      by (auto simp: ws_last.simps(2) ws2_def ws3_def solid_def split: list.splits)
  next
    case (Cons b u'')
    then show ?thesis using \<open>u = a # u'\<close> assms
      by (cases u'') (auto simp: ws_last.simps(2) ws2_def ws3_def solid_def split: list.splits)
  qed
qed

lemma strip_heads_keeps:
  assumes "solid c"
  shows "suffix (c # v) (strip_heads ws_last (u @ c # v))"
proof (induction u rule: length_induct)
  case (1 u)
  let ?n = "ws_last (u @ c # v)"
  show ?case
  proof (cases "?n = 0")
    case True
    then show ?thesis by (simp add: strip_heads_stop suffix_appendI)
  next
    case False
    have le: "?n \<le> length u" using assms by (rule ws_last_within)
    then have "drop ?n (u @ c # v) = drop ?n u @ c # v" by simp
    moreover have "length (drop ?n u) < length u" using False le by simp
    ultimately show ?thesis using 1 False by (simp add: strip_heads_step)
  qed
qed

lemma trim_keeps_prefix:
  assumes "prefix p s" and "p \<noteq> []" and "solid (hd p)" and "solid (last p)"
  shows "prefix p (trim s)"
proof -
  obtain t where s: "s = p @ t" using assms(1) by (auto elim: prefixE)
  have start: "trim_start s = s" using assms(2,3) s by (cases p) auto
  obtain q c where p: "p = q @ [c]" using assms(2) by (cases p rule: rev_cases) auto
  then have "suffix (rev p) (strip_heads ws_last (rev t @ rev p))"
    using strip_heads_keeps [of c "rev q" "rev t"] assms(4) by simp
  then show ?thesis using start s by (simp add: trim_def trim_end_def suffix_to_prefix)
qed

lemma trim_end_char_keeps_prefix:
  assumes "prefix p s" and "p \<noteq> []" and "last p \<noteq> d"
  shows "prefix p (trim_end_char d s)"
proof -
  obtain t where s: "s = p @ t" using assms(1) by (auto elim: prefixE)
  have "dropWhile (\<lambda>c. c = d) (rev t @ rev p) = dropWhile (\<lambda>c. c = d) (rev t) @ rev p"
    using assms(2,3) by (cases p rule: rev_cases) (auto simp: dropWhile_append)
  then show ?thesis by (simp add: trim_end_char_def s)
qed

lemma find_sub_beyond:
  assumes "CHR ''-'' \<notin> set p" and "find_sub (p @ h) ''--'' = Some i"
  shows "length p \<le> i"
proof (rule ccontr)
  assume "\<not> length p \<le> i"
  then have "drop i (p @ h) = p ! i # drop (Suc i) p @ h" by (simp add: Cons_nth_drop_Suc)
  moreover have "prefix ''--'' (drop i (p @ h))" using find_sub_Some [OF assms(2)] by simp
  ultimately have "p ! i = CHR ''-''" by simp
  with assms(1) \<open>\<not> length p \<le> i\<close> show False by (metis not_le nth_mem)
qed

lemma strip_comments_keeps_prefix:
  assumes "prefix p s" and "p \<noteq> []" and "list_all (\<lambda>c. c \<noteq> CHR ''-'' \<and> c \<noteq> CHR 0x0A \<and> c \<noteq> CHR 0x0D) p"
  shows "prefix p (strip_sql_comments s)"
proof -
  obtain t where s: "s = p @ t" using assms(1) by (auto elim: prefixE)
  obtain h rest where t: "split_on (\<lambda>c. c = CHR 0x0A) t = h # rest" by (cases "split_on (\<lambda>c. c = CHR 0x0A) t") auto
  have "split_on (\<lambda>c. c = CHR 0x0A) (q @ t) = (q @ h) # rest" if "list_all (\<lambda>c. c \<noteq> CHR 0x0A) q" for q
    using that t by (induction q) auto
  then have split: "split_on (\<lambda>c. c = CHR 0x0A) s = (p @ h) # rest"
    using assms(3) s by (simp add: list_all_iff)
  have "prefix p (strip_cr (p @ h))"
  proof (cases h rule: rev_cases)
    case Nil
    moreover have "last p \<noteq> CHR 0x0D" using assms(2,3) last_in_set [of p] by (auto simp: list_all_iff)
    ultimately show ?thesis by (simp add: strip_cr_def)
  next
    case (snoc ys y)
    then show ?thesis by (simp add: strip_cr_def butlast_append)
  qed
  then obtain h' ls where "str_lines s = (p @ h') # ls"
    using split assms(2) by (cases rest) (auto simp: str_lines_def prefix_def)
  moreover have "prefix p (case find_sub (p @ h') ''--'' of Some idx \<Rightarrow> take idx (p @ h') | None \<Rightarrow> p @ h')"
  proof (cases "find_sub (p @ h') ''--''")
    case (Some idx)
    moreover have "CHR ''-'' \<notin> set p" using assms(3) by (auto simp: list_all_iff)
    ultimately show ?thesis using find_sub_beyond [of p h' idx] by simp
  qed simp
  ultimately show ?thesis by (simp add: strip_sql_comments_def prefix_prefix)
qed

text \<open>Whatever follows, the statement is a drop of a connection, or none.\<close>

lemma classify_drop_connection:
  "classify_statement (''DROP CONNECTION IF EXISTS '' @ n) \<in> insert None (range (\<lambda>x. Some (DropConnection x)))"
proof -
  let ?p = "''DROP CONNECTION''" and ?s = "''DROP CONNECTION IF EXISTS '' @ n"
  have solid: "solid (hd ?p)" "solid (last ?p)" by (simp_all add: solid_def ascii_ws_def)
  have "prefix ?p (strip_sql_comments ?s)" by (rule strip_comments_keeps_prefix) simp_all
  then have "prefix ?p (trim (trim_end_char (CHR '';'') (trim (strip_sql_comments ?s))))"
    by (intro trim_keeps_prefix trim_end_char_keeps_prefix solid) simp_all
  then obtain r where r: "trim (trim_end_char (CHR '';'') (trim (strip_sql_comments ?s))) = ?p @ r"
    by (auto elim: prefixE)
  have "to_ascii_uppercase (?p @ r) = ?p @ to_ascii_uppercase r"
    by (simp add: to_ascii_uppercase_def is_lower_def)
  then show ?thesis
    unfolding classify_statement_def r Let_def
    by (cases "extract_name (opt_unwrap_or (strip_prefix (to_ascii_uppercase r) '' IF EXISTS'') (to_ascii_uppercase r)) (?p @ r)") simp_all
qed

subsection \<open>What a request does\<close>

lemma api_request_world:
  "ox_method_error ox method = None \<Longrightarrow>
     snd (run_state (api_request ox c method path body i) w) =
       w\<lparr>w_log := w_log w @ [EHttp (api_call c method path body i)]\<rparr>"
  by (simp add: api_request_def)

lemma calls_append: "snd (run_state m w) = w\<lparr>w_log := w_log w @ es\<rparr> \<Longrightarrow> calls m w = es"
  by (simp add: calls_def)

lemma exec_sql_drop:
  assumes "is_safe_identifier n" and "ox_method_error ox ''DELETE'' = None"
  shows "snd (run_state (exec_sql ox c i (''DROP SHUTTLE IF EXISTS '' @ n)) w) =
           w\<lparr>w_log := w_log w @ [EHttp (api_call c ''DELETE'' (''/api/v1/shuttles/'' @ n) None i)]\<rparr>"
    and "snd (run_state (exec_sql ox c i (''DROP CONNECTION IF EXISTS '' @ n)) w) =
           w\<lparr>w_log := w_log w @ [EHttp (api_call c ''DELETE'' (''/api/v1/connections/'' @ n) None i)]\<rparr>"
  unfolding exec_sql_def Let_def classify_built [OF assms(1)] option.case dispatch.case snd_run_bind_ret
  by (rule api_request_world [OF assms(2)])+

subsection \<open>Properties\<close>

text \<open>C24: A statement the server builds for a name reaches exactly that object. For every safe
  identifier, dropping a shuttle or a connection sends one DELETE to the path of that name
  under the client's base URL, with the service token and the identity's user (and tenant)
  to impersonate, and does nothing else; resuming and pausing a shuttle are classified with
  that name too. Case is preserved whatever the name, even when it looks like a keyword.\<close>

theorem built_statements_reach_their_object:
  assumes safe: "is_safe_identifier n" and delete: "ox_method_error ox ''DELETE'' = None"
  shows "snd (run_state (exec_sql ox c i (''DROP SHUTTLE IF EXISTS '' @ n)) w) =
           w\<lparr>w_log := w_log w @ [EHttp
             \<lparr>hc_method = ''DELETE'', hc_url = ac_base_url c @ ''/api/v1/shuttles/'' @ n,
              hc_bearer = Some (ac_service_token c), hc_basic = None, hc_headers = impersonation i,
              hc_body = NoBody\<rparr>]\<rparr> \<and>
         snd (run_state (exec_sql ox c i (''DROP CONNECTION IF EXISTS '' @ n)) w) =
           w\<lparr>w_log := w_log w @ [EHttp
             \<lparr>hc_method = ''DELETE'', hc_url = ac_base_url c @ ''/api/v1/connections/'' @ n,
              hc_bearer = Some (ac_service_token c), hc_basic = None, hc_headers = impersonation i,
              hc_body = NoBody\<rparr>]\<rparr> \<and>
         classify_statement (''RESUME SHUTTLE '' @ n) = Some (ResumeShuttle n) \<and>
         classify_statement (''PAUSE SHUTTLE '' @ n) = Some (PauseShuttle n)"
  using exec_sql_drop [OF safe delete] classify_built(3,4) [OF safe]
  by (simp add: api_call_def api_url_def)

definition demo_client :: api_client where
  "demo_client = api_client_new ''http://api:8080/'' ''svc''"

definition demo_identity :: identity where
  "demo_identity = \<lparr>id_user_id = ''alice'', id_tenant_id = None, id_actor_id = None, id_auth_method = ''oidc''\<rparr>"

theorem built_statements_reach_their_object_witness:
  "is_safe_identifier ''pg_1_2'' \<and> ox_method_error demo_outside ''DELETE'' = None \<and>
   w_log (snd (run_state (exec_sql demo_outside demo_client demo_identity ''DROP SHUTTLE IF EXISTS pg_1_2'') demo_world)) =
     [EHttp \<lparr>hc_method = ''DELETE'', hc_url = ''http://api:8080/api/v1/shuttles/pg_1_2'',
        hc_bearer = Some ''svc'', hc_basic = None,
        hc_headers = [(''X-Datashuttle-Impersonate-User-Id'', ''alice'')], hc_body = NoBody\<rparr>]"
proof -
  have safe: "is_safe_identifier ''pg_1_2''" by code_simp
  have ok: "ox_method_error demo_outside ''DELETE'' = None" by (simp add: demo_outside_def)
  show ?thesis
    using built_statements_reach_their_object [OF safe ok, of demo_client demo_identity demo_world] safe ok
    by (simp add: demo_world_def demo_client_def api_client_new_def trim_end_char_def impersonation_def
        demo_identity_def)
qed

text \<open>A namespace is never dropped through SQL. \<open>exec_sql\<close> has no case for \<open>DROP NAMESPACE\<close>: for
  every session namespace, the statement \<open>reset_session\<close> sends to empty the target returns
  the client-side error 400 and no request is made.\<close>

theorem drop_namespace_never_sent:
  assumes "is_safe_identifier n"
  shows "snd (run_state (exec_sql ox c i (''DROP NAMESPACE IF EXISTS '' @ n @ '' CASCADE'')) w) = w \<and>
         (\<exists>body. fst (run_state (exec_sql ox c i (''DROP NAMESPACE IF EXISTS '' @ n @ '' CASCADE'')) w) =
            Inl (AStatus ''POST'' ''/api/v1/sql'' 400 body))"
  unfolding exec_sql_def Let_def classify_drop_namespace [OF assms] by simp

theorem drop_namespace_never_sent_witness:
  "is_safe_identifier ''playground_1_2'' \<and>
   snd (run_state (exec_sql demo_outside demo_client demo_identity
     (''DROP NAMESPACE IF EXISTS '' @ ''playground_1_2'' @ '' CASCADE'')) demo_world) = demo_world"
proof -
  have "is_safe_identifier ''playground_1_2''" by code_simp
  then show ?thesis using drop_namespace_never_sent by blast
qed

end
