(* ===== verification/Actions.thy ===== *)
theory Actions
  imports Placeholders Api_Client
begin

text \<open>
  The executor of \<^verbatim>\<open>handlers.rs\<close>: how one action of the manifest runs (\<open>run_action\<close> and the
  functions it dispatches to), how source SQL chooses its transport, and how the resources of
  a session are provisioned. The server's shared state is the record \<open>server\<close>: its
  configuration, whether the session manager exists, the API client if configured, and the
  dispatcher. The manager itself, the quota and the metrics live in the world.
\<close>

record server =
  srv_config :: config
  srv_sessions :: bool
  srv_api :: "api_client option"
  srv_dispatcher :: dispatcher

subsection \<open>Processes\<close>

definition run_process :: "outside \<Rightarrow> str \<Rightarrow> str list \<Rightarrow> (str, process_output) result act" where
  "run_process ox prog args = perform (EProcess prog args) (\<lambda>log. ox_process ox log prog args)"

fun join_str :: "str \<Rightarrow> str list \<Rightarrow> str" where
  "join_str sep [] = []"
| "join_str sep [x] = x"
| "join_str sep (x # y # ys) = x @ sep @ join_str sep (y # ys)"

definition first_lines :: "str \<Rightarrow> str" where
  "first_lines s = join_str '' | '' (take 5 (str_lines s))"

definition run_shell :: "outside \<Rightarrow> str \<Rightarrow> session \<Rightarrow> (str, str \<times> str) result act" where
  "run_shell ox cmd sess =
     do { r \<leftarrow> run_process ox ''bash'' [''-c'', substitute_placeholders ox cmd sess];
          ret (rbind (map_err (\<lambda>e. ''spawn bash: '' @ e) r) (\<lambda>out.
            if \<not> po_success out
            then Inl (''command exited with '' @ po_status out @ '': '' @ first_lines (po_stderr out))
            else Inr (po_stdout out, po_stderr out))) }"

subsection \<open>Source SQL\<close>

definition exec_source_sql :: "outside \<Rightarrow> source \<Rightarrow> str \<Rightarrow> bool \<Rightarrow> (str, str \<times> str) result act" where
  "exec_source_sql ox src sql tcp_dispatcher_active =
     (case src_docker_service src of
        None \<Rightarrow> ret (Inl (''source '' @ src_id src @ '' has no docker_service''))
      | Some service \<Rightarrow>
          if tcp_dispatcher_active \<and> (service = ''postgres'' \<or> service = ''mysql'')
          then ret (Inl (''playground shell dispatch is disabled for service='' @ service @
                 '' when the TCP dispatcher is active '' @ [CHR 0xE2, CHR 0x80, CHR 0x94] @
                 '' must go through the dispatcher instead''))
          else (case map_of docker_shell_registry service of
                  None \<Rightarrow> ret (Inl (''no source SQL dispatcher for service '' @ service))
                | Some build_shell \<Rightarrow>
                    do { r \<leftarrow> run_process ox ''bash'' [''-c'', build_shell (ox_base64 ox sql)];
                         ret (rbind (map_err (\<lambda>e. ''spawn docker exec: '' @ e) r) (\<lambda>out.
                           if \<not> po_success out
                           then Inl (''source SQL failed on '' @ service @ '': '' @ first_lines (po_stderr out))
                           else Inr (po_stdout out, po_stderr out))) }))"

text \<open>The four databases the dispatcher covers, by either of their service names.\<close>

definition serves :: "str \<Rightarrow> str \<Rightarrow> bool" where
  "serves service db \<longleftrightarrow> service = db \<or> service = db @ ''-playground''"

definition isolated_sql :: "str \<Rightarrow> str \<Rightarrow> str \<Rightarrow> str" where
  "isolated_sql service namespace sql =
     (if serves service ''postgres''
      then ''CREATE SCHEMA IF NOT EXISTS '' @ [CHR 0x22] @ namespace @ [CHR 0x22] @ '';'' @ [CHR 0x0A] @
           ''SET search_path = '' @ [CHR 0x22] @ namespace @ [CHR 0x22] @ '', public;'' @ [CHR 0x0A] @ sql
      else if serves service ''mysql'' \<or> serves service ''clickhouse''
      then ''CREATE DATABASE IF NOT EXISTS '' @ backtick namespace @ '';'' @ [CHR 0x0A] @
           ''USE '' @ backtick namespace @ '';'' @ [CHR 0x0A] @ sql
      else sql)"

definition shell_source_sql :: "outside \<Rightarrow> server \<Rightarrow> source \<Rightarrow> str \<Rightarrow> str \<Rightarrow> str \<Rightarrow> (str, str \<times> str) result act" where
  "shell_source_sql ox srv src service namespace sql =
     exec_source_sql ox src
       (if is_safe_resource_name namespace then isolated_sql service namespace sql else sql)
       (is_tcp_backed (srv_dispatcher srv))"

text \<open>The result of the dispatcher stands, unless it was unavailable.\<close>

definition or_unavailable ::
    "'a dresult \<Rightarrow> (str, 'a) result act \<Rightarrow> (str, 'a) result act" where
  "or_unavailable m fallback =
     do { r \<leftarrow> m;
          (case r of
             Inr out \<Rightarrow> ret (Inr out)
           | Inl DUnavailable \<Rightarrow> fallback
           | Inl other \<Rightarrow> ret (Inl (dispatch_error_display other))) }"

definition dispatch_source_sql ::
    "outside \<Rightarrow> server \<Rightarrow> source \<Rightarrow> str \<Rightarrow> str \<Rightarrow> (str, str \<times> str) result act" where
  "dispatch_source_sql ox srv src namespace sql =
     (case src_docker_service src of
        None \<Rightarrow> ret (Inl (''source '' @ src_id src @ '' has no docker_service''))
      | Some service \<Rightarrow>
          (let d = srv_dispatcher srv;
               use_isolation = is_safe_resource_name namespace;
               shell = shell_source_sql ox srv src service namespace sql
           in if serves service ''postgres''
              then or_unavailable
                     (if use_isolation then exec_postgres_in_schema ox d namespace sql else exec_postgres ox d sql) shell
              else if serves service ''mysql''
              then or_unavailable
                     (if use_isolation then exec_mysql_in_database ox d namespace sql else exec_mysql ox d sql) shell
              else if serves service ''clickhouse''
              then or_unavailable
                     (if use_isolation then exec_clickhouse_in_database ox d namespace sql else exec_clickhouse ox d sql) shell
              else if serves service ''redis''
              then or_unavailable
                     (if use_isolation then exec_redis_in_namespace ox d namespace sql else exec_redis ox d sql)
                     (ret (Inl (''redis dispatcher unavailable '' @ [CHR 0xE2, CHR 0x80, CHR 0x94] @
                        '' cloud playground requires DS_REDIS_PLAYGROUND_HOST + redis-playground sidecar'')))
              else shell))"

definition provision_session_resources :: "outside \<Rightarrow> server \<Rightarrow> source \<Rightarrow> str \<Rightarrow> (str, unit) result act" where
  "provision_session_resources ox srv src namespace =
     (let d = srv_dispatcher srv;
          via = (\<lambda>tcp shell_sql.
            or_unavailable tcp
              (if \<not> is_safe_resource_name namespace then ret (Inl (''unsafe resource name: '' @ namespace))
               else do { r \<leftarrow> exec_source_sql ox src shell_sql (is_tcp_backed d); ret (map_ok (\<lambda>_. ()) r) }))
      in if src_docker_service src = Some ''postgres''
         then via (provision_postgres_schema ox d namespace)
                (''CREATE SCHEMA IF NOT EXISTS '' @ [CHR 0x22] @ namespace @ [CHR 0x22] @ '';'')
         else if src_docker_service src = Some ''mysql''
         then via (provision_mysql_database ox d namespace)
                (''CREATE DATABASE IF NOT EXISTS '' @ backtick namespace @ '';'')
         else if src_docker_service src = Some ''clickhouse''
         then via (provision_clickhouse_database ox d namespace)
                (''CREATE DATABASE IF NOT EXISTS '' @ backtick namespace @ '';'')
         else ret (Inr ()))"

subsection \<open>Kafka and object store\<close>

text \<open>\<open>Path::file_name\<close> and \<open>Path::extension\<close> of a relative path.\<close>

definition path_file_name :: "str \<Rightarrow> str option" where
  "path_file_name p =
     (let comps = filter (\<lambda>s. s \<noteq> [] \<and> s \<noteq> ''.'') (split_on (\<lambda>c. c = CHR ''/'') p)
      in if comps = [] \<or> last comps = ''..'' then None else Some (last comps))"

definition path_extension :: "str \<Rightarrow> str option" where
  "path_extension p =
     Option.bind (path_file_name p) (\<lambda>name.
       (let parts = split_on (\<lambda>c. c = CHR ''.'') name
        in if length parts = 1 \<or> (length parts = 2 \<and> hd parts = []) then None else Some (last parts)))"

definition EXAMPLES :: str where
  "EXAMPLES = ''/opt/datashuttle/examples''"

definition kafka_host :: "outside \<Rightarrow> str" where
  "kafka_host ox = env_or ox ''DS_KAFKA_PLAYGROUND_HOST'' ''redpanda-playground''"

definition kafka_port :: "outside \<Rightarrow> str" where
  "kafka_port ox = env_or ox ''DS_KAFKA_PLAYGROUND_REST_PORT'' ''8082''"

definition kafka_broker :: "outside \<Rightarrow> str" where
  "kafka_broker ox =
     (case ox_env ox ''DS_KAFKA_PLAYGROUND_BROKER'' of
        Some b \<Rightarrow> b
      | None \<Rightarrow> kafka_host ox @ '':'' @ env_or ox ''DS_KAFKA_PLAYGROUND_PORT'' ''9092'')"

definition topic_ready :: "process_output \<Rightarrow> bool" where
  "topic_ready out \<longleftrightarrow>
     po_success out \<or>
     contains (po_stderr out) ''TOPIC_ALREADY_EXISTS'' \<or> contains (po_stderr out) ''already exists'' \<or>
     contains (po_stdout out) ''TOPIC_ALREADY_EXISTS'' \<or> contains (po_stdout out) ''already exists''"

definition record_template :: "outside \<Rightarrow> str \<Rightarrow> str \<Rightarrow> str \<times> json" where
  "record_template ox payload_file bytes =
     (let binary = (''application/vnd.kafka.binary.v2+json'', JObject [(''value'', JString (ox_base64 ox bytes))]);
          is_json = (case path_extension payload_file of
                       None \<Rightarrow> False | Some e \<Rightarrow> to_ascii_lowercase e = ''json'')
      in if is_json
         then (case ox_from_str ox bytes of
                 Some v \<Rightarrow> (''application/vnd.kafka.json.v2+json'', JObject [(''value'', v)])
               | None \<Rightarrow> binary)
         else binary)"

definition kafka_call :: "outside \<Rightarrow> str \<Rightarrow> str \<Rightarrow> json \<Rightarrow> nat \<Rightarrow> http_call" where
  "kafka_call ox url content_type template n =
     \<lparr>hc_method = ''POST'', hc_url = url, hc_bearer = None, hc_basic = None,
      hc_headers = [(''Content-Type'', content_type)],
      hc_body = RawBody (ox_to_string ox (JObject [(''records'', JArray (replicate n template))]))\<rparr>"

text \<open>The chunked loop; it returns the number produced and the last body.\<close>

function kafka_posts ::
    "outside \<Rightarrow> str \<Rightarrow> str \<Rightarrow> str \<Rightarrow> json \<Rightarrow> nat \<Rightarrow> nat \<Rightarrow> str \<Rightarrow> (str, nat \<times> str) result act" where
  "kafka_posts ox topic url content_type template repeat produced last_body =
     (if produced < repeat
      then (let n = min 500 (repeat - produced); call = kafka_call ox url content_type template n
            in do { resp \<leftarrow> perform (EHttp call) (\<lambda>log. ox_http ox log call);
                    (case resp of
                       Inl e \<Rightarrow> ret (Inl (''pandaproxy POST '' @ url @ '': '' @ re_text e))
                     | Inr (status, text) \<Rightarrow>
                         (let body = unwrap_or text []
                          in if \<not> (200 \<le> status \<and> status < 300)
                             then ret (Inl (''pandaproxy returned '' @ ox_status_text ox status @ '' for topic '' @ topic @
                                    '' (after '' @ show_nat produced @ '' produced): '' @ body))
                             else kafka_posts ox topic url content_type template repeat (produced + n) body)) })
      else ret (Inr (produced, last_body)))"
  by pat_completeness auto
termination
  by (relation "measure (\<lambda>(ox, topic, url, content_type, template, repeat, produced, body). repeat - produced)") auto

declare kafka_posts.simps [simp del]

definition produce_kafka :: "outside \<Rightarrow> str \<Rightarrow> u32 \<Rightarrow> session \<Rightarrow> (str, str \<times> str) result act" where
  "produce_kafka ox payload_file repeat sess =
     attempt (ret (validate_example_relative_path payload_file)) (\<lambda>_.
       (let count = min (unat repeat) 100000; topic = kafka_topic_for sess; broker = kafka_broker ox
        in attempt (do { r \<leftarrow> run_process ox ''rpk''
                              [''topic'', ''create'', topic, ''--brokers'', broker, ''--partitions'', ''1'',
                               ''--replicas'', ''1''];
                         ret (map_err (\<lambda>e. ''spawn rpk: '' @ e) r) }) (\<lambda>out.
           if \<not> topic_ready out
           then ret (Inl (''rpk topic create '' @ topic @ '' (broker='' @ broker @ ''): stdout='' @ po_stdout out @
                  '' stderr='' @ po_stderr out))
           else attempt (ret (map_err (\<lambda>e. ''read '' @ payload_file @ '': '' @ e)
                           (ox_read_bytes ox (path_join EXAMPLES payload_file)))) (\<lambda>bytes.
                  (let (content_type, template) = record_template ox payload_file bytes;
                       url = ''http://'' @ kafka_host ox @ '':'' @ kafka_port ox @ ''/topics/'' @ topic
                   in attempt (ret (case ox_client_build ox 30 of None \<Rightarrow> Inr () | Some e \<Rightarrow> Inl (''reqwest build: '' @ e))) (\<lambda>_.
                      attempt (kafka_posts ox topic url content_type template count 0 []) (\<lambda>(produced, last_body).
                        ret (Inr (''produced '' @ show_nat produced @ '' record(s) to '' @ topic @ '' via '' @
                               kafka_host ox @ '':'' @ kafka_port ox @ '' ('' @ content_type @ '')'', last_body)))))))))"

definition minio_key :: "outside \<Rightarrow> str \<Rightarrow> str \<Rightarrow> (str, str) result" where
  "minio_key ox a b = ok_or (''missing '' @ a @ '' / '' @ b) (env_either ox a b)"

definition mc_alias :: "outside \<Rightarrow> str \<Rightarrow> str \<Rightarrow> str" where
  "mc_alias ox access secret =
     ''mc alias set local '' @ shell_quote (minio_endpoint ox) @ '' '' @ shell_quote access @ '' '' @
     shell_quote secret @ '' >/dev/null && ''"

definition upload_file :: "outside \<Rightarrow> str \<Rightarrow> session \<Rightarrow> (str, str \<times> str) result act" where
  "upload_file ox payload_file sess =
     attempt (ret (validate_example_relative_path payload_file)) (\<lambda>_.
     attempt (ret (minio_key ox ''DS_MINIO_ACCESS_KEY'' ''MINIO_ROOT_USER'')) (\<lambda>access.
     attempt (ret (minio_key ox ''DS_MINIO_SECRET_KEY'' ''MINIO_ROOT_PASSWORD'')) (\<lambda>secret.
       (let bucket = s3_bucket_for sess; src_path = path_join EXAMPLES payload_file
        in if \<not> ox_exists ox src_path
           then ret (Inl (''payload not found in baked examples: '' @ src_path))
           else run_shell ox
                  (mc_alias ox access secret @
                   ''mc mb --ignore-existing local/'' @ shell_quote bucket @ '' >/dev/null && '' @
                   ''mc cp '' @ shell_quote src_path @ '' local/'' @ shell_quote bucket @ ''/'' @
                   shell_quote (s_namespace sess) @ ''/'' @
                   shell_quote (opt_unwrap_or (path_file_name payload_file) payload_file))
                  sess))))"

subsection \<open>Actions\<close>

record action_outcome =
  ao_stdout :: "str option"
  ao_stderr :: "str option"
  ao_http_status :: "nat option"
  ao_body :: "json option"

definition output_outcome :: "str \<times> str \<Rightarrow> action_outcome" where
  "output_outcome out =
     \<lparr>ao_stdout = Some (fst out), ao_stderr = Some (snd out), ao_http_status = None, ao_body = None\<rparr>"

definition map_output :: "(str, str \<times> str) result act \<Rightarrow> (str, action_outcome) result act" where
  "map_output m = do { r \<leftarrow> m; ret (map_ok output_outcome r) }"

definition mgr_manifest :: "manifest act" where
  "mgr_manifest = gets (\<lambda>w. sm_manifest (fst (w_store w)))"

fun action_target_debug :: "action_target \<Rightarrow> str" where
  "action_target_debug TSource = ''Source''"
| "action_target_debug TTarget = ''Target''"
| "action_target_debug TKafka = ''Kafka''"
| "action_target_debug TS3 = ''S3''"
| "action_target_debug TRest = ''Rest''"
| "action_target_debug TOps = ''Ops''"

definition run_sql :: "outside \<Rightarrow> server \<Rightarrow> identity \<Rightarrow> session \<Rightarrow> action \<Rightarrow> (str, action_outcome) result act" where
  "run_sql ox srv i sess a =
     attempt (ret (case (act_sql a, act_sql_file a) of
                     (Some s, _) \<Rightarrow> Inr s
                   | (None, Some path) \<Rightarrow> read_example_file ox (srv_config srv) path
                   | (None, None) \<Rightarrow> Inl ''sql action missing sql or sql_file'')) (\<lambda>raw.
       (let sql = substitute_placeholders ox raw sess
        in (case act_target a of
              Some TSource \<Rightarrow>
                if \<not> srv_sessions srv then ret (Inl ''playground not initialized'')
                else do { mf \<leftarrow> mgr_manifest;
                          attempt (ret (ok_or ''scenario missing'' (mf_scenario mf (s_scenario_id sess)))) (\<lambda>sc.
                          attempt (ret (ok_or ''source missing'' (mf_source mf (sc_source_id sc)))) (\<lambda>src.
                            map_output (dispatch_source_sql ox srv src (s_namespace sess) sql))) }
            | Some TKafka \<Rightarrow> ret (Inl (''SQL cannot target '' @ action_target_debug TKafka))
            | Some TS3 \<Rightarrow> ret (Inl (''SQL cannot target '' @ action_target_debug TS3))
            | Some TRest \<Rightarrow> ret (Inl (''SQL cannot target '' @ action_target_debug TRest))
            | _ \<Rightarrow>
                (case srv_api srv of
                   None \<Rightarrow> ret (Inl ''api callback client not configured'')
                 | Some api \<Rightarrow>
                     do { r \<leftarrow> exec_sql ox api i sql;
                          ret (map_err api_call_error_display
                            (map_ok (\<lambda>body. \<lparr>ao_stdout = None, ao_stderr = None, ao_http_status = Some 200,
                                             ao_body = Some body\<rparr>) r)) }))))"

definition run_http :: "outside \<Rightarrow> server \<Rightarrow> identity \<Rightarrow> session \<Rightarrow> action \<Rightarrow> (str, action_outcome) result act" where
  "run_http ox srv i sess a =
     attempt (ret (ok_or ''http action missing http_request'' (act_http_request a))) (\<lambda>req.
     attempt (ret (ok_or ''api callback client not configured'' (srv_api srv))) (\<lambda>api.
       do { r \<leftarrow> api_request ox api (ox_upper ox (hr_method req)) (substitute_placeholders ox (hr_url req) sess)
                   (map_option (\<lambda>v. substitute_placeholders_value ox v sess) (hr_body req)) i;
            ret (map_err api_call_error_display
              (map_ok (\<lambda>(status, body). \<lparr>ao_stdout = None, ao_stderr = None, ao_http_status = Some status,
                                         ao_body = Some body\<rparr>) r)) }))"

definition run_action :: "outside \<Rightarrow> server \<Rightarrow> identity \<Rightarrow> session \<Rightarrow> action \<Rightarrow> (str, action_outcome) result act" where
  "run_action ox srv i sess a =
     (let shell = attempt (ret (ok_or ''missing shell_cmd'' (act_shell_cmd a))) (\<lambda>cmd.
                    map_output (run_shell ox cmd sess))
      in (case act_kind a of
            Sql \<Rightarrow> run_sql ox srv i sess a
          | Http \<Rightarrow> run_http ox srv i sess a
          | Shell \<Rightarrow> shell
          | Toxiproxy \<Rightarrow> shell
          | ResetSnapshot \<Rightarrow> shell
          | ProduceKafka \<Rightarrow>
              attempt (ret (ok_or ''missing payload_file'' (act_payload_file a))) (\<lambda>payload_file.
                map_output (produce_kafka ox payload_file (opt_unwrap_or (act_repeat a) 1) sess))
          | UploadFile \<Rightarrow>
              attempt (ret (ok_or ''missing payload_file'' (act_payload_file a))) (\<lambda>payload_file.
                map_output (upload_file ox payload_file sess))))"

end
