(* ===== verification/Action_Laws.thy ===== *)
theory Action_Laws
  imports Actions
begin

text \<open>
  What the parts of the executor do: the chunked loop of \<open>produce_kafka\<close> against the list of its
  batches, the substitution in a JSON body, and the scope in which the scripts of MySQL and
  ClickHouse run.
\<close>

subsection \<open>Batches\<close>

text \<open>The sizes of the batches for a number of records.\<close>

function batches :: "nat \<Rightarrow> nat list" where
  "batches n = (if n = 0 then [] else min 500 n # batches (n - 500))"
  by pat_completeness auto
termination
  by (relation "measure id") auto

declare batches.simps [simp del]

lemma batches_sum: "sum_list (batches n) = n"
  by (induction n rule: batches.induct) (subst batches.simps, auto simp: min_def)

lemma batches_small: "list_all (\<lambda>k. 0 < k \<and> k \<le> 500) (batches n)"
  by (induction n rule: batches.induct) (subst batches.simps, simp)

lemma batches_count: "length (batches n) = (n + 499) div 500"
proof (induction n rule: batches.induct)
  case (1 n)
  show ?case
  proof (cases "n \<le> 500")
    case True
    then have "length (batches n) = (if n = 0 then 0 else 1)" by (subst batches.simps) (simp add: batches.simps)
    moreover have "(n + 499) div 500 = (if n = 0 then 0 else 1)" using True by auto
    ultimately show ?thesis by simp
  next
    case False
    then have "length (batches n) = Suc ((n - 500 + 499) div 500)" using 1 by (subst batches.simps) simp
    also have "\<dots> = (n - 500 + 499 + 500) div 500" by simp
    finally show ?thesis using False by simp
  qed
qed

text \<open>A produce request with \<open>k\<close> copies of a record, as the proxy must receive it.\<close>

definition produce_request :: "outside \<Rightarrow> str \<Rightarrow> str \<Rightarrow> json \<Rightarrow> nat \<Rightarrow> event" where
  "produce_request ox url content_type template k =
     EHttp \<lparr>hc_method = ''POST'', hc_url = url, hc_bearer = None, hc_basic = None,
            hc_headers = [(''Content-Type'', content_type)],
            hc_body = RawBody (ox_to_string ox (JObject [(''records'', JArray (replicate k template))]))\<rparr>"

definition batch_posts :: "outside \<Rightarrow> str \<Rightarrow> str \<Rightarrow> json \<Rightarrow> nat \<Rightarrow> event list" where
  "batch_posts ox url content_type template n =
     map (\<lambda>k. EHttp (kafka_call ox url content_type template k)) (batches n)"

lemma batch_posts_eq: "batch_posts ox url ct tmpl n = map (produce_request ox url ct tmpl) (batches n)"
  by (simp add: batch_posts_def produce_request_def kafka_call_def)

lemma kafka_posts_run:
  assumes "produced \<le> repeat"
  shows "\<exists>sent. w_log (snd (run_state (kafka_posts ox topic url ct tmpl repeat produced body) w)) = w_log w @ sent \<and>
     (case fst (run_state (kafka_posts ox topic url ct tmpl repeat produced body) w) of
        Inr (n, _) \<Rightarrow> n = repeat \<and> sent = batch_posts ox url ct tmpl (repeat - produced)
      | Inl _ \<Rightarrow> sent \<noteq> [] \<and> prefix sent (batch_posts ox url ct tmpl (repeat - produced)))"
  using assms
proof (induction "repeat - produced" arbitrary: produced body w rule: less_induct)
  case less
  let ?run = "\<lambda>p b w. run_state (kafka_posts ox topic url ct tmpl repeat p b) w"
  show ?case
  proof (cases "produced < repeat")
    case False
    then show ?thesis
      using less.prems by (subst kafka_posts.simps) (simp add: batch_posts_def batches.simps, subst kafka_posts.simps, simp)
  next
    case True
    let ?n = "min 500 (repeat - produced)"
    let ?call = "kafka_call ox url ct tmpl ?n"
    let ?w = "w\<lparr>w_log := w_log w @ [EHttp ?call]\<rparr>"
    have posts: "batch_posts ox url ct tmpl (repeat - produced) =
        EHttp ?call # batch_posts ox url ct tmpl (repeat - (produced + ?n))"
      unfolding batch_posts_def using True by (subst batches.simps) (auto simp: min_def)
    have fewer: "repeat - (produced + ?n) < repeat - produced" and within: "produced + ?n \<le> repeat"
      using True by auto
    show ?thesis
    proof (cases "ox_http ox (w_log w) ?call")
      case (Inl e)
      then show ?thesis
        using True unfolding posts by (subst (1 2) kafka_posts.simps) (simp add: Let_def)
    next
      case (Inr resp)
      then obtain status reply where resp: "ox_http ox (w_log w) ?call = Inr (status, reply)" by (cases resp) auto
      show ?thesis
      proof (cases "200 \<le> status \<and> status < 300")
        case False
        then show ?thesis
          using True resp unfolding posts by (subst (1 2) kafka_posts.simps) (auto simp: Let_def)
      next
        case ok: True
        then have step: "?run produced body w = ?run (produced + ?n) (unwrap_or reply []) ?w"
          using True resp by (subst kafka_posts.simps) (simp add: Let_def)
        obtain sent where "w_log (snd (?run (produced + ?n) (unwrap_or reply []) ?w)) = w_log ?w @ sent"
            "case fst (?run (produced + ?n) (unwrap_or reply []) ?w) of
               Inr (n, _) \<Rightarrow> n = repeat \<and> sent = batch_posts ox url ct tmpl (repeat - (produced + ?n))
             | Inl _ \<Rightarrow> sent \<noteq> [] \<and> prefix sent (batch_posts ox url ct tmpl (repeat - (produced + ?n)))"
          using less.hyps [OF fewer within, of "unwrap_or reply []" ?w] by blast
        then show ?thesis
          unfolding step posts by (intro exI [of _ "EHttp ?call # sent"]) (auto split: sum.splits)
      qed
    qed
  qed
qed

subsection \<open>JSON bodies\<close>

text \<open>A JSON value without the contents of its strings, and its strings in order.\<close>

fun json_shape :: "json \<Rightarrow> json" where
  "json_shape (JString s) = JString []"
| "json_shape (JArray items) = JArray (map json_shape items)"
| "json_shape (JObject kvs) = JObject (map (\<lambda>(k, v). (k, json_shape v)) kvs)"
| "json_shape other = other"

fun json_strings :: "json \<Rightarrow> str list" where
  "json_strings (JString s) = [s]"
| "json_strings (JArray items) = concat (map json_strings items)"
| "json_strings (JObject kvs) = concat (map (\<lambda>(k, v). json_strings v) kvs)"
| "json_strings _ = []"

subsection \<open>Scoped scripts\<close>

lemma emits_my_do: "emits (my_do ox e) w [e]"
  by (simp add: emits_def my_do_def)

lemma emits_mysql_pool: "emits (mysql_pool ox) w []"
  by (simp add: emits_def mysql_pool_def State_Monad.update_def split: sum.split)

definition my_prelude :: "str \<Rightarrow> event list" where
  "my_prelude db =
     [EMyConn, EMyQuery ''SET SESSION MAX_EXECUTION_TIME = 30000'', EMyQuery (''USE '' @ backtick db)]"

lemma exec_mysql_emits: "emits (exec_mysql_inner ox (Some db) sql) w (my_prelude db @ [EMyQuery sql])"
proof -
  have millis: "show_nat (STATEMENT_TIMEOUT_SECS * 1000) = ''30000''"
    by (simp add: STATEMENT_TIMEOUT_SECS_def show_nat.simps digit_char_def, code_simp)
  have rows: "emits (do { rows \<leftarrow> gets (\<lambda>w. ox_my_affected ox (w_log w)); ret (Inr (f rows)) }) v []" for f v
    by (simp add: emits_def)
  have "emits (exec_mysql_inner ox (Some db) sql) w
      ([] @ [EMyConn] @ [EMyQuery (''SET SESSION MAX_EXECUTION_TIME = '' @ show_nat (STATEMENT_TIMEOUT_SECS * 1000))] @
       [EMyQuery (''USE '' @ backtick db)] @ [EMyQuery sql] @ [])"
    unfolding exec_mysql_inner_def option.case
    by (intro emits_attempt emits_mysql_pool emits_my_do rows)
  then show ?thesis by (simp add: my_prelude_def millis)
qed

lemma timeout_text: "show_nat STATEMENT_TIMEOUT_SECS = ''30''"
  by (simp add: STATEMENT_TIMEOUT_SECS_def show_nat.simps digit_char_def, code_simp)

lemma clickhouse_posts_emits:
  "emits (clickhouse_posts ox cfg db body stmts) w (map (\<lambda>s. EHttp (clickhouse_call cfg db s)) stmts)"
proof (induction stmts arbitrary: body w)
  case Nil
  then show ?case by (simp add: emits_def)
next
  case (Cons s stmts)
  let ?w = "w\<lparr>w_log := w_log w @ [EHttp (clickhouse_call cfg db s)]\<rparr>"
  show ?case
    using Cons [of _ ?w]
    by (fastforce simp: emits_def Let_def split: sum.splits prod.splits)
qed

lemma exec_clickhouse_emits:
  "\<exists>cfg. emits (exec_clickhouse_inner ox (Some db) sql) w
     (map (\<lambda>s. EHttp (clickhouse_call cfg db s)) (split_clickhouse_statements sql))"
proof (cases "fst (run_state (clickhouse_pool ox) w)")
  case (Inl e)
  moreover have "w_log (snd (run_state (clickhouse_pool ox) w)) = w_log w"
    by (simp add: clickhouse_pool_def State_Monad.update_def split: option.split sum.split)
  ultimately show ?thesis
    by (auto simp: exec_clickhouse_inner_def emits_def split: prod.splits)
next
  case (Inr cfg)
  moreover have "emits (clickhouse_pool ox) w []"
    by (simp add: emits_def clickhouse_pool_def State_Monad.update_def split: option.split sum.split)
  ultimately have "emits (exec_clickhouse_inner ox (Some db) sql) w
      ([] @ map (\<lambda>s. EHttp (clickhouse_call cfg db s)) (split_clickhouse_statements sql))"
    unfolding exec_clickhouse_inner_def by (intro emits_attempt) (auto intro: clickhouse_posts_emits)
  then show ?thesis by auto
qed

subsection \<open>Properties\<close>

text \<open>C27: The loop that produces to Kafka ends and posts each record once. Whatever the proxy answers, the
  requests are a beginning of the list of batches: each carries as many copies of the record as the
  batch says, at most 500 and at least one, together exactly the number asked for, so \<open>(repeat + 499) div 500\<close> requests. The loop succeeds exactly when every batch was
  accepted, and then reports that number; on the first refusal it stops, after at least one request.\<close>

theorem kafka_loop_posts_each_record_once:
  "(\<exists>sent. w_log (snd (run_state (kafka_posts ox topic url ct tmpl repeat 0 body) w)) = w_log w @ sent \<and>
      (case fst (run_state (kafka_posts ox topic url ct tmpl repeat 0 body) w) of
         Inr (n, _) \<Rightarrow> n = repeat \<and> sent = map (produce_request ox url ct tmpl) (batches repeat)
       | Inl _ \<Rightarrow> sent \<noteq> [] \<and> prefix sent (map (produce_request ox url ct tmpl) (batches repeat)))) \<and>
   sum_list (batches repeat) = repeat \<and> list_all (\<lambda>k. 0 < k \<and> k \<le> 500) (batches repeat) \<and>
   length (batches repeat) = (repeat + 499) div 500"
  using kafka_posts_run [of 0 repeat ox topic url ct tmpl body w, unfolded batch_posts_eq diff_zero]
    batches_sum batches_small batches_count
  by blast

text \<open>C30: Filling the holes of a JSON body keeps its type. \<open>substitute_placeholders_value\<close> changes the
  contents of strings only: the nesting, the lengths of arrays, the keys of objects and their order,
  and every number, boolean and null stay, and the strings of the result are the strings of the body
  with their holes filled, one for one.\<close>

theorem body_substitution_keeps_shape:
  "json_shape (substitute_placeholders_value ox v sess) = json_shape v \<and>
   json_strings (substitute_placeholders_value ox v sess) =
     map (\<lambda>s. substitute_placeholders ox s sess) (json_strings v)"
proof (induction v)
  case (JArray items)
  then show ?case by (simp add: map_concat comp_def cong: map_cong)
next
  case (JObject kvs)
  then have "json_shape (substitute_placeholders_value ox v sess) = json_shape v"
      "json_strings (substitute_placeholders_value ox v sess) = map (\<lambda>s. substitute_placeholders ox s sess) (json_strings v)"
    if "(k, v) \<in> set kvs" for k v
    using that by fastforce+
  then show ?case
    by (auto simp: map_concat comp_def split_beta intro!: arg_cong [where f = concat])
qed simp_all

text \<open>C26: The author's script runs in its session's database only. For MySQL the calls are a beginning of:
  connect, set the time limit, use the session's database, the script. For ClickHouse every statement
  goes, in order and once, in a request whose \<open>database\<close> parameter is the session's database. All of
  them are sent when the call succeeds, and for a database name that is not safe nothing is
  sent at all.\<close>

theorem scripts_run_in_session_database:
  "if is_safe_resource_name db
   then emits (exec_mysql_in_database ox Tcp db sql) w
          [EMyConn, EMyQuery ''SET SESSION MAX_EXECUTION_TIME = 30000'', EMyQuery (''USE '' @ backtick db), EMyQuery sql] \<and>
        (\<exists>base user password. emits (exec_clickhouse_in_database ox Tcp db sql) w
           (map (\<lambda>stmt. EHttp \<lparr>hc_method = ''POST'', hc_url = base @ ''/?max_execution_time=30&database='' @ db,
                   hc_bearer = None, hc_basic = Some (user, password), hc_headers = [], hc_body = RawBody stmt\<rparr>)
              (split_clickhouse_statements sql)))
   else run_state (exec_mysql_in_database ox Tcp db sql) w = (Inl (DConfig (''unsafe mysql database name: '' @ db)), w) \<and>
        run_state (exec_clickhouse_in_database ox Tcp db sql) w = (Inl (DConfig (''unsafe clickhouse database name: '' @ db)), w)"
  using exec_mysql_emits [of ox db sql w] exec_clickhouse_emits [of ox db sql w] timeout_text
  by (auto simp: exec_mysql_in_database_def exec_clickhouse_in_database_def guarded_def my_prelude_def clickhouse_call_def)

end
