(* ===== verification/Teardown.thy ===== *)
theory Teardown
  imports Actions
begin

text \<open>
  How the resources of a session go away (\<^verbatim>\<open>handlers.rs\<close>): \<open>teardown_session\<close> with
  \<open>purge_s3_namespace\<close>, one tick of the task \<open>spawn_session_reaper\<close> starts, and the one-shot
  \<open>sweep_api_orphans\<close>. Every step of a teardown is best effort: its result is dropped and the
  next one runs.

  The lemmas bound the calls of a teardown to the objects named after the session, in their
  order, and show that neither the reaper nor the orphan sweep touches the shuttle, the namespace
  or the source resources of a session that is alive.
\<close>

definition discard :: "'a act \<Rightarrow> unit act" where
  "discard m = do { _ \<leftarrow> m; ret () }"

fun for_each :: "('a \<Rightarrow> unit act) \<Rightarrow> 'a list \<Rightarrow> unit act" where
  "for_each f [] = ret ()"
| "for_each f (x # xs) = do { _ \<leftarrow> f x; for_each f xs }"

subsection \<open>Teardown\<close>

definition warehouse_bucket :: "outside \<Rightarrow> str" where
  "warehouse_bucket ox =
     opt_unwrap_or
       (opt_filter non_empty
         (map_option (\<lambda>rest. hd (split_on (\<lambda>c. c = CHR ''/'') (trim_end_char (CHR ''/'') rest)))
           (Option.bind (ox_env ox ''DS_WAREHOUSE'') (\<lambda>s. strip_prefix s ''s3://''))))
       ''warehouse''"

definition purge_command :: "outside \<Rightarrow> str \<Rightarrow> str \<Rightarrow> str \<Rightarrow> str" where
  "purge_command ox access secret namespace =
     mc_alias ox access secret @
     ''mc rm --recursive --force local/'' @ shell_quote (warehouse_bucket ox) @ ''/'' @ shell_quote namespace @
     ''/ >/dev/null 2>&1 || true; '' @
     ''mc rm --recursive --force local/file-ingestion/'' @ shell_quote namespace @ ''/ >/dev/null 2>&1 || true''"

definition purge_s3_namespace :: "outside \<Rightarrow> str \<Rightarrow> (str, unit) result act" where
  "purge_s3_namespace ox namespace =
     attempt (ret (minio_key ox ''DS_MINIO_ACCESS_KEY'' ''MINIO_ROOT_USER'')) (\<lambda>access.
     attempt (ret (minio_key ox ''DS_MINIO_SECRET_KEY'' ''MINIO_ROOT_PASSWORD'')) (\<lambda>secret.
       do { r \<leftarrow> run_process ox ''bash'' [''-c'', purge_command ox access secret namespace];
            ret (rbind (map_err (\<lambda>e. ''spawn mc: '' @ e) r) (\<lambda>out.
              if \<not> po_success out
              then Inl (''mc rm exited '' @ po_status out @ '': '' @ po_stderr out)
              else Inr ())) }))"

definition namespace_path :: "str \<Rightarrow> str" where
  "namespace_path namespace = ''/api/v1/catalog/namespaces/'' @ namespace @ ''?cascade=true&purge=true''"

text \<open>The source side: publication and slot before the schema, then the other databases.\<close>

definition teardown_sources :: "outside \<Rightarrow> dispatcher \<Rightarrow> str \<Rightarrow> str \<Rightarrow> unit act" where
  "teardown_sources ox d shuttle_name namespace =
     do { _ \<leftarrow> (if is_safe_playground_shuttle_artifact shuttle_name
                then do { _ \<leftarrow> drop_postgres_publication ox d (shuttle_name @ ''_pub'');
                          discard (drop_postgres_replication_slot ox d (shuttle_name @ ''_slot'')) }
                else ret ());
          _ \<leftarrow> teardown_postgres_schema ox d namespace;
          _ \<leftarrow> teardown_mysql_database ox d namespace;
          _ \<leftarrow> teardown_clickhouse_database ox d namespace;
          discard (teardown_redis_namespace ox d namespace) }"

definition teardown_session :: "outside \<Rightarrow> server \<Rightarrow> identity \<Rightarrow> str \<Rightarrow> str \<Rightarrow> str \<Rightarrow> unit act" where
  "teardown_session ox srv i shuttle_name connection_name namespace =
     do { td_start \<leftarrow> read_clock ox;
          (if \<not> is_safe_identifier shuttle_name then ret ()
           else (case srv_api srv of
                   None \<Rightarrow> ret ()
                 | Some api \<Rightarrow>
                     do { _ \<leftarrow> exec_sql ox api i (''DROP SHUTTLE IF EXISTS '' @ shuttle_name);
                          _ \<leftarrow> (if is_safe_identifier namespace
                                then do { _ \<leftarrow> api_request ox api ''DELETE'' (namespace_path namespace) None i;
                                          discard (purge_s3_namespace ox namespace) }
                                else ret ());
                          _ \<leftarrow> (if is_safe_identifier connection_name
                                then discard (exec_sql ox api i (''DROP CONNECTION IF EXISTS '' @ connection_name))
                                else ret ());
                          _ \<leftarrow> (if is_safe_resource_name namespace
                                then teardown_sources ox (srv_dispatcher srv) shuttle_name namespace
                                else ret ());
                          td_end \<leftarrow> read_clock ox;
                          metric_update (observe_teardown TeardownSession (elapsed (mono td_end) (mono td_start))) })) }"

subsection \<open>The reaper\<close>

definition reaper_identity :: "session \<Rightarrow> identity" where
  "reaper_identity s =
     \<lparr>id_user_id = s_user_id s, id_tenant_id = None, id_actor_id = None, id_auth_method = ''ttl-reaper''\<rparr>"

definition reaper_tick :: "outside \<Rightarrow> server \<Rightarrow> unit act" where
  "reaper_tick ox srv =
     (if \<not> srv_sessions srv then ret ()
      else do { expired \<leftarrow> mgr_sweep ox;
                for_each (\<lambda>s. teardown_session ox srv (reaper_identity s)
                                (s_shuttle_name s) (s_connection_name s) (s_namespace s)) expired })"

subsection \<open>The orphan sweep\<close>

definition sweeper_identity :: identity where
  "sweeper_identity =
     \<lparr>id_user_id = ''playground-orphan-sweeper'', id_tenant_id = None, id_actor_id = None,
      id_auth_method = ''orphan-sweeper''\<rparr>"

definition str_field :: "json \<Rightarrow> str \<Rightarrow> str option" where
  "str_field v k =
     (case v of
        JObject kvs \<Rightarrow> (case map_of kvs k of Some (JString s) \<Rightarrow> Some s | _ \<Rightarrow> None)
      | _ \<Rightarrow> None)"

definition as_array :: "json \<Rightarrow> json list" where
  "as_array v = (case v of JArray xs \<Rightarrow> xs | _ \<Rightarrow> [])"

text \<open>\<open>split_once\<close> at the first dot, second half.\<close>

fun after_dot :: "str \<Rightarrow> str option" where
  "after_dot [] = None"
| "after_dot (c # s) = (if c = CHR ''.'' then Some s else after_dot s)"

text \<open>The loop body up to the teardown: name, connection and namespace of an orphan.\<close>

definition orphan_of :: "str set \<Rightarrow> str set \<Rightarrow> json \<Rightarrow> (str \<times> str \<times> str) option" where
  "orphan_of live_sh live_ns s =
     (case (str_field s ''name'', str_field s ''target'') of
        (Some name, Some target) \<Rightarrow>
          (case after_dot target of
             None \<Rightarrow> None
           | Some ns \<Rightarrow>
               if \<not> starts_with ns ''playground_'' then None
               else if name \<in> live_sh then None
               else if ns \<in> live_ns then None
               else Some (name, opt_unwrap_or (str_field s ''connection'') [], ns))
      | _ \<Rightarrow> None)"

definition still_used :: "str set \<Rightarrow> json list \<Rightarrow> str \<Rightarrow> bool" where
  "still_used live_sh shuttles name \<longleftrightarrow>
     list_ex (\<lambda>sv. (case str_field sv ''name'' of None \<Rightarrow> False | Some s \<Rightarrow> s \<in> live_sh) \<and>
                   str_field sv ''connection'' = Some name) shuttles"

definition stale_connection :: "str set \<Rightarrow> json list \<Rightarrow> json \<Rightarrow> str option" where
  "stale_connection live_sh shuttles c =
     (case str_field c ''name'' of
        None \<Rightarrow> None
      | Some name \<Rightarrow>
          if \<not> starts_with name ''pg_'' \<or> \<not> ends_with name ''_src'' then None
          else if still_used live_sh shuttles name then None
          else Some name)"

text \<open>What the sweep does once it knows the names in use.\<close>

definition sweep_listed :: "outside \<Rightarrow> server \<Rightarrow> api_client \<Rightarrow> str set \<Rightarrow> str set \<Rightarrow> unit act" where
  "sweep_listed ox srv api live_sh live_ns =
     do { listed \<leftarrow> api_request ox api ''GET'' ''/api/v1/shuttles'' None sweeper_identity;
          (case listed of
             Inl e \<Rightarrow> ret ()
           | Inr (_, v) \<Rightarrow>
               do { _ \<leftarrow> for_each (\<lambda>(name, conn, ns). teardown_session ox srv sweeper_identity name conn ns)
                           (List.map_filter (orphan_of live_sh live_ns) (as_array v));
                    conns \<leftarrow> api_request ox api ''GET'' ''/api/v1/connections'' None sweeper_identity;
                    (case conns of
                       Inl e \<Rightarrow> ret ()
                     | Inr (_, cv) \<Rightarrow>
                         for_each (\<lambda>name. discard (exec_sql ox api sweeper_identity (''DROP CONNECTION IF EXISTS '' @ name)))
                           (List.map_filter (stale_connection live_sh (as_array v)) (as_array cv))) }) }"

definition sweep_api_orphans :: "outside \<Rightarrow> server \<Rightarrow> unit act" where
  "sweep_api_orphans ox srv =
     (case srv_api srv of
        None \<Rightarrow> ret ()
      | Some api \<Rightarrow>
          if \<not> srv_sessions srv then ret ()
          else do { live_sh \<leftarrow> mgr_op ox (\<lambda>n st. (live_shuttles (fst st), st));
                    live_ns \<leftarrow> mgr_op ox (\<lambda>n st. (live_namespaces (fst st), st));
                    sweep_listed ox srv api live_sh live_ns })"

subsection \<open>The calls of the parts\<close>

lemma sends_discard [sends_intro]: "sends P m \<Longrightarrow> sends P (discard m)"
  unfolding discard_def by (intro sends_intro)

lemma sends_for_each [sends_intro]: "(\<And>x. x \<in> set xs \<Longrightarrow> sends P (f x)) \<Longrightarrow> sends P (for_each f xs)"
  by (induction xs) (auto intro!: sends_intro)

lemma sends_unit_result [sends_intro]: "sends P m \<Longrightarrow> sends P (unit_result m)"
  unfolding unit_result_def by (intro sends_intro)

lemma sends_noop [sends_intro]: "sends P noop_method" "sends P default_method"
  unfolding default_noop noop_method_def by (intro sends_intro)+

lemma sends_set_pools [sends_intro]: "sends P (State_Monad.update (\<lambda>w. w\<lparr>w_pools := f w\<rparr>))"
  by (rule sends_world) (simp add: State_Monad.update_def)

lemma sends_run_process [sends_intro]: "P (EProcess prog args) \<Longrightarrow> sends P (run_process ox prog args)"
  unfolding run_process_def by (intro sends_intro)

lemma sends_api_request [sends_intro]:
  "P (EHttp (api_call c method path body i)) \<Longrightarrow> sends P (api_request ox c method path body i)"
  unfolding api_request_def by (cases "ox_method_error ox method") (auto intro!: sends_intro)

lemma sends_exec_drop:
  assumes "is_safe_identifier n"
  shows "P (EHttp (api_call c ''DELETE'' (''/api/v1/shuttles/'' @ n) None i)) \<Longrightarrow>
           sends P (exec_sql ox c i (''DROP SHUTTLE IF EXISTS '' @ n))"
    and "P (EHttp (api_call c ''DELETE'' (''/api/v1/connections/'' @ n) None i)) \<Longrightarrow>
           sends P (exec_sql ox c i (''DROP CONNECTION IF EXISTS '' @ n))"
  unfolding exec_sql_def Let_def classify_built [OF assms] option.case dispatch.case
  by (intro sends_intro; assumption)+

lemma sends_drop_connection:
  assumes "\<And>x. P (EHttp (api_call c ''DELETE'' (''/api/v1/connections/'' @ x) None i))"
  shows "sends P (exec_sql ox c i (''DROP CONNECTION IF EXISTS '' @ n))"
proof -
  consider "classify_statement (''DROP CONNECTION IF EXISTS '' @ n) = None"
    | x where "classify_statement (''DROP CONNECTION IF EXISTS '' @ n) = Some (DropConnection x)"
    using classify_drop_connection [of n] by auto
  then show ?thesis
    by cases (simp_all only: exec_sql_def Let_def option.case dispatch.case, (intro sends_intro assms)+)
qed

text \<open>The calls of a PostgreSQL execution other than its script.\<close>

fun pg_framing :: "event \<Rightarrow> bool" where
  "pg_framing (EPgConnect _) = True"
| "pg_framing EPgBegin = True"
| "pg_framing EPgCommit = True"
| "pg_framing (EPgExec s) = starts_with s ''SET LOCAL ''"
| "pg_framing _ = False"

fun my_framing :: "event \<Rightarrow> bool" where
  "my_framing EMyConn = True"
| "my_framing (EMyQuery s) = starts_with s ''SET SESSION MAX_EXECUTION_TIME = ''"
| "my_framing _ = False"

lemma sends_pg_do [sends_intro]: "P e \<Longrightarrow> sends P (pg_do ox e)"
  unfolding pg_do_def by (intro sends_intro)

lemma sends_my_do [sends_intro]: "P e \<Longrightarrow> sends P (my_do ox e)"
  unfolding my_do_def by (intro sends_intro)

lemma sends_redis_cmd [sends_intro]: "P (ERedisCmd argv) \<Longrightarrow> sends P (redis_cmd ox argv)"
  unfolding redis_cmd_def by (intro sends_intro)

lemma sends_pg_pool:
  assumes "\<And>e. pg_framing e \<Longrightarrow> P e"
  shows "sends P (pg_pool ox)"
  unfolding pg_pool_def using assms by (auto intro!: sends_intro split: option.split sum.split)

lemma sends_exec_postgres:
  assumes "\<And>e. pg_framing e \<Longrightarrow> P e" and "P (EPgRaw sql)"
  shows "sends P (exec_postgres ox d sql)"
  unfolding exec_postgres_def exec_postgres_inner_def using assms
  by (cases d) (auto intro!: sends_intro sends_pg_pool split: option.split prod.split)

lemma sends_exec_mysql:
  assumes "\<And>e. my_framing e \<Longrightarrow> P e" and "P (EMyQuery sql)"
  shows "sends P (exec_mysql ox d sql)"
  unfolding exec_mysql_def exec_mysql_inner_def mysql_pool_def using assms
  by (cases d) (auto intro!: sends_intro split: option.split sum.split)

lemma sends_clickhouse_posts:
  "(\<And>s cfg db. s \<in> set stmts \<Longrightarrow> P (EHttp (clickhouse_call cfg db s))) \<Longrightarrow>
     sends P (clickhouse_posts ox cfg db body stmts)"
proof (induction stmts arbitrary: body)
  case (Cons s stmts)
  then show ?case by (auto intro!: sends_intro simp: Let_def split: sum.split prod.split)
qed (auto intro: sends_intro)

lemma sends_exec_clickhouse:
  assumes "\<And>s cfg db. s \<in> set (split_clickhouse_statements sql) \<Longrightarrow> P (EHttp (clickhouse_call cfg db s))"
  shows "sends P (exec_clickhouse ox d sql)"
  unfolding exec_clickhouse_def exec_clickhouse_inner_def clickhouse_pool_def using assms
  by (cases d) (auto intro!: sends_intro sends_clickhouse_posts split: option.split sum.split)

lemma sends_redis_scan:
  assumes "\<And>n. P (ERedisCmd [''SCAN'', show_nat n, ''MATCH'', pattern, ''COUNT'', ''200''])"
    and "\<And>n keys. Inr (n, keys) \<in> set pages \<Longrightarrow> P (ERedisCmd (''DEL'' # keys))"
  shows "sends P (redis_scan ox pattern cursor pages)"
  using assms
proof (induction pages arbitrary: cursor)
  case (Cons page pages)
  then have "sends P (redis_scan ox pattern next_cursor pages)" for next_cursor by (auto 4 3)
  with Cons show ?case by (auto intro!: sends_intro split: sum.split prod.split)
qed (auto intro: sends_intro)

lemma sends_guarded [sends_intro]: "sends P m \<Longrightarrow> sends P (guarded safe what name d m)"
  unfolding guarded_def by (cases d) (auto intro: sends_intro)

subsection \<open>The calls of a teardown\<close>

definition drop_publication_sql :: "str \<Rightarrow> str" where
  "drop_publication_sql name = ''DROP PUBLICATION IF EXISTS '' @ [CHR 0x22] @ name @ [CHR 0x22]"

definition drop_schema_sql :: "str \<Rightarrow> str" where
  "drop_schema_sql name = ''DROP SCHEMA IF EXISTS '' @ [CHR 0x22] @ name @ [CHR 0x22] @ '' CASCADE''"

definition drop_database_sql :: "str \<Rightarrow> str" where
  "drop_database_sql name = ''DROP DATABASE IF EXISTS '' @ backtick name"

definition teardown_deletes :: "api_client \<Rightarrow> identity \<Rightarrow> str \<Rightarrow> str \<Rightarrow> str \<Rightarrow> event list" where
  "teardown_deletes api i shuttle conn ns =
     map (\<lambda>path. EHttp (api_call api ''DELETE'' path None i))
       [''/api/v1/shuttles/'' @ shuttle, namespace_path ns, ''/api/v1/connections/'' @ conn]"

text \<open>
  The calls a teardown of these names may make beside those: the purge of the object store and
  the statements for the source databases. \<open>DEL\<close> takes the keys the server listed for the pattern.
\<close>

fun source_event :: "outside \<Rightarrow> str \<Rightarrow> str \<Rightarrow> event \<Rightarrow> bool" where
  "source_event ox shuttle ns (EHttp c) = (\<exists>cfg db. c = clickhouse_call cfg db (drop_database_sql ns))"
| "source_event ox shuttle ns (EProcess prog args) =
     (\<exists>access secret. prog = ''bash'' \<and> args = [''-c'', purge_command ox access secret ns])"
| "source_event ox shuttle ns (EPgRaw sql) =
     (sql \<in> {drop_publication_sql (shuttle @ ''_pub''), drop_slot_sql (shuttle @ ''_slot''), drop_schema_sql ns})"
| "source_event ox shuttle ns (EMyQuery sql) = (my_framing (EMyQuery sql) \<or> sql = drop_database_sql ns)"
| "source_event ox shuttle ns (ERedisCmd argv) =
     ((\<exists>n. argv = [''SCAN'', show_nat n, ''MATCH'', ns @ '':*'', ''COUNT'', ''200'']) \<or>
      (\<exists>log n keys. argv = ''DEL'' # keys \<and> Inr (n, keys) \<in> set (ox_redis_scan ox log (ns @ '':*''))))"
| "source_event ox shuttle ns e = (e = ERedisConn \<or> e = EMyConn \<or> pg_framing e)"

definition teardown_event :: "outside \<Rightarrow> api_client \<Rightarrow> identity \<Rightarrow> str \<Rightarrow> str \<Rightarrow> str \<Rightarrow> event \<Rightarrow> bool" where
  "teardown_event ox api i shuttle conn ns e \<longleftrightarrow>
     e \<in> set (teardown_deletes api i shuttle conn ns) \<or> source_event ox shuttle ns e"

text \<open>Requests to the API carry the service token as their bearer; no other call has one.\<close>

fun api_event :: "event \<Rightarrow> bool" where
  "api_event (EHttp c) = (hc_bearer c \<noteq> None)"
| "api_event _ = False"

lemma source_not_api: "source_event ox shuttle ns e \<Longrightarrow> \<not> api_event e"
  by (cases e) (auto simp: clickhouse_call_def)

lemma framing_in_teardown:
  "pg_framing e \<Longrightarrow> source_event ox shuttle ns e"
  "my_framing e \<Longrightarrow> source_event ox shuttle ns e"
  by (cases e; simp)+

text \<open>A statement without semicolon, quote or dash is one ClickHouse statement.\<close>

lemma ch_cut_plain:
  "list_all (\<lambda>c. c \<noteq> CHR '';'' \<and> c \<noteq> CHR 0x27 \<and> c \<noteq> CHR 0x22 \<and> c \<noteq> CHR ''-'') s \<Longrightarrow> ch_cut ChCode s = [s]"
  by (induction s) auto

lemma split_drop_database:
  assumes "is_safe_resource_name ns"
  shows "split_clickhouse_statements (drop_database_sql ns) = [drop_database_sql ns]"
proof -
  let ?s = "drop_database_sql ns"
  have chars: "(of_char c :: nat) < 128 \<and> c \<noteq> CHR '';'' \<and> c \<noteq> CHR 0x27 \<and> c \<noteq> CHR 0x22 \<and> c \<noteq> CHR ''-''"
    if "c \<in> set ?s" for c
    using that assms
    by (auto simp: drop_database_sql_def backtick_def is_safe_resource_name_def list_all_iff ident_char_def
        is_ascii_alphanumeric_def is_upper_def is_lower_def is_digit_def)
  have "solid (hd ?s)" "solid (last ?s)" "?s \<noteq> []"
    by (simp_all add: drop_database_sql_def backtick_def solid_def ascii_ws_def)
  then have "trim ?s = ?s" by (simp add: trim_solid)
  moreover have "ch_cut ChCode ?s = [?s]" using chars by (intro ch_cut_plain) (simp add: list_all_iff)
  moreover have "ch_encode ?s = ?s" using chars by (intro ch_encode_ascii) simp
  ultimately show ?thesis
    using \<open>?s \<noteq> []\<close> split_ch_cut [of False False "[]" "[]" ?s]
    by (simp add: split_clickhouse_statements_def statements_def)
qed

lemma sends_teardown_redis:
  "sends (source_event ox shuttle ns) (teardown_redis_namespace ox d ns)"
  unfolding teardown_redis_namespace_def redis_conn_def redis_pool_def
  by (intro sends_guarded sends_attempt)
    (auto intro!: sends_intro sends_bind_gets sends_redis_scan split: option.split sum.split, blast)

lemma sends_drop_postgres:
  assumes "sql \<in> {drop_publication_sql (shuttle @ ''_pub''), drop_slot_sql (shuttle @ ''_slot''), drop_schema_sql ns}"
  shows "sends (source_event ox shuttle ns) (unit_result (exec_postgres ox d sql))"
  using assms by (intro sends_unit_result sends_exec_postgres) (auto intro: framing_in_teardown(1))

lemma sends_drop_mysql:
  "sends (source_event ox shuttle ns) (unit_result (exec_mysql ox d (drop_database_sql ns)))"
  by (intro sends_unit_result sends_exec_mysql) (auto intro: framing_in_teardown(2))

lemma sends_teardown_sources:
  assumes "is_safe_resource_name ns"
  shows "sends (source_event ox shuttle ns) (teardown_sources ox d shuttle ns)"
proof -
  have "sends (source_event ox shuttle ns) (drop_postgres_publication ox d (shuttle @ ''_pub''))"
    unfolding drop_postgres_publication_def drop_publication_sql_def [symmetric]
    by (intro sends_guarded sends_drop_postgres) simp
  moreover have "sends (source_event ox shuttle ns) (drop_postgres_replication_slot ox d (shuttle @ ''_slot''))"
    unfolding drop_postgres_replication_slot_def by (intro sends_guarded sends_drop_postgres) simp
  moreover have "sends (source_event ox shuttle ns) (teardown_postgres_schema ox d ns)"
    unfolding teardown_postgres_schema_def drop_schema_sql_def [symmetric]
    by (intro sends_guarded sends_drop_postgres) simp
  moreover have "sends (source_event ox shuttle ns) (teardown_mysql_database ox d ns)"
    unfolding teardown_mysql_database_def drop_database_sql_def [symmetric]
    by (intro sends_guarded sends_drop_mysql)
  moreover have "sends (source_event ox shuttle ns) (teardown_clickhouse_database ox d ns)"
    unfolding teardown_clickhouse_database_def drop_database_sql_def [symmetric]
    using split_drop_database [OF assms] by (intro sends_intro sends_exec_clickhouse) auto
  ultimately show ?thesis
    unfolding teardown_sources_def by (intro sends_intro sends_teardown_redis)
qed

lemma sends_purge: "sends (source_event ox shuttle ns) (purge_s3_namespace ox ns)"
  unfolding purge_s3_namespace_def by (intro sends_intro) auto

lemma sends_teardown:
  assumes "srv_api srv = Some api"
  shows "sends (teardown_event ox api i shuttle conn ns) (teardown_session ox srv i shuttle conn ns)"
proof -
  have deletes: "teardown_event ox api i shuttle conn ns (EHttp (api_call api ''DELETE'' (''/api/v1/shuttles/'' @ shuttle) None i))"
      "teardown_event ox api i shuttle conn ns (EHttp (api_call api ''DELETE'' (namespace_path ns) None i))"
      "teardown_event ox api i shuttle conn ns (EHttp (api_call api ''DELETE'' (''/api/v1/connections/'' @ conn) None i))"
    by (simp_all add: teardown_deletes_def teardown_event_def)
  have purge: "sends (teardown_event ox api i shuttle conn ns) (purge_s3_namespace ox ns)"
    by (rule sends_mono [OF sends_purge [where shuttle = shuttle]]) (simp add: teardown_event_def)
  have sources: "is_safe_resource_name ns \<Longrightarrow>
      sends (teardown_event ox api i shuttle conn ns) (teardown_sources ox (srv_dispatcher srv) shuttle ns)"
    by (rule sends_mono [OF sends_teardown_sources]) (simp_all add: teardown_event_def)
  show ?thesis
    unfolding teardown_session_def assms option.case
    by (intro sends_ret sends_read_clock sends_bind sends_if sends_discard sends_metric sends_api_request
        sends_exec_drop purge sources deletes) simp_all
qed

text \<open>The order of the requests to the API.\<close>

lemma trace_drop:
  assumes "is_safe_identifier n" and "ox_method_error ox ''DELETE'' = None"
  shows "trace api_event (exec_sql ox c i (''DROP SHUTTLE IF EXISTS '' @ n)) w
           [EHttp (api_call c ''DELETE'' (''/api/v1/shuttles/'' @ n) None i)]"
    and "trace api_event (discard (exec_sql ox c i (''DROP CONNECTION IF EXISTS '' @ n))) w
           [EHttp (api_call c ''DELETE'' (''/api/v1/connections/'' @ n) None i)]"
  unfolding trace_def discard_def snd_run_bind_ret exec_sql_drop [OF assms] by (simp_all add: api_call_def)

lemma trace_namespace:
  assumes "ox_method_error ox ''DELETE'' = None"
  shows "trace api_event (do { _ \<leftarrow> api_request ox api ''DELETE'' (namespace_path ns) None i;
             discard (purge_s3_namespace ox ns) }) w [EHttp (api_call api ''DELETE'' (namespace_path ns) None i)]"
proof -
  have "trace api_event (api_request ox api ''DELETE'' (namespace_path ns) None i) w
      [EHttp (api_call api ''DELETE'' (namespace_path ns) None i)]"
    unfolding trace_def api_request_world [OF assms] by (simp add: api_call_def)
  moreover have "trace api_event (discard (purge_s3_namespace ox ns)) v []" for v
    by (rule trace_quiet, rule sends_mono [OF sends_discard [OF sends_purge]]) (rule source_not_api)
  ultimately have "trace api_event (do { _ \<leftarrow> api_request ox api ''DELETE'' (namespace_path ns) None i;
             discard (purge_s3_namespace ox ns) }) w ([EHttp (api_call api ''DELETE'' (namespace_path ns) None i)] @ [])"
    by (rule trace_bind)
  then show ?thesis by simp
qed

lemma trace_teardown:
  assumes api: "srv_api srv = Some api" and delete: "ox_method_error ox ''DELETE'' = None"
    and safe: "is_safe_identifier shuttle" "is_safe_identifier conn" "is_safe_identifier ns" "is_safe_resource_name ns"
  shows "trace api_event (teardown_session ox srv i shuttle conn ns) w (teardown_deletes api i shuttle conn ns)"
proof -
  have sources: "trace api_event (teardown_sources ox d shuttle ns) v []" for d v
    by (rule trace_quiet, rule sends_mono [OF sends_teardown_sources [OF safe(4)]]) (rule source_not_api)
  have clock: "trace api_event (do { td_end \<leftarrow> read_clock ox; metric_update (f td_end) }) v []" for f v
    by (rule trace_quiet) (intro sends_intro)
  have "trace api_event (teardown_session ox srv i shuttle conn ns) w
      ([] @ [EHttp (api_call api ''DELETE'' (''/api/v1/shuttles/'' @ shuttle) None i)] @
       [EHttp (api_call api ''DELETE'' (namespace_path ns) None i)] @
       [EHttp (api_call api ''DELETE'' (''/api/v1/connections/'' @ conn) None i)] @ [] @ [])"
    unfolding teardown_session_def api option.case
    using safe by (simp only: if_True if_False not_True_eq_False)
      (intro trace_bind trace_drop trace_namespace delete safe sources clock, rule trace_quiet, rule sends_read_clock)
  then show ?thesis by (simp add: teardown_deletes_def)
qed

lemma session_names_safe:
  assumes "session_ok sha256 k s" and "\<And>x. length (sha256 x) = 32"
  shows "is_safe_identifier (s_shuttle_name s)" "is_safe_identifier (s_connection_name s)"
    "is_safe_identifier (s_namespace s)" "is_safe_resource_name (s_namespace s)"
  using assms derived_resource derived_identifiers by (simp_all add: session_ok_def)

subsection \<open>Properties\<close>

text \<open>C10: A teardown removes everything that was named after the session and nothing else. Whatever
  the API, the databases and the processes answer to each call, \<open>teardown_session\<close> for the names
  of a session sends the API exactly three requests, in this order: delete the shuttle, delete
  the namespace with cascade and purge, delete the connection, all as the given identity. Every
  other call is the purge of the namespace's prefix, the drop of the session's publication, slot,
  schema or databases, a transaction or session setting around one of them, or a deletion of Redis
  keys the server listed for the session's prefix. A failed step never stops the later ones.\<close>

theorem teardown_removes_exactly_own:
  assumes api: "srv_api srv = Some api" and delete: "ox_method_error ox ''DELETE'' = None"
    and own: "session_ok sha256 k s" and digest: "\<And>x. length (sha256 x) = 32"
  shows "\<exists>es. w_log (snd (run_state (teardown_session ox srv i (s_shuttle_name s) (s_connection_name s) (s_namespace s)) w)) =
             w_log w @ es \<and>
           filter api_event es =
             map (\<lambda>path. EHttp (api_call api ''DELETE'' path None i))
               [''/api/v1/shuttles/'' @ s_shuttle_name s,
                ''/api/v1/catalog/namespaces/'' @ s_namespace s @ ''?cascade=true&purge=true'',
                ''/api/v1/connections/'' @ s_connection_name s] \<and>
           list_all (\<lambda>e. api_event e \<or> source_event ox (s_shuttle_name s) (s_namespace s) e) es"
proof -
  let ?m = "teardown_session ox srv i (s_shuttle_name s) (s_connection_name s) (s_namespace s)"
  have "trace api_event ?m w (teardown_deletes api i (s_shuttle_name s) (s_connection_name s) (s_namespace s))"
    by (intro trace_teardown api delete session_names_safe [OF own digest])
  then obtain es where es: "w_log (snd (run_state ?m w)) = w_log w @ es"
      "filter api_event es = teardown_deletes api i (s_shuttle_name s) (s_connection_name s) (s_namespace s)"
    unfolding trace_def by blast
  obtain es' where es': "w_log (snd (run_state ?m w)) = w_log w @ es'"
      "list_all (teardown_event ox api i (s_shuttle_name s) (s_connection_name s) (s_namespace s)) es'"
    using sends_teardown [OF api] by (rule sendsE)
  have "teardown_event ox api i sh conn ns e \<Longrightarrow> api_event e \<or> source_event ox sh ns e" for sh conn ns e
    by (auto simp: teardown_event_def teardown_deletes_def api_call_def)
  with es' es(1) have "list_all (\<lambda>e. api_event e \<or> source_event ox (s_shuttle_name s) (s_namespace s) e) es"
    by (metis (mono_tags, lifting) list.pred_mono_strong same_append_eq)
  with es show ?thesis
    unfolding teardown_deletes_def namespace_path_def by blast
qed

definition demo_server :: server where
  "demo_server = \<lparr>srv_config = demo_config, srv_sessions = True, srv_api = Some demo_client, srv_dispatcher = Tcp\<rparr>"

theorem teardown_removes_exactly_own_witness:
  "\<exists>es. w_log (snd (run_state (teardown_session demo_outside demo_server demo_identity (s_shuttle_name demo_session)
        (s_connection_name demo_session) (s_namespace demo_session)) demo_world)) = es \<and>
      length (filter api_event es) = 3"
proof -
  have "session_ok demo_sha 7 demo_session" by (simp add: demo_session_def session_ok_new ttl_defs)
  moreover have "length (demo_sha x) = 32" for x by (simp add: demo_sha_def)
  moreover have "srv_api demo_server = Some demo_client" "ox_method_error demo_outside ''DELETE'' = None"
    by (simp_all add: demo_server_def demo_outside_def)
  ultimately show ?thesis
    using teardown_removes_exactly_own [of demo_server demo_client demo_outside demo_sha 7 demo_session demo_identity demo_world]
    by (auto simp: demo_world_def)
qed

subsection \<open>The orphan sweep\<close>

text \<open>The calls that take away something of these names.\<close>

definition takes :: "api_client \<Rightarrow> identity \<Rightarrow> str \<Rightarrow> str \<Rightarrow> event \<Rightarrow> bool" where
  "takes api i shuttle ns e \<longleftrightarrow>
     e \<in> {EHttp (api_call api ''DELETE'' (''/api/v1/shuttles/'' @ shuttle) None i),
          EHttp (api_call api ''DELETE'' (namespace_path ns) None i),
          EPgRaw (drop_publication_sql (shuttle @ ''_pub'')), EPgRaw (drop_slot_sql (shuttle @ ''_slot'')),
          EPgRaw (drop_schema_sql ns), EMyQuery (drop_database_sql ns)} \<or>
     (\<exists>cfg db. e = EHttp (clickhouse_call cfg db (drop_database_sql ns))) \<or>
     (\<exists>n. e = ERedisCmd [''SCAN'', show_nat n, ''MATCH'', ns @ '':*'', ''COUNT'', ''200''])"

lemma api_call_path_inj: "api_call c m p b i = api_call c m p' b' i' \<Longrightarrow>
    \<not> starts_with p ''http'' \<Longrightarrow> \<not> starts_with p' ''http'' \<Longrightarrow> p = p'"
proof -
  assume eq: "api_call c m p b i = api_call c m p' b' i'" and "\<not> starts_with p ''http''" "\<not> starts_with p' ''http''"
  then have "api_url c p = ac_base_url c @ p" "api_url c p' = ac_base_url c @ p'"
    by (auto simp: api_url_def starts_with_iff prefix_def)
  with eq show ?thesis by (simp add: api_call_def)
qed

lemma sql_names_inj:
  "drop_publication_sql n = drop_publication_sql n' \<longleftrightarrow> n = n'"
  "drop_slot_sql n = drop_slot_sql n' \<longleftrightarrow> n = n'"
  "drop_schema_sql n = drop_schema_sql n' \<longleftrightarrow> n = n'"
  "drop_database_sql n = drop_database_sql n' \<longleftrightarrow> n = n'"
proof -
  show "drop_slot_sql n = drop_slot_sql n' \<longleftrightarrow> n = n'"
  proof
    assume eq: "drop_slot_sql n = drop_slot_sql n'"
    from arg_cong [OF eq, of length] have "length n = length n'" by (simp add: drop_slot_sql_def)
    with eq show "n = n'" by (simp add: drop_slot_sql_def)
  qed simp
qed (simp_all add: drop_publication_sql_def drop_schema_sql_def drop_database_sql_def backtick_def)

lemma sql_kinds_differ:
  "drop_publication_sql a \<noteq> drop_slot_sql b" "drop_publication_sql a \<noteq> drop_schema_sql b"
  "drop_slot_sql a \<noteq> drop_schema_sql b"
  "\<not> starts_with (drop_database_sql a) ''SET SESSION MAX_EXECUTION_TIME = ''"
  by (simp_all add: drop_publication_sql_def drop_slot_sql_def drop_schema_sql_def drop_database_sql_def)

lemma delete_paths_differ:
  assumes "name \<noteq> shuttle" and "ns \<noteq> ns'"
  shows "api_call api ''DELETE'' (''/api/v1/shuttles/'' @ shuttle) None i \<noteq> api_call api ''DELETE'' (''/api/v1/shuttles/'' @ name) None i'"
    "api_call api ''DELETE'' (''/api/v1/shuttles/'' @ shuttle) None i \<noteq> api_call api ''DELETE'' (namespace_path ns) None i'"
    "api_call api ''DELETE'' (''/api/v1/shuttles/'' @ shuttle) None i \<noteq> api_call api ''DELETE'' (''/api/v1/connections/'' @ conn) None i'"
    "api_call api ''DELETE'' (namespace_path ns') None i \<noteq> api_call api ''DELETE'' (''/api/v1/shuttles/'' @ name) None i'"
    "api_call api ''DELETE'' (namespace_path ns') None i \<noteq> api_call api ''DELETE'' (namespace_path ns) None i'"
    "api_call api ''DELETE'' (namespace_path ns') None i \<noteq> api_call api ''DELETE'' (''/api/v1/connections/'' @ conn) None i'"
  using assms by (auto dest!: api_call_path_inj simp: namespace_path_def)

lemma not_clickhouse: "api_call api m p b i \<noteq> clickhouse_call cfg db s" "clickhouse_call cfg db s \<noteq> api_call api m p b i"
  by (auto simp: api_call_def clickhouse_call_def)

lemma clickhouse_call_inj: "clickhouse_call cfg db s = clickhouse_call cfg' db' s' \<Longrightarrow> s = s'"
  by (simp add: clickhouse_call_def)

text \<open>A teardown of other names takes nothing of these.\<close>

lemma teardown_spares:
  assumes "name \<noteq> shuttle" and "ns \<noteq> ns'" and "teardown_event ox api i name conn ns e"
  shows "\<not> takes api j shuttle ns' e"
proof (cases "e \<in> set (teardown_deletes api i name conn ns)")
  case True
  then show ?thesis
    by (auto simp: teardown_deletes_def takes_def not_clickhouse
        delete_paths_differ [OF assms(1,2)] delete_paths_differ [OF assms(1,2), symmetric] simp del: append_Cons)
next
  case False
  then have "source_event ox name ns e" using assms(3) by (simp add: teardown_event_def)
  then show ?thesis
    using assms(1,2)
    by (cases e) (auto simp: takes_def sql_names_inj sql_kinds_differ sql_kinds_differ(1-3) [symmetric] not_clickhouse
        dest: clickhouse_call_inj)
qed

lemma orphan_of_spares:
  "orphan_of live_sh live_ns v = Some (name, conn, ns) \<Longrightarrow> name \<notin> live_sh \<and> ns \<notin> live_ns"
  by (auto simp: orphan_of_def split: option.splits if_splits)

lemma in_map_filter: "y \<in> set (List.map_filter f xs) \<longleftrightarrow> (\<exists>x \<in> set xs. f x = Some y)"
  by (induction xs) (auto simp: List.map_filter_simps split: option.split)

lemma run_mgr_read:
  "run_state (mgr_op ox (\<lambda>n st. (f st, st))) w =
     (f (ox_others ox (w_tick w) (w_store w)),
      w\<lparr>w_store := ox_others ox (w_tick w) (w_store w), w_tick := Suc (w_tick w)\<rparr>)"
  by (simp add: mgr_op_def)

lemma sends_sweep_listed:
  assumes "srv_api srv = Some api" and "shuttle \<in> live_sh" and "ns \<in> live_ns"
  shows "sends (\<lambda>e. \<not> takes api j shuttle ns e) (sweep_listed ox srv api live_sh live_ns)"
proof -
  have get: "\<not> takes api j shuttle ns (EHttp (api_call api ''GET'' path None i))" for path i
    by (auto simp: takes_def api_call_def clickhouse_call_def)
  have conn: "\<not> takes api j shuttle ns (EHttp (api_call api ''DELETE'' (''/api/v1/connections/'' @ x) None i))" for x i
    by (auto simp: takes_def not_clickhouse namespace_path_def dest!: api_call_path_inj)
  have orphan: "sends (\<lambda>e. \<not> takes api j shuttle ns e) (teardown_session ox srv sweeper_identity name c n)"
    if "(name, c, n) \<in> set (List.map_filter (orphan_of live_sh live_ns) vs)" for name c n vs
  proof (rule sends_mono [OF sends_teardown [OF assms(1)]])
    have "name \<noteq> shuttle" "n \<noteq> ns"
      using that assms(2,3) orphan_of_spares by (fastforce simp: in_map_filter)+
    then show "teardown_event ox api sweeper_identity name c n e \<Longrightarrow> \<not> takes api j shuttle ns e" for e
      by (rule teardown_spares)
  qed
  have drop: "sends (\<lambda>e. \<not> takes api j shuttle ns e)
      (discard (exec_sql ox api sweeper_identity (''DROP CONNECTION IF EXISTS '' @ n)))" for n
    by (intro sends_discard sends_drop_connection conn)
  show ?thesis
    unfolding sweep_listed_def
    by (intro sends_bind sends_api_request get)
      (auto split: sum.split intro!: sends_ret sends_bind sends_api_request get sends_for_each orphan drop simp del: append_Cons)
qed

text \<open>C13: The orphan sweep spares every session that is alive. If a session was in the manager when the
  sweep read the live shuttles and again when it read the live namespaces, then whatever the
  API lists and whatever any call answers, the sweep never deletes that session's shuttle or
  namespace, and never drops its publication, its slot, its schema, its databases or the keys under its
  prefix.\<close>

theorem orphan_sweep_spares_live:
  assumes api: "srv_api srv = Some api"
    and first: "st1 = ox_others ox (w_tick w) (w_store w)" and second: "st2 = ox_others ox (Suc (w_tick w)) st1"
    and live: "s_shuttle_name s \<in> live_shuttles (fst st1)" "s_namespace s \<in> live_namespaces (fst st2)"
  shows "\<exists>es. w_log (snd (run_state (sweep_api_orphans ox srv) w)) = w_log w @ es \<and>
           list_all (\<lambda>e. \<not> takes api i (s_shuttle_name s) (s_namespace s) e) es"
proof (cases "srv_sessions srv")
  case False
  then show ?thesis using api by (simp add: sweep_api_orphans_def)
next
  case True
  let ?w = "w\<lparr>w_store := st2, w_tick := Suc (Suc (w_tick w))\<rparr>"
  obtain es where "w_log (snd (run_state (sweep_api_orphans ox srv) w)) = w_log ?w @ es"
      "list_all (\<lambda>e. \<not> takes api i (s_shuttle_name s) (s_namespace s) e) es"
    using sendsE [OF sends_sweep_listed [OF api live, of i ox], of ?w] True api
    by (auto simp: sweep_api_orphans_def run_mgr_read first second)
  then show ?thesis by simp
qed

theorem orphan_sweep_spares_live_witness:
  "s_shuttle_name demo_session \<in> live_shuttles demo_manager \<and> s_namespace demo_session \<in> live_namespaces demo_manager \<and>
   (\<exists>es. w_log (snd (run_state (sweep_api_orphans demo_outside demo_server) demo_world)) = es \<and>
      list_all (\<lambda>e. \<not> takes demo_client demo_identity (s_shuttle_name demo_session) (s_namespace demo_session) e) es)"
proof -
  have live: "s_shuttle_name demo_session \<in> live_shuttles demo_manager" "s_namespace demo_session \<in> live_namespaces demo_manager"
    by (simp_all add: live_shuttles_def live_namespaces_def demo_manager_def hm_defs)
  have "srv_api demo_server = Some demo_client" by (simp add: demo_server_def)
  from orphan_sweep_spares_live [OF this refl refl, of demo_session demo_outside demo_world demo_identity] live
  show ?thesis by (simp add: demo_outside_def demo_world_def)
qed

lemma for_each_single: "snd (run_state (for_each f [x]) w) = snd (run_state (f x) w)"
  by (simp split: prod.split)

lemma stale_own_connection:
  assumes "session_ok sha256 k s"
  shows "stale_connection live_sh [] (JObject [(''name'', JString (s_connection_name s))]) = Some (s_connection_name s)"
proof -
  have "s_connection_name s = ''pg_'' @ short_user sha256 (s_user_id s) @ ''_'' @ short_sid k @ ''_src''"
    using assms by (simp add: session_ok_def derive_connection_name_def derive_shuttle_name_def)
  then have "starts_with (s_connection_name s) ''pg_''" "ends_with (s_connection_name s) ''_src''"
    by (simp_all add: text_simps suffix_def)
  then show ?thesis
    by (simp add: stale_connection_def str_field_def still_used_def)
qed

text \<open>C37: The orphan sweep can take the connection of a live session. A connection counts as in use only if
  the API lists a shuttle of a live session that names it; the live sessions' own connection
  names are not consulted. So when a session is alive and its shuttle is not listed (its
  template has created the connection and not yet the shuttle, or creating the shuttle failed),
  the sweep deletes the session's connection.\<close>

theorem orphan_sweep_drops_live_connection:
  assumes api: "srv_api srv = Some api" and on: "srv_sessions srv"
    and own: "session_ok sha256 k s" and digest: "\<And>x. length (sha256 x) = 32"
    and methods: "\<And>m. ox_method_error ox m = None"
    and live: "s_shuttle_name s \<in> live_shuttles (fst (ox_others ox (w_tick w) (w_store w)))"
    and shuttles: "\<And>log. ox_http ox log (api_call api ''GET'' ''/api/v1/shuttles'' None sweeper_identity) = Inr (200, Inr shuttle_text)"
      "ox_from_str ox shuttle_text = Some (JArray [])"
    and connections: "\<And>log. ox_http ox log (api_call api ''GET'' ''/api/v1/connections'' None sweeper_identity) = Inr (200, Inr connection_text)"
      "ox_from_str ox connection_text = Some (JArray [JObject [(''name'', JString (s_connection_name s))]])"
  shows "w_log (snd (run_state (sweep_api_orphans ox srv) w)) =
           w_log w @
             [EHttp (api_call api ''GET'' ''/api/v1/shuttles'' None sweeper_identity),
              EHttp (api_call api ''GET'' ''/api/v1/connections'' None sweeper_identity),
              EHttp (api_call api ''DELETE'' (''/api/v1/connections/'' @ s_connection_name s) None sweeper_identity)]"
proof -
  have get: "run_state (api_request ox api ''GET'' path None sweeper_identity) v =
      (Inr (200, j), v\<lparr>w_log := w_log v @ [EHttp (api_call api ''GET'' path None sweeper_identity)]\<rparr>)"
    if "\<And>log. ox_http ox log (api_call api ''GET'' path None sweeper_identity) = Inr (200, Inr b)" "ox_from_str ox b = Some j"
    for path b j v
    using that methods by (simp add: api_request_def)
  define drop where "drop = (\<lambda>name. discard (exec_sql ox api sweeper_identity (''DROP CONNECTION IF EXISTS '' @ name)))"
  have own_drop: "snd (run_state (drop (s_connection_name s)) v) =
      v\<lparr>w_log := w_log v @ [EHttp (api_call api ''DELETE'' (''/api/v1/connections/'' @ s_connection_name s) None sweeper_identity)]\<rparr>" for v
    unfolding drop_def discard_def snd_run_bind_ret
    by (rule exec_sql_drop(2)) (use session_names_safe [OF own digest] methods in simp_all)
  have "w_log (snd (run_state (sweep_listed ox srv api a b) v)) = w_log v @
             [EHttp (api_call api ''GET'' ''/api/v1/shuttles'' None sweeper_identity),
              EHttp (api_call api ''GET'' ''/api/v1/connections'' None sweeper_identity),
              EHttp (api_call api ''DELETE'' (''/api/v1/connections/'' @ s_connection_name s) None sweeper_identity)]" for a b v
    unfolding sweep_listed_def drop_def [symmetric]
    by (simp add: get [OF shuttles] get [OF connections] as_array_def
        stale_own_connection [OF own] own_drop for_each_single del: for_each.simps(2))
  then show ?thesis using api on by (simp add: sweep_api_orphans_def run_mgr_read)
qed

definition listing_outside :: outside where
  "listing_outside = demo_outside
     \<lparr>ox_http := (\<lambda>_ c. Inr (200, Inr (hc_url c))),
      ox_from_str := (\<lambda>text. Some (JArray
        (if text = ''http://api:8080/api/v1/connections''
         then [JObject [(''name'', JString (s_connection_name demo_session))]] else [])))\<rparr>"

theorem orphan_sweep_drops_live_connection_witness:
  "s_shuttle_name demo_session \<in> live_shuttles demo_manager \<and>
   EHttp (api_call demo_client ''DELETE'' (''/api/v1/connections/'' @ s_connection_name demo_session) None sweeper_identity)
     \<in> set (w_log (snd (run_state (sweep_api_orphans listing_outside demo_server) demo_world)))"
proof -
  have own: "session_ok demo_sha 7 demo_session" by (simp add: demo_session_def session_ok_new ttl_defs)
  have live: "s_shuttle_name demo_session \<in> live_shuttles demo_manager"
    by (simp add: live_shuttles_def demo_manager_def hm_defs)
  then have st: "s_shuttle_name demo_session \<in> live_shuttles
      (fst (ox_others listing_outside (w_tick demo_world) (w_store demo_world)))"
    by (simp add: listing_outside_def demo_outside_def demo_world_def)
  have url: "hc_url (api_call demo_client ''GET'' p None i) = ''http://api:8080'' @ p"
    if "\<not> starts_with p ''http''" for p i
    using that by (auto simp: api_call_def api_url_def demo_client_def api_client_new_def trim_end_char_def
        starts_with_iff prefix_def)
  have srv: "srv_api demo_server = Some demo_client" "srv_sessions demo_server" "length (demo_sha x) = 32"
    "ox_method_error listing_outside m = None" for x m
    by (simp_all add: demo_server_def demo_sha_def listing_outside_def demo_outside_def)
  note sweep = orphan_sweep_drops_live_connection [OF srv(1,2) own srv(3) srv(4) st,
      where shuttle_text = "''http://api:8080/api/v1/shuttles''" and connection_text = "''http://api:8080/api/v1/connections''"]
  show ?thesis
    using live by (subst sweep) (simp_all add: url, simp_all add: listing_outside_def url)
qed

end
