(* ===== verification/Handlers.thy ===== *)
theory Handlers
  imports Teardown
begin

text \<open>
  The HTTP handlers (\<^verbatim>\<open>handlers.rs\<close>): one definition per handler, over the server's state and
  the request the middlewares passed on. A handler returns its success value or the pair of
  status and error text of \<open>ErrorResponse\<close>; \<open>extend_session\<close> can also panic. What a handler logs
  through \<^verbatim>\<open>tracing\<close> is left out.
\<close>

type_synonym 'a response = "(http_error, 'a) result"

subsection \<open>Errors and requirements\<close>

definition err :: "nat \<Rightarrow> str \<Rightarrow> http_error" where
  "err status msg = (status, msg)"

definition map_session_err :: "session_error \<Rightarrow> http_error" where
  "map_session_err e =
     (let status = (case e of
            Disabled \<Rightarrow> 403
          | UnknownScenario _ \<Rightarrow> 404
          | NotFound _ \<Rightarrow> 404
          | Forbidden \<Rightarrow> 403
          | UserLimit _ \<Rightarrow> 409
          | Cooldown _ \<Rightarrow> 429
          | InvalidTtl _ \<Rightarrow> 400)
      in err status (session_error_display e))"

definition require_identity :: "request \<Rightarrow> identity response" where
  "require_identity req = ok_or (err 401 ''playground requires authenticated identity'') (rq_identity req)"

definition require_sessions :: "server \<Rightarrow> unit response" where
  "require_sessions srv =
     (if srv_sessions srv then Inr () else Inl (err 503 ''playground is not initialized (manifest missing)''))"

definition require_api_client :: "server \<Rightarrow> api_client response" where
  "require_api_client srv =
     ok_or (err 503 (''playground api callback client is not configured '' @
                     ''(set PLAYGROUND_API_BASE_URL + PLAYGROUND_SERVICE_TOKEN)''))
       (srv_api srv)"

definition or_http :: "(session_error, 'a) result act \<Rightarrow> 'a response act" where
  "or_http m = do { r \<leftarrow> m; ret (map_err map_session_err r) }"

definition view_now :: "outside \<Rightarrow> session \<Rightarrow> session_view act" where
  "view_now ox s = do { c \<leftarrow> read_clock ox; ret (session_view_of c s) }"

text \<open>\<open>let _ = mgr.update(..., |s| s.record(...)).await\<close>.\<close>

definition note_event :: "outside \<Rightarrow> session \<Rightarrow> str \<Rightarrow> str \<Rightarrow> (session \<Rightarrow> str) \<Rightarrow> bool \<Rightarrow> unit act" where
  "note_event ox sess user kind msg ok =
     discard (mgr_note ox (s_id sess) user (\<lambda>now s. record_event now kind (msg s) None (Some ok) s))"

subsection \<open>Manifest\<close>

record manifest_view =
  mv_version :: u32
  mv_deployment :: str
  mv_sources :: "source list"
  mv_scenarios :: "scenario list"
  mv_enabled :: bool
  mv_default_ttl_seconds :: nat
  mv_min_ttl_seconds :: nat
  mv_max_ttl_seconds :: nat
  mv_requires_auth :: bool

definition get_manifest :: "server \<Rightarrow> manifest_view act" where
  "get_manifest srv =
     (let deployment = deployment_of (srv_config srv)
      in if \<not> srv_sessions srv
         then ret \<lparr>mv_version = 0, mv_deployment = deployment_str deployment, mv_sources = [], mv_scenarios = [],
                   mv_enabled = False, mv_default_ttl_seconds = 0, mv_min_ttl_seconds = as_secs MIN_TTL,
                   mv_max_ttl_seconds = as_secs MAX_TTL, mv_requires_auth = True\<rparr>
         else do { m \<leftarrow> gets (\<lambda>w. fst (w_store w));
                   ret \<lparr>mv_version = mf_version (sm_manifest m), mv_deployment = deployment_str deployment,
                        mv_sources = mf_sources (sm_manifest m),
                        mv_scenarios = filter (\<lambda>s. allowed_in s deployment) (mf_scenarios (sm_manifest m)),
                        mv_enabled = sm_enabled m, mv_default_ttl_seconds = as_secs (sm_default_ttl m),
                        mv_min_ttl_seconds = as_secs MIN_TTL, mv_max_ttl_seconds = as_secs MAX_TTL,
                        mv_requires_auth = True\<rparr> })"

subsection \<open>Creating a session\<close>

record create_session_body =
  cb_scenario_id :: str
  cb_ttl_seconds :: "u64 option"

text \<open>What \<open>create_session\<close> does on the source once the session exists.\<close>

definition apply_init_sql :: "outside \<Rightarrow> server \<Rightarrow> source \<Rightarrow> session \<Rightarrow> str \<Rightarrow> str \<Rightarrow> unit act" where
  "apply_init_sql ox srv src sess user init_rel =
     (case read_example_file ox (srv_config srv) init_rel of
        Inl e \<Rightarrow> ret ()
      | Inr text \<Rightarrow>
          do { r \<leftarrow> dispatch_source_sql ox srv src (s_namespace sess)
                      (substitute_source_coords ox (substitute_placeholders ox text sess) (Some src));
               (case r of
                  Inr _ \<Rightarrow> note_event ox sess user ''source-init-applied'' (\<lambda>_. ''applied '' @ init_rel) True
                | Inl e \<Rightarrow> note_event ox sess user ''source-init-failed'' (\<lambda>_. e) False) })"

definition resource_label :: "str \<Rightarrow> str" where
  "resource_label service =
     (if service = ''postgres'' then ''schema'' else if service = ''redis'' then ''key-prefix'' else ''database'')"

definition provision_source :: "outside \<Rightarrow> server \<Rightarrow> scenario \<Rightarrow> source \<Rightarrow> session \<Rightarrow> str \<Rightarrow> unit act" where
  "provision_source ox srv sc src sess user =
     do { r \<leftarrow> provision_session_resources ox srv src (s_namespace sess);
          (case r of
             Inl e \<Rightarrow> note_event ox sess user ''resource-provision-failed'' (\<lambda>_. e) False
           | Inr _ \<Rightarrow>
               (case src_docker_service src of
                  None \<Rightarrow> ret ()
                | Some service \<Rightarrow>
                    if service \<in> {''postgres'', ''mysql'', ''clickhouse'', ''redis''}
                    then do { _ \<leftarrow> note_event ox sess user ''resource-provisioned''
                                    (\<lambda>s. service @ '' '' @ resource_label service @ ''='' @ s_namespace s) True;
                              (case sc_init_sql sc of
                                 None \<Rightarrow> ret ()
                               | Some init_rel \<Rightarrow> apply_init_sql ox srv src sess user init_rel) }
                    else ret ())) }"

text \<open>The statements of the shuttle template, one request each, up to the first that fails.\<close>

fun run_statements :: "outside \<Rightarrow> api_client \<Rightarrow> identity \<Rightarrow> str \<Rightarrow> nat \<Rightarrow> str list \<Rightarrow> (str, unit) result act" where
  "run_statements ox api i rel idx [] = ret (Inr ())"
| "run_statements ox api i rel idx (stmt # stmts) =
     do { r \<leftarrow> exec_sql ox api i stmt;
          (case r of
             Inl e \<Rightarrow> ret (Inl (''statement #'' @ show_nat (idx + 1) @ '' of '' @ rel @ '': '' @ api_call_error_display e))
           | Inr _ \<Rightarrow> run_statements ox api i rel (idx + 1) stmts) }"

definition shuttle_statements :: "outside \<Rightarrow> str \<Rightarrow> session \<Rightarrow> source option \<Rightarrow> str list" where
  "shuttle_statements ox text sess src =
     split_ds_sql_statements (substitute_source_coords ox (substitute_placeholders ox text sess) src)"

definition provision_shuttle ::
    "outside \<Rightarrow> server \<Rightarrow> identity \<Rightarrow> manifest \<Rightarrow> scenario \<Rightarrow> session \<Rightarrow> str \<Rightarrow> unit act" where
  "provision_shuttle ox srv i mf sc sess shuttle_rel =
     (case read_example_file ox (srv_config srv) shuttle_rel of
        Inl e \<Rightarrow> ret ()
      | Inr text \<Rightarrow>
          (let statements = shuttle_statements ox text sess (mf_source mf (sc_source_id sc)); count = length statements
           in do { r \<leftarrow> (case srv_api srv of
                           Some api \<Rightarrow> run_statements ox api i shuttle_rel 0 statements
                         | None \<Rightarrow> ret (Inl (''api callback client is not configured '' @ [CHR 0xE2, CHR 0x80, CHR 0x94] @
                                     '' set PLAYGROUND_API_BASE_URL + PLAYGROUND_SERVICE_TOKEN'')));
                   (case r of
                      Inr _ \<Rightarrow> note_event ox sess (id_user_id i) ''shuttle-provisioned''
                                (\<lambda>_. ''applied '' @ shuttle_rel @ '' ('' @ show_nat count @ '' statement'' @
                                     (if count = 1 then [] else ''s'') @ '')'') True
                    | Inl msg \<Rightarrow> note_event ox sess (id_user_id i) ''shuttle-provision-failed'' (\<lambda>_. msg) False) }))"

definition session_created :: "utc_time \<Rightarrow> session \<Rightarrow> session" where
  "session_created now s =
     (record_event now ''session-created''
       (''namespace='' @ s_namespace s @ '' shuttle='' @ s_shuttle_name s @ '' scenario='' @ s_scenario_id s)
       None (Some True) s)\<lparr>s_status := Active\<rparr>"

text \<open>From the new session to the response: provisioning is best effort.\<close>

definition provision_session ::
    "outside \<Rightarrow> server \<Rightarrow> identity \<Rightarrow> manifest \<Rightarrow> scenario \<Rightarrow> session \<Rightarrow> (nat \<times> session_view) response act" where
  "provision_session ox srv i mf sc sess =
     do { _ \<leftarrow> (case mf_source mf (sc_source_id sc) of
                  None \<Rightarrow> ret ()
                | Some src \<Rightarrow> provision_source ox srv sc src sess (id_user_id i));
          _ \<leftarrow> (case sc_shuttle_sql sc of
                  None \<Rightarrow> ret ()
                | Some rel \<Rightarrow> provision_shuttle ox srv i mf sc sess rel);
          _ \<leftarrow> mgr_note ox (s_id sess) (id_user_id i) session_created;
          v \<leftarrow> view_now ox sess;
          ret (Inr (201, v)) }"

text \<open>
  \<open>create_session\<close>. \<open>body\<close> is what reading the request body gave (an error past 16 KiB), \<open>from_slice\<close>
  serde's decoder of it.
\<close>

definition create_session ::
    "outside \<Rightarrow> (str \<Rightarrow> (str, create_session_body) result) \<Rightarrow> server \<Rightarrow> request \<Rightarrow> (str, str) result \<Rightarrow>
       (nat \<times> session_view) response act" where
  "create_session ox from_slice srv req body =
     attempt (ret (require_identity req)) (\<lambda>i.
     attempt (ret (require_sessions srv)) (\<lambda>_.
     attempt (ret (map_err (\<lambda>e. err 400 (''invalid body: '' @ e)) body)) (\<lambda>bytes.
     attempt (ret (map_err (\<lambda>e. err 400 (''invalid JSON: '' @ e)) (from_slice bytes))) (\<lambda>cb.
     do { mf \<leftarrow> mgr_manifest;
          attempt (ret (ok_or (err 404 (''unknown scenario: '' @ cb_scenario_id cb)) (mf_scenario mf (cb_scenario_id cb)))) (\<lambda>sc.
          (let deployment = deployment_of (srv_config srv)
           in if \<not> allowed_in sc deployment
              then ret (Inl (err 403 (''scenario '' @ sc_id sc @ '' is not allowed on deployment kind '' @ deployment_str deployment)))
              else do { q \<leftarrow> quota_consume ox (id_tenant_id i);
                        (case q of
                           Inl e \<Rightarrow>
                             do { _ \<leftarrow> metric_update (record_session_start (cb_scenario_id cb) StartDenied);
                                  ret (Inl (err 429 (quota_error_display e))) }
                         | Inr _ \<Rightarrow>
                             do { _ \<leftarrow> metric_update (record_session_start (cb_scenario_id cb) StartOk);
                                  attempt (or_http (mgr_create ox (id_user_id i) (id_tenant_id i) (cb_scenario_id cb)
                                             (map_option (\<lambda>t. from_secs (unat t)) (cb_ttl_seconds cb)))) (\<lambda>sess.
                                    provision_session ox srv i mf sc sess) }) })) }))))"

subsection \<open>Reading and ending\<close>

definition get_session :: "outside \<Rightarrow> server \<Rightarrow> uuid \<Rightarrow> request \<Rightarrow> session_view response act" where
  "get_session ox srv sid req =
     attempt (ret (require_identity req)) (\<lambda>i.
     attempt (ret (require_sessions srv)) (\<lambda>_.
     attempt (or_http (mgr_get ox sid (id_user_id i))) (\<lambda>s.
     do { v \<leftarrow> view_now ox s; ret (Inr v) })))"

definition list_my_sessions :: "outside \<Rightarrow> server \<Rightarrow> request \<Rightarrow> session_view list response act" where
  "list_my_sessions ox srv req =
     attempt (ret (require_identity req)) (\<lambda>i.
     attempt (ret (require_sessions srv)) (\<lambda>_.
     do { active \<leftarrow> mgr_user_session ox (id_user_id i);
          (case active of
             None \<Rightarrow> ret (Inr [])
           | Some s \<Rightarrow> do { v \<leftarrow> view_now ox s; ret (Inr [v]) }) }))"

definition end_session :: "outside \<Rightarrow> server \<Rightarrow> uuid \<Rightarrow> request \<Rightarrow> session_view response act" where
  "end_session ox srv sid req =
     attempt (ret (require_identity req)) (\<lambda>i.
     attempt (ret (require_sessions srv)) (\<lambda>_.
     attempt (or_http (mgr_end ox sid (id_user_id i))) (\<lambda>s.
     do { c \<leftarrow> read_clock ox;
          _ \<leftarrow> teardown_session ox srv i (s_shuttle_name s) (s_connection_name s) (s_namespace s);
          v \<leftarrow> view_now ox (record_event (utc c) ''session-ended'' ''user ended session'' None (Some True) s);
          ret (Inr v) })))"

subsection \<open>Reset and extension\<close>

definition reset_source :: "outside \<Rightarrow> server \<Rightarrow> manifest \<Rightarrow> scenario \<Rightarrow> session \<Rightarrow> unit act" where
  "reset_source ox srv mf sc sess =
     (case sc_init_sql sc of
        None \<Rightarrow> ret ()
      | Some init_rel \<Rightarrow>
          (case read_example_file ox (srv_config srv) init_rel of
             Inl e \<Rightarrow> ret ()
           | Inr text \<Rightarrow>
               (case mf_source mf (sc_source_id sc) of
                  None \<Rightarrow> ret ()
                | Some src \<Rightarrow>
                    discard (dispatch_source_sql ox srv src (s_namespace sess)
                      (substitute_source_coords ox (substitute_placeholders ox text sess) (Some src))))))"

definition reset_shuttle :: "outside \<Rightarrow> server \<Rightarrow> api_client \<Rightarrow> identity \<Rightarrow> manifest \<Rightarrow> scenario \<Rightarrow> session \<Rightarrow> unit act" where
  "reset_shuttle ox srv api i mf sc sess =
     (case sc_shuttle_sql sc of
        None \<Rightarrow> ret ()
      | Some rel \<Rightarrow>
          (case read_example_file ox (srv_config srv) rel of
             Inl e \<Rightarrow> ret ()
           | Inr text \<Rightarrow>
               discard (run_statements ox api i rel 0 (shuttle_statements ox text sess (mf_source mf (sc_source_id sc))))))"

definition reset_session :: "outside \<Rightarrow> server \<Rightarrow> uuid \<Rightarrow> request \<Rightarrow> session_view response act" where
  "reset_session ox srv sid req =
     attempt (ret (require_identity req)) (\<lambda>i.
     attempt (ret (require_sessions srv)) (\<lambda>_.
     attempt (or_http (mgr_get ox sid (id_user_id i))) (\<lambda>sess.
     do { mf \<leftarrow> mgr_manifest;
          attempt (ret (ok_or (err 500 (''session'' @ [CHR 0x27] @ ''s scenario no longer in manifest''))
                     (mf_scenario mf (s_scenario_id sess)))) (\<lambda>sc.
          if \<not> is_safe_identifier (s_shuttle_name sess) \<or> \<not> is_safe_identifier (s_connection_name sess) \<or>
             \<not> is_safe_identifier (s_namespace sess)
          then ret (Inl (err 500 ''session names failed identifier validation''))
          else attempt (or_http (mgr_note ox sid (id_user_id i) (\<lambda>now s.
                 record_event now ''reset-start''
                   (''user-triggered reset '' @ [CHR 0xE2, CHR 0x80, CHR 0x94] @ '' dropping + recreating shuttle'')
                   None (Some True) (s\<lparr>s_status := Resetting\<rparr>)))) (\<lambda>_.
               attempt (ret (require_api_client srv)) (\<lambda>api.
               do { _ \<leftarrow> exec_sql ox api i (''DROP SHUTTLE IF EXISTS '' @ s_shuttle_name sess);
                    _ \<leftarrow> exec_sql ox api i (''DROP NAMESPACE IF EXISTS '' @ s_namespace sess @ '' CASCADE'');
                    _ \<leftarrow> reset_source ox srv mf sc sess;
                    _ \<leftarrow> reset_shuttle ox srv api i mf sc sess;
                    attempt (or_http (mgr_note ox sid (id_user_id i) (\<lambda>now s.
                      record_event now ''reset-complete'' ''reset finished'' None (Some True) (s\<lparr>s_status := Active\<rparr>)))) (\<lambda>_.
                    attempt (or_http (mgr_get ox sid (id_user_id i))) (\<lambda>s.
                    do { v \<leftarrow> view_now ox s; ret (Inr v) })) }))) })))"

definition DEFAULT_EXTEND :: u64 where
  "DEFAULT_EXTEND = 3600"

definition extend_session ::
    "outside \<Rightarrow> server \<Rightarrow> uuid \<Rightarrow> u64 option \<Rightarrow> request \<Rightarrow> session_view response outcome act" where
  "extend_session ox srv sid seconds req =
     (case (require_identity req, require_sessions srv) of
        (Inl e, _) \<Rightarrow> ret (Returns (Inl e))
      | (Inr i, Inl e) \<Rightarrow> ret (Returns (Inl e))
      | (Inr i, Inr _) \<Rightarrow>
          do { r \<leftarrow> mgr_update ox sid (id_user_id i)
                      (\<lambda>c1 c2. extend_closure c1 c2 (from_secs (unat (opt_unwrap_or seconds DEFAULT_EXTEND))));
               (case r of
                  Panics \<Rightarrow> ret Panics
                | Returns (Inl e) \<Rightarrow> ret (Returns (Inl (map_session_err e)))
                | Returns (Inr (Inl msg)) \<Rightarrow> ret (Returns (Inl (err 400 msg)))
                | Returns (Inr (Inr _)) \<Rightarrow>
                    do { v \<leftarrow> attempt (or_http (mgr_get ox sid (id_user_id i))) (\<lambda>s.
                                do { v \<leftarrow> view_now ox s; ret (Inr v) });
                         ret (Returns v) }) })"

subsection \<open>Actions\<close>

record action_response =
  ar_action_id :: str
  ar_kind :: str
  ar_status :: str
  ar_stdout :: "str option"
  ar_stderr :: "str option"
  ar_http_status :: "nat option"
  ar_body :: "json option"
  ar_error :: "str option"

definition action_response_of :: "str \<Rightarrow> action \<Rightarrow> (str, action_outcome) result \<Rightarrow> action_response" where
  "action_response_of action_id a r =
     (case r of
        Inr out \<Rightarrow> \<lparr>ar_action_id = action_id, ar_kind = to_ascii_lowercase (action_kind_debug (act_kind a)), ar_status = ''ok'',
                  ar_stdout = ao_stdout out, ar_stderr = ao_stderr out, ar_http_status = ao_http_status out,
                  ar_body = ao_body out, ar_error = None\<rparr>
      | Inl e \<Rightarrow> \<lparr>ar_action_id = action_id, ar_kind = to_ascii_lowercase (action_kind_debug (act_kind a)), ar_status = ''error'',
                 ar_stdout = None, ar_stderr = None, ar_http_status = None, ar_body = None, ar_error = Some e\<rparr>)"

definition execute_action :: "outside \<Rightarrow> server \<Rightarrow> uuid \<Rightarrow> str \<Rightarrow> request \<Rightarrow> action_response response act" where
  "execute_action ox srv sid action_id req =
     attempt (ret (require_identity req)) (\<lambda>i.
     attempt (ret (require_sessions srv)) (\<lambda>_.
     attempt (or_http (mgr_get ox sid (id_user_id i))) (\<lambda>sess.
     attempt (or_http (mgr_touch ox sid (id_user_id i))) (\<lambda>_.
     do { mf \<leftarrow> mgr_manifest;
          attempt (ret (ok_or (err 500 (''session'' @ [CHR 0x27] @ ''s scenario not found in manifest (was it removed?)''))
                     (mf_scenario mf (s_scenario_id sess)))) (\<lambda>sc.
          attempt (ret (ok_or (err 404 (''unknown action '' @ action_id @ '' for scenario '' @ sc_id sc)) (sc_action sc action_id))) (\<lambda>a.
          do { start \<leftarrow> read_clock ox;
               r \<leftarrow> run_action ox srv i sess a;
               stop \<leftarrow> read_clock ox;
               _ \<leftarrow> metric_update (observe_action_duration (s_scenario_id sess) (act_id a)
                       (if is_ok r then OutcomeOk else OutcomeErr) (elapsed (mono stop) (mono start)));
               _ \<leftarrow> (case r of
                        Inl e \<Rightarrow> metric_update (record_action_error (s_scenario_id sess) (act_id a) (from_message (ox_lower ox) e))
                      | Inr _ \<Rightarrow> ret ());
               _ \<leftarrow> mgr_note ox sid (id_user_id i) (\<lambda>now s.
                       record_event now ''action'' (act_id a @ '' '' @ (if is_ok r then ''ok'' else ''err''))
                         (Some (act_id a)) (Some (is_ok r)) s);
               ret (Inr (action_response_of action_id a r)) })) }))))"

subsection \<open>Running the building blocks\<close>

lemma run_or_http [simp]:
  "run_state (or_http m) w = (map_err map_session_err (fst (run_state m w)), snd (run_state m w))"
  by (simp add: or_http_def split: prod.split)

lemma log_mgr_op [simp]: "w_log (snd (run_state (mgr_op ox f) w)) = w_log w"
  by (simp add: mgr_op_def split: prod.split)

lemma log_mgr [simp]:
  "w_log (snd (run_state (mgr_get ox i u) w)) = w_log w"
  "w_log (snd (run_state (mgr_touch ox i u) w)) = w_log w"
  "w_log (snd (run_state (mgr_create ox u t sc ttl) w)) = w_log w"
  "w_log (snd (run_state (mgr_note ox i u f) w)) = w_log w"
  "w_log (snd (run_state (mgr_end ox i u) w)) = w_log w"
  by (simp_all add: mgr_get_def mgr_touch_def mgr_create_def mgr_note_def mgr_end_def)

lemma log_after_note: "run_state (mgr_note ox i u f) w = (r, w') \<Longrightarrow> w_log w' = w_log w"
  using log_mgr(4) [of ox i u f w] by simp

lemma run_mgr_get:
  "run_state (mgr_get ox i u) w =
     (get (fst (ox_others ox (w_tick w) (w_store w))) i u,
      w\<lparr>w_store := ox_others ox (w_tick w) (w_store w), w_tick := Suc (w_tick w)\<rparr>)"
  by (simp add: mgr_get_def mgr_op_def)

lemma run_mgr_manifest [simp]: "run_state mgr_manifest w = (sm_manifest (fst (w_store w)), w)"
  by (simp add: mgr_manifest_def)

lemma touch_action_manifest [simp]: "sm_manifest (snd (touch_action t1 t2 i u m)) = sm_manifest m"
  by (simp add: touch_action_def Let_def split: sum.split option.split)

text \<open>The other requests never replace the manifest: the manager holds it behind an \<open>Arc\<close>.\<close>

definition fixed_manifest :: "outside \<Rightarrow> bool" where
  "fixed_manifest ox \<longleftrightarrow> (\<forall>n st. sm_manifest (fst (ox_others ox n st)) = sm_manifest (fst st))"

lemma fixed_manifestD: "fixed_manifest ox \<Longrightarrow> sm_manifest (fst (ox_others ox n st)) = sm_manifest (fst st)"
  by (cases st) (simp add: fixed_manifest_def)

lemma manifest_after_touch:
  assumes "fixed_manifest ox"
  shows "sm_manifest (fst (w_store (snd (run_state (mgr_touch ox i u) w)))) = sm_manifest (fst (w_store w))"
proof -
  let ?st = "ox_others ox (w_tick w) (w_store w)"
  let ?t = "touch_action (mono (ox_clock ox (w_tick w) 0)) (mono (ox_clock ox (w_tick w) 1)) i u (fst ?st)"
  obtain r m where t: "?t = (r, m)" by fastforce
  then have "sm_manifest m = sm_manifest (fst ?st)" by (metis snd_conv touch_action_manifest)
  with t assms show ?thesis by (simp add: mgr_touch_def mgr_op_def fixed_manifestD)
qed

lemma run_quota_consume:
  "run_state (quota_consume ox t) w =
     (case try_consume_at (w_quota w) t (utc (ox_clock ox (w_tick w) 0)) of
        (r, q) \<Rightarrow> (r, w\<lparr>w_quota := q, w_tick := Suc (w_tick w)\<rparr>))"
  by (simp add: quota_consume_def split: prod.split)

lemma run_mgr_create:
  "run_state (mgr_create ox u t sc ttl) w =
     (case create (ox_sha256 ox) (ox_persist ox (w_tick w)) (ox_clock ox (w_tick w) 0) (ox_clock ox (w_tick w) 1)
             (ox_uuid ox (w_tick w)) u t sc ttl (ox_others ox (w_tick w) (w_store w)) of
        (r, st) \<Rightarrow> (r, w\<lparr>w_store := st, w_tick := Suc (w_tick w)\<rparr>))"
  by (simp add: mgr_create_def mgr_op_def split: prod.split)

lemma provision_session_answers: "\<exists>c. fst (run_state (provision_session ox srv i mf sc sess) w) = Inr (201, session_view_of c sess)"
  by (auto simp: provision_session_def view_now_def read_clock_def split: prod.split)

subsection \<open>Properties\<close>

text \<open>C8: Only the actions of the manifest run, and only for the owner. If a request to execute an
  action makes any call out of the process, then it carried an identity, the session it names
  was in the manager and belongs to that user, the session's scenario is in the manifest, and
  the action id is one of the scenario's: the action that runs is the one the manifest defines
  under that id. Free-form input never reaches the executor.\<close>

theorem only_whitelisted_actions_run:
  assumes fixed: "fixed_manifest ox"
    and out: "w_log (snd (run_state (execute_action ox srv sid action_id req) w)) \<noteq> w_log w"
  shows "\<exists>i s sc a. rq_identity req = Some i \<and>
           hm_get (sm_sessions (fst (ox_others ox (w_tick w) (w_store w)))) sid = Some s \<and> s_user_id s = id_user_id i \<and>
           mf_scenario (sm_manifest (fst (w_store w))) (s_scenario_id s) = Some sc \<and>
           sc_action sc action_id = Some a \<and> act_id a = action_id \<and> action_id \<in> allowed_action_ids sc"
proof -
  obtain i where i: "rq_identity req = Some i" and sess: "srv_sessions srv"
    using out by (cases "rq_identity req"; cases "srv_sessions srv")
      (auto simp: execute_action_def require_identity_def require_sessions_def)
  let ?st = "ox_others ox (w_tick w) (w_store w)"
  obtain s where s: "get (fst ?st) sid (id_user_id i) = Inr s"
    using out i sess by (cases "get (fst ?st) sid (id_user_id i)")
      (auto simp: execute_action_def require_identity_def require_sessions_def run_mgr_get)
  let ?w1 = "w\<lparr>w_store := ?st, w_tick := Suc (w_tick w)\<rparr>"
  obtain r w2 where touch: "run_state (mgr_touch ox sid (id_user_id i)) ?w1 = (r, w2)" by fastforce
  have log: "w_log w2 = w_log w" using log_mgr(2) [of ox sid "id_user_id i" ?w1] touch by simp
  have mf: "sm_manifest (fst (w_store w2)) = sm_manifest (fst (w_store w))"
    using manifest_after_touch [OF fixed, of sid "id_user_id i" ?w1] touch fixed by (simp add: fixed_manifestD)
  obtain sc where sc: "mf_scenario (sm_manifest (fst (w_store w2))) (s_scenario_id s) = Some sc"
    using out i sess s touch log by (cases r; cases "mf_scenario (sm_manifest (fst (w_store w2))) (s_scenario_id s)")
      (auto simp: execute_action_def require_identity_def require_sessions_def run_mgr_get)
  obtain a where a: "sc_action sc action_id = Some a"
    using out i sess s touch log sc by (cases r; cases "sc_action sc action_id")
      (auto simp: execute_action_def require_identity_def require_sessions_def run_mgr_get)
  then have "a \<in> set (all_actions sc)" "act_id a = action_id"
    unfolding sc_action_def by (auto dest: find_Some_in)
  then show ?thesis
    using i s sc a mf by (auto simp: get_def result_simps allowed_action_ids_def)
qed

definition shell_action :: action where
  "shell_action = demo_action\<lparr>act_kind := Shell, act_shell_cmd := Some ''true''\<rparr>"

definition shell_scenario :: scenario where
  "shell_scenario = demo_scenario\<lparr>sc_actions := [shell_action]\<rparr>"

definition shell_manager :: session_manager where
  "shell_manager = demo_manager\<lparr>sm_manifest := demo_manifest\<lparr>mf_scenarios := [shell_scenario]\<rparr>\<rparr>"

definition demo_request :: request where
  "demo_request = \<lparr>rq_path = [], rq_headers = Map.empty, rq_identity = Some demo_identity\<rparr>"

lemma shell_lookups:
  "mf_scenario (sm_manifest shell_manager) (s_scenario_id demo_session) = Some shell_scenario"
  "sc_action shell_scenario ''a1'' = Some shell_action"
  "hm_get (sm_sessions shell_manager) 7 = Some demo_session"
  by (simp_all add: mf_scenario_def sc_action_def shell_manager_def shell_scenario_def shell_action_def demo_defs
      demo_session_def session_new_def demo_manager_def hm_defs)

theorem only_whitelisted_actions_run_witness:
  "fixed_manifest demo_outside \<and>
   w_log (snd (run_state (execute_action demo_outside demo_server 7 ''a1'' demo_request)
     (demo_world\<lparr>w_store := (shell_manager, Map.empty)\<rparr>))) \<noteq> [] \<and>
   ''a1'' \<in> allowed_action_ids shell_scenario"
proof -
  let ?w = "demo_world\<lparr>w_store := (shell_manager, Map.empty)\<rparr>"
  have fixed: "fixed_manifest demo_outside" by (simp add: fixed_manifest_def demo_outside_def)
  have others: "ox_others demo_outside n st = st" for n st by (simp add: demo_outside_def)
  have start: "w_store ?w = (shell_manager, Map.empty)" "w_log ?w = []" by (simp_all add: demo_world_def)
  have owned: "owned shell_manager 7 ''alice'' = Inr demo_session"
    using shell_lookups(3) by (simp add: result_simps demo_session_def)
  have user: "id_user_id demo_identity = ''alice''" by (simp add: demo_identity_def)
  have fresh: "s_last_action_at demo_session = None" by (simp add: demo_session_def session_new_def)
  have out: "w_log (snd (run_state (execute_action demo_outside demo_server 7 ''a1'' demo_request) ?w)) \<noteq> []"
    using shell_lookups owned user fresh
    by (auto dest!: log_after_note simp: execute_action_def require_identity_def require_sessions_def demo_request_def demo_server_def
        run_mgr_get others start get_def mgr_touch_def mgr_op_def touch_action_def Let_def read_clock_def
        run_action_def shell_action_def map_output_def run_shell_def run_process_def split: prod.split sum.split)
  then show ?thesis
    using only_whitelisted_actions_run [OF fixed, of demo_server 7 "''a1''" demo_request ?w] fixed start others
      shell_lookups demo_session_def by auto
qed

text \<open>The gates of \<open>create_session\<close>, in their order: the session the manager admits, or the refusal.\<close>

definition admits ::
    "outside \<Rightarrow> (str \<Rightarrow> (str, create_session_body) result) \<Rightarrow> server \<Rightarrow> request \<Rightarrow> (str, str) result \<Rightarrow> world \<Rightarrow>
       session \<Rightarrow> bool" where
  "admits ox from_slice srv req body w s \<longleftrightarrow>
     (\<exists>i bytes cb sc st. rq_identity req = Some i \<and> srv_sessions srv \<and> body = Inr bytes \<and>
        from_slice bytes = Inr cb \<and>
        mf_scenario (sm_manifest (fst (w_store w))) (cb_scenario_id cb) = Some sc \<and>
        allowed_in sc (deployment_of (srv_config srv)) \<and>
        is_ok (fst (try_consume_at (w_quota w) (id_tenant_id i) (utc (ox_clock ox (w_tick w) 0)))) \<and>
        create (ox_sha256 ox) (ox_persist ox (Suc (w_tick w))) (ox_clock ox (Suc (w_tick w)) 0)
          (ox_clock ox (Suc (w_tick w)) 1) (ox_uuid ox (Suc (w_tick w))) (id_user_id i) (id_tenant_id i)
          (cb_scenario_id cb) (map_option (\<lambda>t. from_secs (unat t)) (cb_ttl_seconds cb))
          (ox_others ox (Suc (w_tick w)) (w_store w)) = (Inr s, st))"

text \<open>The status code of the first closed gate.\<close>

definition refusal_code ::
    "outside \<Rightarrow> (str \<Rightarrow> (str, create_session_body) result) \<Rightarrow> server \<Rightarrow> request \<Rightarrow> (str, str) result \<Rightarrow> world \<Rightarrow> nat" where
  "refusal_code ox from_slice srv req body w =
     (case (rq_identity req, body) of
        (None, _) \<Rightarrow> 401
      | (Some i, Inl _) \<Rightarrow> if srv_sessions srv then 400 else 503
      | (Some i, Inr bytes) \<Rightarrow>
          if \<not> srv_sessions srv then 503
          else (case from_slice bytes of
            Inl _ \<Rightarrow> 400
          | Inr cb \<Rightarrow>
              (case mf_scenario (sm_manifest (fst (w_store w))) (cb_scenario_id cb) of
                 None \<Rightarrow> 404
               | Some sc \<Rightarrow>
                   if \<not> allowed_in sc (deployment_of (srv_config srv)) then 403
                   else if \<not> is_ok (fst (try_consume_at (w_quota w) (id_tenant_id i) (utc (ox_clock ox (w_tick w) 0)))) then 429
                   else (case fst (create (ox_sha256 ox) (ox_persist ox (Suc (w_tick w))) (ox_clock ox (Suc (w_tick w)) 0)
                                (ox_clock ox (Suc (w_tick w)) 1) (ox_uuid ox (Suc (w_tick w))) (id_user_id i) (id_tenant_id i)
                                (cb_scenario_id cb) (map_option (\<lambda>t. from_secs (unat t)) (cb_ttl_seconds cb))
                                (ox_others ox (Suc (w_tick w)) (w_store w))) of
                           Inl (UserLimit _) \<Rightarrow> 409
                         | Inl (UnknownScenario _) \<Rightarrow> 404
                         | Inl Disabled \<Rightarrow> 403
                         | _ \<Rightarrow> 400))))"

lemma create_refusal_code:
  "create sha256 P c1 c2 k u t sc ttl st = (Inl e, st') \<Longrightarrow>
     \<exists>msg. map_session_err e =
       (case e of UserLimit _ \<Rightarrow> 409 | UnknownScenario _ \<Rightarrow> 404 | Disabled \<Rightarrow> 403 | _ \<Rightarrow> 400, msg)"
  by (cases st) (auto simp: create_def clamp_ttl_def map_session_err_def err_def Let_def split: if_splits option.splits sum.splits)

lemma create_session_cases:
  "(\<exists>s c. admits ox from_slice srv req body w s \<and>
      fst (run_state (create_session ox from_slice srv req body) w) = Inr (201, session_view_of c s)) \<or>
   (\<nexists>s. admits ox from_slice srv req body w s) \<and>
    (\<exists>msg. fst (run_state (create_session ox from_slice srv req body) w) =
      Inl (refusal_code ox from_slice srv req body w, msg)) \<and>
    w_log (snd (run_state (create_session ox from_slice srv req body) w)) = w_log w"
  (is "?yes \<or> ?no")
proof (cases "rq_identity req = None \<or> \<not> srv_sessions srv \<or> \<not> is_ok body \<or> \<not> is_ok (from_slice (unwrap_or body []))")
  case True
  then show ?thesis
    by (cases "rq_identity req"; cases body; cases "from_slice (unwrap_or body [])")
      (auto simp: create_session_def require_identity_def require_sessions_def admits_def refusal_code_def err_def)
next
  case False
  then obtain i bytes cb where gate1: "rq_identity req = Some i" "srv_sessions srv" "body = Inr bytes" "from_slice bytes = Inr cb"
    by (cases body; cases "from_slice (unwrap_or body [])") auto
  show ?thesis
  proof (cases "\<exists>sc. mf_scenario (sm_manifest (fst (w_store w))) (cb_scenario_id cb) = Some sc \<and>
      allowed_in sc (deployment_of (srv_config srv))")
    case False
    then show ?thesis
      using gate1 by (cases "mf_scenario (sm_manifest (fst (w_store w))) (cb_scenario_id cb)")
        (auto simp: create_session_def require_identity_def require_sessions_def admits_def refusal_code_def err_def)
  next
    case True
    then obtain sc where gate2: "mf_scenario (sm_manifest (fst (w_store w))) (cb_scenario_id cb) = Some sc"
        "allowed_in sc (deployment_of (srv_config srv))" by blast
    obtain q qs where q: "try_consume_at (w_quota w) (id_tenant_id i) (utc (ox_clock ox (w_tick w) 0)) = (q, qs)" by fastforce
    obtain r st where r: "create (ox_sha256 ox) (ox_persist ox (Suc (w_tick w))) (ox_clock ox (Suc (w_tick w)) 0)
          (ox_clock ox (Suc (w_tick w)) 1) (ox_uuid ox (Suc (w_tick w))) (id_user_id i) (id_tenant_id i)
          (cb_scenario_id cb) (map_option (\<lambda>t. from_secs (unat t)) (cb_ttl_seconds cb))
          (ox_others ox (Suc (w_tick w)) (w_store w)) = (r, st)" by (metis surj_pair)
    show ?thesis
      using gate1 gate2 q r provision_session_answers create_refusal_code [OF r [THEN trans]]
      by (cases q; cases r)
        (auto simp: create_session_def require_identity_def require_sessions_def admits_def refusal_code_def err_def Let_def
          run_quota_consume run_mgr_create)
  qed
qed

text \<open>C9: A session is created exactly when every gate is open, and nothing leaves the process before.
  When the request has an identity, the playground is initialised, the body is read and parsed, the
  scenario exists and is allowed on this deployment, the tenant's daily quota grants the slot and the
  manager admits the session, \<open>create_session\<close> answers 201 with the view of that session. In every other
  case it answers an error with the status code of the first closed gate (401, 503, 400, 404, 403, 429,
  and what the manager refuses with) and makes no call at all.\<close>

theorem create_session_gates:
  "if \<exists>s. admits ox from_slice srv req body w s
   then \<exists>s c. admits ox from_slice srv req body w s \<and>
          fst (run_state (create_session ox from_slice srv req body) w) = Inr (201, session_view_of c s)
   else (\<exists>msg. fst (run_state (create_session ox from_slice srv req body) w) =
                  Inl (refusal_code ox from_slice srv req body w, msg)) \<and>
        w_log (snd (run_state (create_session ox from_slice srv req body) w)) = w_log w"
  using create_session_cases [of ox from_slice srv req body w] by (auto simp del: split_paired_Ex)

text \<open>C35: A reset without an API client leaves the session stuck. When the client is not configured,
  \<open>reset_session\<close> on a session of the caller has already set the status to Resetting and logged
  the start when it answers 503; nothing is sent and no later step sets the status back.\<close>

theorem reset_without_client_sticks:
  assumes "srv_api srv = None" and "srv_sessions srv" and "rq_identity req = Some i"
    and alone: "\<And>n st. ox_others ox n st = st"
    and s: "hm_get (sm_sessions (fst (w_store w))) sid = Some s" "s_user_id s = id_user_id i"
    and sc: "mf_scenario (sm_manifest (fst (w_store w))) (s_scenario_id s) = Some sc"
    and inv: "manager_inv sha256 (fst (w_store w))" and digest: "\<And>x. length (sha256 x) = 32"
  shows "(\<exists>msg. fst (run_state (reset_session ox srv sid req) w) = Inl (503, msg)) \<and>
         map_option s_status (hm_get (sm_sessions (fst (w_store (snd (run_state (reset_session ox srv sid req) w))))) sid) =
           Some Resetting \<and>
         w_log (snd (run_state (reset_session ox srv sid req) w)) = w_log w"
proof -
  have safe: "is_safe_identifier (s_shuttle_name s)" "is_safe_identifier (s_connection_name s)"
    "is_safe_identifier (s_namespace s)"
    using session_names_safe [OF manager_invD(3) [OF inv s(1)] digest] by simp_all
  obtain m d where st: "w_store w = (m, d)" by fastforce
  then have ok: "hm_ok (sm_sessions m)" using manager_invD(1) [OF inv] by simp
  from st have own: "owned m sid (id_user_id i) = Inr s" using s by (simp add: result_simps)
  have "require_api_client srv = Inl (503, ''playground api callback client is not configured (set PLAYGROUND_API_BASE_URL + PLAYGROUND_SERVICE_TOKEN)'')"
    using assms(1) by (simp add: require_api_client_def err_def)
  then show ?thesis
    using assms(2,3) own ok safe sc st
    by (simp add: reset_session_def require_identity_def require_sessions_def run_mgr_get alone get_def
        mgr_note_def mgr_op_def update_def Let_def)
qed

theorem reset_without_client_sticks_witness:
  "manager_inv demo_sha demo_manager \<and>
   map_option s_status (hm_get (sm_sessions (fst (w_store (snd (run_state
     (reset_session demo_outside (demo_server\<lparr>srv_api := None\<rparr>) 7 demo_request) demo_world))))) 7) = Some Resetting"
proof -
  have world: "fst (w_store demo_world) = demo_manager" by (simp add: demo_world_def)
  have s: "hm_get (sm_sessions (fst (w_store demo_world))) 7 = Some demo_session" using demo_get world by simp
  have sc: "mf_scenario (sm_manifest (fst (w_store demo_world))) (s_scenario_id demo_session) = Some demo_scenario"
    by (simp add: world demo_manager_def manager_new_def demo_session_def session_new_def mf_scenario_def demo_defs)
  have user: "s_user_id demo_session = id_user_id demo_identity" by (simp add: demo_session_def demo_identity_def)
  have inv: "manager_inv demo_sha (fst (w_store demo_world))" using demo_inv world by simp
  have "srv_api (demo_server\<lparr>srv_api := None\<rparr>) = None" "srv_sessions (demo_server\<lparr>srv_api := None\<rparr>)"
    "rq_identity demo_request = Some demo_identity"
    by (simp_all add: demo_server_def demo_request_def)
  from reset_without_client_sticks [OF this _ s user sc inv, of demo_outside] demo_inv
  show ?thesis by (simp add: demo_outside_def demo_sha_def)
qed

end
