(* ===== verification/Frames.thy ===== *)
theory Frames
  imports Handlers
begin

text \<open>
  How a computation may move the world. \<open>within R m\<close> says that every run of \<open>m\<close> leads from a world to
  one related to it by \<open>R\<close>. The locale \<open>world_order\<close> is what such a relation has to promise: it is
  transitive, and it allows every move that leaves the session store and the quota alone and does not turn
  back the counter of steps. Everything the handlers do outside the session manager, from one statement on a
  database to a whole action or teardown, is then within \<open>R\<close>, once and for all relations. The locale
  \<open>manager_order\<close> adds the uses of the session manager, for the users in \<open>U\<close>, and with them the handlers
  that change sessions; \<open>charging_order\<close> adds the quota, and with it the creation of a session.

  The instances: \<open>idle\<close>, the session store is not touched; \<open>uncharged\<close>, the quota is not touched; and in
  \<open>Server_Machine\<close> the run of the manager's state machine.
\<close>

definition within :: "(world \<Rightarrow> world \<Rightarrow> bool) \<Rightarrow> 'a act \<Rightarrow> bool" where
  "within R m \<longleftrightarrow> (\<forall>w. R w (snd (run_state m w)))"

named_theorems within_intro \<open>how a computation moves the world, by its structure\<close>

lemma withinD: "within R m \<Longrightarrow> R w (snd (run_state m w))"
  by (simp add: within_def)

lemma within_cases [within_intro]:
  "(b \<Longrightarrow> within R m) \<Longrightarrow> (\<not> b \<Longrightarrow> within R n) \<Longrightarrow> within R (if b then m else n)"
  "(x = None \<Longrightarrow> within R m) \<Longrightarrow> (\<And>y. x = Some y \<Longrightarrow> within R (f y)) \<Longrightarrow> within R (case x of None \<Rightarrow> m | Some y \<Rightarrow> f y)"
  "(\<And>e. r = Inl e \<Longrightarrow> within R (g e)) \<Longrightarrow> (\<And>y. r = Inr y \<Longrightarrow> within R (h y)) \<Longrightarrow>
     within R (case r of Inl e \<Rightarrow> g e | Inr y \<Rightarrow> h y)"
  "(\<And>a b. p = (a, b) \<Longrightarrow> within R (k a b)) \<Longrightarrow> within R (case p of (a, b) \<Rightarrow> k a b)"
  "within R noop \<Longrightarrow> within R tcp \<Longrightarrow> within R (case d of Noop \<Rightarrow> noop | Tcp \<Rightarrow> tcp)"
  by (auto split: option.split sum.split prod.split dispatcher.split)

locale world_order =
  fixes R :: "world \<Rightarrow> world \<Rightarrow> bool"
  assumes trans: "R u v \<Longrightarrow> R v w \<Longrightarrow> R u w"
    and aside: "w_store v = w_store u \<Longrightarrow> w_quota v = w_quota u \<Longrightarrow> w_tick u \<le> w_tick v \<Longrightarrow> R u v"
begin

lemma asideI:
  "(\<And>w. w_store (snd (run_state m w)) = w_store w \<and> w_quota (snd (run_state m w)) = w_quota w \<and>
        w_tick w \<le> w_tick (snd (run_state m w))) \<Longrightarrow> within R m"
  using aside by (simp add: within_def)

lemma basic [within_intro]:
  "within R (ret x)" "within R (gets f)" "within R (perform e g)" "within R (metric_update u)" "within R (read_clock ox)"
  "within R (State_Monad.update (\<lambda>w. w\<lparr>w_pools := p w\<rparr>))"
  by (rule asideI; simp add: read_clock_def State_Monad.update_def)+

lemma seq [within_intro]:
  assumes "within R m" and "\<And>x. within R (f x)"
  shows "within R (State_Monad.bind m f)"
  unfolding within_def
proof
  fix w
  obtain x v where run: "run_state m w = (x, v)" by fastforce
  then have "R w v" using withinD [OF assms(1), of w] by simp
  then show "R w (snd (run_state (State_Monad.bind m f) w))"
    using trans withinD [OF assms(2) [of x], of v] run by simp
qed

lemma question [within_intro]: "within R m \<Longrightarrow> (\<And>x. within R (f x)) \<Longrightarrow> within R (attempt m f)"
  unfolding attempt_def by (intro within_intro)

lemma wrappers [within_intro]:
  "within R m \<Longrightarrow> within R (discard m)"
  "within R d \<Longrightarrow> within R (unit_result d)"
  "within R d \<Longrightarrow> within R (guarded safe what name dp d)"
  "within R noop_method"
  "within R s \<Longrightarrow> within R (or_http s)"
  "within R a \<Longrightarrow> within R (map_output a)"
  "within R t \<Longrightarrow> within R fb \<Longrightarrow> within R (or_unavailable t fb)"
  "within R default_method"
  unfolding discard_def unit_result_def guarded_def default_noop noop_method_def or_http_def map_output_def or_unavailable_def
  by (cases dp) (auto intro!: within_intro split: sum.split dispatch_error.split)

lemma each [within_intro]: "(\<And>x. within R (f x)) \<Longrightarrow> within R (for_each f xs)"
  by (induction xs) (auto intro!: within_intro)

text \<open>Calls to the API and to processes.\<close>

lemma outward [within_intro]:
  "within R (api_request ox c method path body i)" "within R (run_process ox prog args)" "within R (run_shell ox cmd s)"
  unfolding api_request_def run_process_def run_shell_def by (auto intro!: within_intro split: option.split)

lemma api_sql [within_intro]: "within R (exec_sql ox c i stmt)"
  unfolding exec_sql_def Let_def by (auto intro!: within_intro split: option.split dispatch.split)

text \<open>The databases.\<close>

lemma connections [within_intro]:
  "within R (pg_pool ox)" "within R (pg_do ox e)" "within R (mysql_pool ox)" "within R (my_do ox e)"
  "within R (clickhouse_pool ox)" "within R (redis_pool ox)" "within R (redis_conn ox)" "within R (redis_cmd ox ws)"
  unfolding pg_pool_def pg_do_def mysql_pool_def my_do_def clickhouse_pool_def redis_pool_def redis_conn_def redis_cmd_def
  by (auto intro!: within_intro split: option.split sum.split prod.split)

lemma posting [within_intro]: "within R (clickhouse_posts ox cfg db body stmts)"
  by (induction stmts arbitrary: body) (auto intro!: within_intro simp: Let_def)

lemma redis_loops [within_intro]:
  "within R (redis_scan ox pattern cursor pages)" "within R (redis_run ox n acc cmds)"
  by (induction pages arbitrary: cursor) (auto intro!: within_intro,
      induction cmds arbitrary: n acc, auto intro!: within_intro simp: Let_def)

lemma inner [within_intro]:
  "within R (exec_postgres_inner ox ns sql)" "within R (exec_mysql_inner ox ns sql)"
  "within R (exec_clickhouse_inner ox ns sql)" "within R (exec_redis_inner ox sql)"
  unfolding exec_postgres_inner_def exec_mysql_inner_def exec_clickhouse_inner_def exec_redis_inner_def
  by (auto intro!: within_intro simp: Let_def)

lemma dispatching [within_intro]:
  "within R (exec_postgres ox d sql)" "within R (exec_postgres_in_schema ox d ns sql)"
  "within R (exec_mysql ox d sql)" "within R (exec_mysql_in_database ox d ns sql)"
  "within R (exec_clickhouse ox d sql)" "within R (exec_clickhouse_in_database ox d ns sql)"
  "within R (exec_redis ox d sql)" "within R (exec_redis_in_namespace ox d ns sql)"
  unfolding exec_postgres_def exec_postgres_in_schema_def exec_mysql_def exec_mysql_in_database_def
    exec_clickhouse_def exec_clickhouse_in_database_def exec_redis_def exec_redis_in_namespace_def
  by (intro within_intro)+

lemma resources [within_intro]:
  "within R (provision_postgres_schema ox d ns)" "within R (provision_mysql_database ox d ns)"
  "within R (provision_clickhouse_database ox d ns)"
  "within R (drop_postgres_publication ox d ns)" "within R (drop_postgres_replication_slot ox d ns)"
  "within R (teardown_postgres_schema ox d ns)" "within R (teardown_mysql_database ox d ns)"
  "within R (teardown_clickhouse_database ox d ns)" "within R (teardown_redis_namespace ox d ns)"
  unfolding provision_postgres_schema_def provision_mysql_database_def provision_clickhouse_database_def
    drop_postgres_publication_def drop_postgres_replication_slot_def teardown_postgres_schema_def
    teardown_mysql_database_def teardown_clickhouse_database_def teardown_redis_namespace_def
  by (intro within_intro)+

text \<open>Source SQL, actions and teardowns.\<close>

lemma sources [within_intro]:
  "within R (exec_source_sql ox src sql tcp)" "within R (dispatch_source_sql ox srv src ns sql)"
  "within R (provision_session_resources ox srv src ns)"
  unfolding exec_source_sql_def dispatch_source_sql_def shell_source_sql_def provision_session_resources_def Let_def
  by (intro within_intro)+

lemma producing [within_intro]: "within R (kafka_posts ox topic url ct tmpl n k body)"
proof (induction ox topic url ct tmpl n k body rule: kafka_posts.induct)
  case (1 ox topic url ct tmpl n k body)
  then show ?case by (subst kafka_posts.simps) (auto intro!: within_intro simp: Let_def)
qed

lemma executors [within_intro]:
  "within R (produce_kafka ox file_name n s)" "within R (upload_file ox file_name s)"
  "within R (run_http ox srv i s a)" "within R (mgr_manifest)"
  unfolding produce_kafka_def upload_file_def run_http_def mgr_manifest_def Let_def by (intro within_intro)+

lemma sql_actions [within_intro]: "within R (run_sql ox srv i s a)"
  unfolding run_sql_def Let_def
  by (auto intro!: within_intro split: action_target.split option.split)

lemma all_actions [within_intro]: "within R (run_action ox srv i s a)"
  unfolding run_action_def Let_def by (cases "act_kind a") (auto intro!: within_intro)

lemma teardown [within_intro]: "within R (teardown_session ox srv i sh conn ns)"
  unfolding teardown_session_def teardown_sources_def purge_s3_namespace_def by (intro within_intro)

lemma orphans [within_intro]: "within R (sweep_listed ox srv api sh ns)"
  unfolding sweep_listed_def by (intro within_intro)

lemma statements [within_intro]: "within R (run_statements ox api i rel k stmts)"
  by (induction stmts arbitrary: k) (auto intro!: within_intro)

lemma views [within_intro]: "within R (view_now ox s)" "within R (get_manifest srv)"
  unfolding view_now_def get_manifest_def Let_def by (intro within_intro)+

lemma resets [within_intro]:
  "within R (reset_source ox srv mf sc s)" "within R (reset_shuttle ox srv api i mf sc s)"
  unfolding reset_source_def reset_shuttle_def by (intro within_intro)+

end

subsection \<open>The handlers\<close>

text \<open>The closures of the handlers only log and set a status other than \<open>Ended\<close>.\<close>

lemma notes_record:
  "notes_only (\<lambda>s. (Returns (), record_event now kind (msg s) a ok s))"
  "x \<noteq> Ended \<Longrightarrow> notes_only (\<lambda>s. (Returns (), record_event now kind (msg s) a ok (s\<lparr>s_status := x\<rparr>)))"
  "x \<noteq> Ended \<Longrightarrow> notes_only (\<lambda>s. (Returns (), (record_event now kind (msg s) a ok s)\<lparr>s_status := x\<rparr>))"
  by (simp_all add: notes_only_def record_event_def MAX_EVENTS_def Let_def)

lemma attempt_ret: "attempt (ret r) f = (case r of Inl e \<Rightarrow> ret (Inl e) | Inr x \<Rightarrow> f x)"
  by (simp add: attempt_def)

lemma require_identity_Inr [simp]: "require_identity req = Inr i \<longleftrightarrow> rq_identity req = Some i"
  by (simp add: require_identity_def result_simps)

lemma outcome_case:
  "(\<And>y. x = Returns y \<Longrightarrow> within R (f y)) \<Longrightarrow> within R p \<Longrightarrow> within R (case x of Returns y \<Rightarrow> f y | Panics \<Rightarrow> p)"
  by (simp split: outcome.split)

locale manager_order = world_order R for R +
  fixes ox :: outside and U :: "str \<Rightarrow> bool" and may_extend :: bool
  assumes reading [within_intro]: "within R (mgr_get ox i u)" "within R (mgr_user_session ox u)"
      "within R (mgr_op ox (\<lambda>n st. (live_shuttles (fst st), st)))" "within R (mgr_op ox (\<lambda>n st. (live_namespaces (fst st), st)))"
    and creating [within_intro]: "U u \<Longrightarrow> within R (mgr_create ox u t sc ttl)"
    and noting [within_intro]: "U u \<Longrightarrow> (\<And>now. notes_only (\<lambda>s. (Returns (), f now s))) \<Longrightarrow> within R (mgr_note ox i u f)"
    and extending [within_intro]:
      "U u \<Longrightarrow> may_extend \<Longrightarrow> within R (mgr_update ox i u (\<lambda>c1 c2. extend_closure c1 c2 extra))"
    and ending [within_intro]: "U u \<Longrightarrow> within R (mgr_end ox i u)"
    and touching [within_intro]: "U u \<Longrightarrow> within R (mgr_touch ox i u)"
    and sweeping [within_intro]: "(\<And>u. U u) \<Longrightarrow> within R (mgr_sweep ox)"
begin

lemma logged [within_intro]: "U u \<Longrightarrow> within R (note_event ox s u kind msg ok)"
  unfolding note_event_def by (intro within_intro notes_record)

lemma provisioning [within_intro]:
  "U u \<Longrightarrow> within R (apply_init_sql ox srv src s u rel)"
  "U u \<Longrightarrow> within R (provision_source ox srv sc src s u)"
  "U (id_user_id i) \<Longrightarrow> within R (provision_shuttle ox srv i mf sc s rel)"
  unfolding apply_init_sql_def provision_source_def provision_shuttle_def Let_def
  by (intro within_intro; assumption)+

lemma provisioned [within_intro]: "U (id_user_id i) \<Longrightarrow> within R (provision_session ox srv i mf sc s)"
  unfolding provision_session_def session_created_def [abs_def] by (intro within_intro notes_record; simp)

lemma handled [within_intro]:
  assumes "\<And>i. rq_identity req = Some i \<Longrightarrow> U (id_user_id i)"
  shows "within R (get_session ox srv sid req)" and "within R (list_my_sessions ox srv req)"
    and "within R (end_session ox srv sid req)" and "within R (reset_session ox srv sid req)"
    and "within R (execute_action ox srv sid aid req)"
    and "may_extend \<Longrightarrow> within R (extend_session ox srv sid seconds req)"
  unfolding get_session_def list_my_sessions_def end_session_def reset_session_def execute_action_def
    extend_session_def Let_def attempt_ret
  using assms
  by (intro within_intro outcome_case notes_record; simp)+

lemma background [within_intro]:
  "(\<And>u. U u) \<Longrightarrow> within R (reaper_tick ox srv)" "within R (sweep_api_orphans ox srv)"
  unfolding reaper_tick_def sweep_api_orphans_def by (intro within_intro; assumption)+

end

locale charging_order = manager_order R ox U may_extend for R ox U may_extend +
  assumes charging [within_intro]: "within R (quota_consume ox t)"
begin

lemma created [within_intro]:
  assumes "\<And>i. rq_identity req = Some i \<Longrightarrow> U (id_user_id i)"
  shows "within R (create_session ox from_slice srv req body)"
  unfolding create_session_def Let_def attempt_ret
  using assms by (intro within_intro; simp)

end

subsection \<open>Computations that leave the session store or the quota alone\<close>

definition idle :: "world \<Rightarrow> world \<Rightarrow> bool" where
  "idle u v \<longleftrightarrow> w_store v = w_store u"

interpretation idle: world_order idle
  by unfold_locales (simp_all add: idle_def)

lemma idle_teardown: "w_store (snd (run_state (teardown_session ox srv i sh conn ns) w)) = w_store w"
  using withinD [OF idle.teardown] by (simp add: idle_def)

lemma idle_teardowns:
  "w_store (snd (run_state (for_each (\<lambda>s. teardown_session ox srv (i s) (sh s) (conn s) (ns s)) xs) w)) = w_store w"
  using withinD [OF idle.each [OF idle.teardown]] by (simp add: idle_def)

definition uncharged :: "world \<Rightarrow> world \<Rightarrow> bool" where
  "uncharged u v \<longleftrightarrow> w_quota v = w_quota u"

lemma uncharged_op: "within uncharged (mgr_op ox f)"
  by (simp add: within_def uncharged_def mgr_op_def split: prod.split)

interpretation uncharged: world_order uncharged
  by unfold_locales (simp_all add: uncharged_def)

lemma uncharged_uses:
  "within uncharged (mgr_get ox i u)" "within uncharged (mgr_create ox u t sc ttl)" "within uncharged (mgr_note ox i u f)"
  "within uncharged (mgr_update ox i u g)" "within uncharged (mgr_end ox i u)" "within uncharged (mgr_touch ox i u)"
  "within uncharged (mgr_sweep ox)"
  by (simp_all add: mgr_get_def mgr_create_def mgr_note_def mgr_update_def mgr_end_def mgr_touch_def mgr_sweep_def uncharged_op)

interpretation uncharged: manager_order uncharged ox "\<lambda>_. True" True for ox
  by unfold_locales
    (auto simp: mgr_user_session_def uncharged_uses uncharged_op intro!: within_intro)

end
