(* ===== verification/Session_End.thy ===== *)
theory Session_End
  imports Frames
begin

text \<open>
  How sessions end, from the request or the timer to the last call: the handler \<open>end_session\<close> and a
  tick of the reaper, each composed of an operation of the manager and teardowns. A teardown never
  touches the session store (\<open>idle\<close>), so what the manager did is still so when the last call is made;
  and the requests to the API are exactly the deletes of the sessions that left the store.
\<close>

subsection \<open>The requests of several teardowns\<close>

definition deletes_of :: "api_client \<Rightarrow> identity \<Rightarrow> session \<Rightarrow> event list" where
  "deletes_of api i s = teardown_deletes api i (s_shuttle_name s) (s_connection_name s) (s_namespace s)"

lemma trace_for_each:
  assumes "\<And>x w. x \<in> set xs \<Longrightarrow> trace P (f x) w (g x)"
  shows "trace P (for_each f xs) w (concat (map g xs))"
  using assms
proof (induction xs arbitrary: w)
  case Nil
  then show ?case by (simp add: trace_def)
next
  case (Cons x xs)
  then show ?case unfolding for_each.simps list.map concat.simps by (intro trace_bind) simp_all
qed

lemma trace_teardown_ended:
  assumes "srv_api srv = Some api" and "ox_method_error ox ''DELETE'' = None"
    and "session_ok sha256 k s" and "\<And>x. length (sha256 x) = 32"
  shows "trace api_event (teardown_session ox srv i (s_shuttle_name s) (s_connection_name s) (s_namespace s)) w (deletes_of api i s)"
  unfolding deletes_of_def by (intro trace_teardown assms session_names_safe [OF assms(3,4)])

lemma deletes_of_ended [simp]: "deletes_of api i (s\<lparr>s_status := Ended\<rparr>) = deletes_of api i s"
  by (simp add: deletes_of_def)

lemma run_mgr_sweep:
  "run_state (mgr_sweep ox) w =
     (case sweep_expired (ox_persist ox (w_tick w)) (\<lambda>i. ox_clock ox (w_tick w) (unat i)) (ox_others ox (w_tick w) (w_store w)) of
        (gone, st) \<Rightarrow> (gone, w\<lparr>w_store := st, w_tick := Suc (w_tick w)\<rparr>))"
  by (simp add: mgr_sweep_def mgr_op_def split: prod.split)

lemma run_mgr_end:
  "run_state (mgr_end ox i u) w =
     (case end_session_of (ox_persist ox (w_tick w)) i u (ox_others ox (w_tick w) (w_store w)) of
        (r, st) \<Rightarrow> (r, w\<lparr>w_store := st, w_tick := Suc (w_tick w)\<rparr>))"
  by (simp add: mgr_end_def mgr_op_def split: prod.split)

lemma run_reaper_tick:
  assumes "srv_sessions srv"
    and "sweep_expired (ox_persist ox (w_tick w)) (\<lambda>i. ox_clock ox (w_tick w) (unat i)) (ox_others ox (w_tick w) (w_store w)) = (gone, st)"
  shows "run_state (reaper_tick ox srv) w =
           run_state (for_each (\<lambda>s. teardown_session ox srv (reaper_identity s)
             (s_shuttle_name s) (s_connection_name s) (s_namespace s)) gone) (w\<lparr>w_store := st, w_tick := Suc (w_tick w)\<rparr>)"
  using assms by (simp add: reaper_tick_def run_mgr_sweep)

subsection \<open>A tick of the reaper\<close>

lemma reaper_tick_clears:
  assumes api: "srv_api srv = Some api" and on: "srv_sessions srv" and delete: "ox_method_error ox ''DELETE'' = None"
    and st: "ox_others ox (w_tick w) (w_store w) = (m, d)" and inv: "manager_inv sha256 m"
    and digest: "\<And>x. length (sha256 x) = 32"
  shows "\<exists>gone es. distinct gone \<and>
           set gone = {i. \<exists>s. hm_get (sm_sessions m) i = Some s \<and> is_expired (ox_clock ox (w_tick w) (unat i)) s} \<and>
           (\<forall>i. hm_get (sm_sessions (fst (w_store (snd (run_state (reaper_tick ox srv) w))))) i =
                  (if i \<in> set gone then None else hm_get (sm_sessions m) i)) \<and>
           w_log (snd (run_state (reaper_tick ox srv) w)) = w_log w @ es \<and>
           filter api_event es =
             concat (map (\<lambda>i. (let s = the (hm_get (sm_sessions m) i) in deletes_of api (reaper_identity s) s)) gone)"
proof -
  let ?clk = "\<lambda>i. ox_clock ox (w_tick w) (unat i)"
  let ?P = "ox_persist ox (w_tick w)"
  let ?gone = "expired_ids ?clk m"
  let ?s = "\<lambda>i. the (hm_get (sm_sessions m) i)"
  let ?td = "\<lambda>s. teardown_session ox srv (reaper_identity s) (s_shuttle_name s) (s_connection_name s) (s_namespace s)"
  obtain st' where sweep: "sweep_expired ?P ?clk (m, d) = (map (\<lambda>i. (?s i)\<lparr>s_status := Ended\<rparr>) ?gone, st')"
    using sweep_expired_gone [OF inv, of ?P ?clk d] by (metis prod.collapse)
  let ?w = "w\<lparr>w_store := st', w_tick := Suc (w_tick w)\<rparr>"
  let ?run = "for_each ?td (map (\<lambda>i. (?s i)\<lparr>s_status := Ended\<rparr>) ?gone)"
  have run: "run_state (reaper_tick ox srv) w = run_state ?run ?w"
    by (rule run_reaper_tick [OF on]) (use sweep st in simp)
  note exact = expired_ids_exact [OF manager_invD(1) [OF inv], where clk = ?clk]
  have ended: "trace api_event (?td (s\<lparr>s_status := Ended\<rparr>)) v (deletes_of api (reaper_identity s) s)"
    if "s = ?s i" "i \<in> set ?gone" for i s v
    using that exact(2) [of i] manager_invD(3) [OF inv, of i s]
      trace_teardown_ended [OF api delete _ digest, where k = i and s = s and i = "reaper_identity s" and w = v]
    by (auto simp: reaper_identity_def)
  have "trace api_event ?run ?w
      (concat (map (\<lambda>s. deletes_of api (reaper_identity s) s) (map (\<lambda>i. (?s i)\<lparr>s_status := Ended\<rparr>) ?gone)))"
    by (rule trace_for_each) (use ended in \<open>auto simp: reaper_identity_def\<close>)
  moreover have "map (\<lambda>s. deletes_of api (reaper_identity s) s) (map (\<lambda>i. (?s i)\<lparr>s_status := Ended\<rparr>) ?gone) =
      map (\<lambda>i. (let s = ?s i in deletes_of api (reaper_identity s) s)) ?gone"
    by (simp add: reaper_identity_def Let_def)
  ultimately have "trace api_event ?run ?w
      (concat (map (\<lambda>i. (let s = ?s i in deletes_of api (reaper_identity s) s)) ?gone))"
    by (simp only:)
  then obtain es where es: "w_log (snd (run_state ?run ?w)) = w_log w @ es"
      "filter api_event es = concat (map (\<lambda>i. (let s = ?s i in deletes_of api (reaper_identity s) s)) ?gone)"
    by (auto simp: trace_def)
  have "w_store (snd (run_state ?run ?w)) = st'"
    by (subst idle_teardowns) simp
  then have "hm_get (sm_sessions (fst (w_store (snd (run_state ?run ?w))))) i =
      (if i \<in> set ?gone then None else hm_get (sm_sessions m) i)" for i
    using sweep_expired_laws(2) [OF inv, of ?P ?clk d i] sweep exact(2) [of i]
    by (cases "hm_get (sm_sessions m) i") auto
  then show ?thesis
    unfolding run using es exact by (intro exI [of _ ?gone] exI [of _ es]) auto
qed

subsection \<open>Properties\<close>

text \<open>C11: Every expired session is cleaned up at the next tick of the reaper. Whatever the API and the
  databases answer, after one tick exactly the sessions that had not expired when they were examined
  are still in the manager, and for each of the others, once, the tick has sent the deletes of its
  shuttle, its namespace and its connection to the API, on behalf of its user. No other request went to
  the API.\<close>

theorem reaper_clears_expired:
  assumes api: "srv_api srv = Some api" and on: "srv_sessions srv" and delete: "ox_method_error ox ''DELETE'' = None"
    and st: "ox_others ox (w_tick w) (w_store w) = (m, d)" and inv: "manager_inv sha256 m"
    and digest: "\<And>x. length (sha256 x) = 32"
  shows "\<exists>gone es. distinct gone \<and>
           set gone = {i. \<exists>s. hm_get (sm_sessions m) i = Some s \<and> is_expired (ox_clock ox (w_tick w) (unat i)) s} \<and>
           (\<forall>i. hm_get (sm_sessions (fst (w_store (snd (run_state (reaper_tick ox srv) w))))) i =
                  (if i \<in> set gone then None else hm_get (sm_sessions m) i)) \<and>
           w_log (snd (run_state (reaper_tick ox srv) w)) = w_log w @ es \<and>
           filter api_event es =
             concat (map (\<lambda>i. (let s = the (hm_get (sm_sessions m) i) in deletes_of api (reaper_identity s) s)) gone)"
  by (rule reaper_tick_clears [OF assms])

definition late_outside :: outside where
  "late_outside = demo_outside\<lparr>ox_clock := (\<lambda>_ _. \<lparr>mono = 10 ^ 15, utc = 10 ^ 15\<rparr>)\<rparr>"

theorem reaper_clears_expired_witness:
  "hm_get (sm_sessions demo_manager) 7 = Some demo_session \<and>
   hm_get (sm_sessions (fst (w_store (snd (run_state (reaper_tick late_outside demo_server) demo_world))))) 7 = None \<and>
   EHttp (api_call demo_client ''DELETE'' (''/api/v1/shuttles/'' @ s_shuttle_name demo_session) None (reaper_identity demo_session))
     \<in> set (w_log (snd (run_state (reaper_tick late_outside demo_server) demo_world)))"
proof -
  have "is_expired \<lparr>mono = 10 ^ 15, utc = 10 ^ 15\<rparr> demo_session"
    by (simp add: is_expired_def demo_session_def elapsed_def demo_clock_def ttl_defs)
  then have dead: "is_expired (ox_clock late_outside (w_tick demo_world) (unat i)) demo_session" for i :: uuid
    by (simp add: late_outside_def)
  have srv: "srv_api demo_server = Some demo_client" "srv_sessions demo_server" "ox_method_error late_outside ''DELETE'' = None"
    "ox_others late_outside (w_tick demo_world) (w_store demo_world) = (demo_manager, Map.empty)" "length (demo_sha x) = 32" for x
    by (simp_all add: demo_server_def late_outside_def demo_outside_def demo_world_def demo_sha_def)
  obtain gone es where gone: "set gone = {i. \<exists>s. hm_get (sm_sessions demo_manager) i = Some s \<and>
          is_expired (ox_clock late_outside (w_tick demo_world) (unat i)) s}"
      "hm_get (sm_sessions (fst (w_store (snd (run_state (reaper_tick late_outside demo_server) demo_world))))) 7 =
         (if 7 \<in> set gone then None else hm_get (sm_sessions demo_manager) 7)"
      "w_log (snd (run_state (reaper_tick late_outside demo_server) demo_world)) = w_log demo_world @ es"
      "filter api_event es = concat (map (\<lambda>i. (let s = the (hm_get (sm_sessions demo_manager) i)
         in deletes_of demo_client (reaper_identity s) s)) gone)"
    using reaper_clears_expired [OF srv(1-4) demo_inv srv(5)] by blast
  have s: "hm_get (sm_sessions demo_manager) 7 = Some demo_session" by (simp add: demo_get)
  then have seven: "7 \<in> set gone" using gone(1) dead by blast
  then have "EHttp (api_call demo_client ''DELETE'' (''/api/v1/shuttles/'' @ s_shuttle_name demo_session) None
      (reaper_identity demo_session)) \<in> set (filter api_event es)"
    unfolding gone(4) using s by (force simp: deletes_of_def teardown_deletes_def Let_def)
  then show ?thesis using s seven gone(2,3) by auto
qed

text \<open>C12: Ending a session releases everything. When the caller owns the session, \<open>end_session\<close> answers
  with the ended session, whatever the API and the databases answer; the session and the user's
  pointer to it are gone from the manager, every other session is still there, and the API has
  received exactly the deletes of the session's shuttle, namespace and connection as the caller. When
  the caller does not own it the answer is 404 or 403, and neither the manager nor anything
  outside was touched.\<close>

theorem end_session_releases:
  assumes api: "srv_api srv = Some api" and on: "srv_sessions srv" and delete: "ox_method_error ox ''DELETE'' = None"
    and i: "rq_identity req = Some i"
    and st: "ox_others ox (w_tick w) (w_store w) = (m, d)" and inv: "manager_inv sha256 m"
    and digest: "\<And>x. length (sha256 x) = 32"
    and run: "run_state (end_session ox srv sid req) w = (r, w')"
  shows "(case owned m sid (id_user_id i) of
            Inr s \<Rightarrow>
              (\<exists>v es. r = Inr v \<and> sv_id v = sid \<and> sv_status v = Ended \<and>
                 (\<forall>k. hm_get (sm_sessions (fst (w_store w'))) k = (if k = sid then None else hm_get (sm_sessions m) k)) \<and>
                 hm_get (sm_per_user (fst (w_store w'))) (id_user_id i) \<noteq> Some sid \<and>
                 w_log w' = w_log w @ es \<and> filter api_event es = deletes_of api i s)
          | Inl e \<Rightarrow> r = Inl (if owner_of m sid = None then 404 else 403, session_error_display e) \<and>
                     w_store w' = (m, d) \<and> w_log w' = w_log w)"
proof (cases "owned m sid (id_user_id i)")
  case (Inl e)
  then have "end_session_of P sid (id_user_id i) (m, d) = (Inl e, (m, d))" for P by (simp add: end_session_of_def)
  then show ?thesis
    using run Inl i on st
    by (auto simp: end_session_def require_identity_def require_sessions_def run_mgr_end map_session_err_def err_def
        owned_cases owner_of_def split: option.splits if_splits)
next
  case (Inr s)
  then have s: "hm_get (sm_sessions m) sid = Some s" "s_user_id s = id_user_id i" by (auto simp: result_simps)
  let ?td = "teardown_session ox srv i (s_shuttle_name s) (s_connection_name s) (s_namespace s)"
  let ?st = "persist (ox_persist ox (w_tick w)) (drop_session sid s m, d)"
  have ended: "end_session_of (ox_persist ox (w_tick w)) sid (id_user_id i) (m, d) = (Inr (s\<lparr>s_status := Ended\<rparr>), ?st)"
    using Inr s(2) by (simp add: end_session_of_def Let_def drop_session_def)
  let ?w = "w\<lparr>w_store := ?st, w_tick := Suc (Suc (w_tick w))\<rparr>"
  obtain w2 where w2: "run_state ?td ?w = ((), w2)" by (metis old.unit.exhaust surj_pair)
  from run have r: "\<exists>v. r = Inr v \<and> sv_id v = s_id s \<and> sv_status v = Ended" and w': "w_store w' = w_store w2" "w_log w' = w_log w2"
    using i on st ended w2
    by (auto simp: end_session_def require_identity_def require_sessions_def run_mgr_end read_clock_def view_now_def
        session_view_of_def)
  have "trace api_event ?td ?w (deletes_of api i s)"
    by (rule trace_teardown_ended [OF api delete manager_invD(3) [OF inv s(1)] digest])
  then obtain es where "w_log w' = w_log w @ es" "filter api_event es = deletes_of api i s"
    using w2 w'(2) by (auto simp: trace_def)
  moreover have "fst (w_store w') = drop_session sid s m"
    using idle_teardown [of ox srv i "s_shuttle_name s" "s_connection_name s" "s_namespace s" ?w] w2 w'(1) by simp
  moreover have "s_id s = sid" using manager_invD(3) [OF inv s(1)] by (simp add: session_ok_def)
  ultimately show ?thesis
    unfolding Inr sum.case using r drop_session_get [OF inv s(1)] by (auto simp: result_simps)
qed

theorem end_session_releases_witness:
  "hm_get (sm_sessions demo_manager) 7 = Some demo_session \<and>
   hm_get (sm_sessions (fst (w_store (snd (run_state (end_session demo_outside demo_server 7 demo_request) demo_world))))) 7 = None \<and>
   fst (run_state (end_session demo_outside demo_server 8 demo_request) demo_world) =
     Inl (404, session_error_display (NotFound 8))"
proof -
  have srv: "srv_api demo_server = Some demo_client" "srv_sessions demo_server" "ox_method_error demo_outside ''DELETE'' = None"
    "rq_identity demo_request = Some demo_identity"
    "ox_others demo_outside (w_tick demo_world) (w_store demo_world) = (demo_manager, Map.empty)" "length (demo_sha x) = 32" for x
    by (simp_all add: demo_server_def demo_outside_def demo_world_def demo_sha_def demo_request_def)
  have own: "owned demo_manager 7 (id_user_id demo_identity) = Inr demo_session"
    "owned demo_manager 8 (id_user_id demo_identity) = Inl (NotFound 8)" "owner_of demo_manager 8 = None"
    by (simp_all add: owned_cases demo_get demo_session_def demo_identity_def owner_of_def)
  note ends = end_session_releases [OF srv(1-5) demo_inv srv(6) prod.collapse [symmetric]]
  show ?thesis
    using ends [of 7] ends [of 8] own demo_get by auto
qed

end
