(* ===== verification/Router.thy ===== *)
theory Router
  imports Session_End
begin

text \<open>
  The whole request path of the server (\<^verbatim>\<open>router.rs\<close> and \<open>routes\<close> of \<^verbatim>\<open>handlers.rs\<close>): the route table,
  the two middlewares around it, the extractors and the handler. \<open>router\<close> of the code layers the
  middlewares outside the table, so an unknown path is refused before it is not found.

  A route parameter matches one non-empty segment of the path and a \<open>get\<close> route also answers HEAD, as
  axum documents. Parameters: the parser of ids, serde's decoders of the body and of the query, and
  the text encoder of prometheus.
\<close>

subsection \<open>Routes\<close>

datatype endpoint =
    EpHealth
  | EpMetrics
  | EpManifest
  | EpCreate
  | EpList
  | EpGet str
  | EpEnd str
  | EpReset str
  | EpExtend str
  | EpAction str str

datatype routed = NoRoute | WrongMethod | Route endpoint

definition methods :: "str \<Rightarrow> (str \<times> endpoint) list \<Rightarrow> routed" where
  "methods meth table =
     (case map_of table (if meth = ''HEAD'' then ''GET'' else meth) of
        None \<Rightarrow> WrongMethod
      | Some ep \<Rightarrow> Route ep)"

definition session_routes :: "str \<Rightarrow> str list \<Rightarrow> routed" where
  "session_routes meth segs =
     (case segs of
        [a] \<Rightarrow>
          if a = ''manifest'' then methods meth [(''GET'', EpManifest)]
          else if a = ''sessions'' then methods meth [(''POST'', EpCreate), (''GET'', EpList)]
          else NoRoute
      | [a, i] \<Rightarrow>
          if a = ''sessions'' \<and> i \<noteq> [] then methods meth [(''GET'', EpGet i), (''DELETE'', EpEnd i)] else NoRoute
      | [a, i, b] \<Rightarrow>
          if a = ''sessions'' \<and> i \<noteq> [] \<and> b = ''reset'' then methods meth [(''POST'', EpReset i)]
          else if a = ''sessions'' \<and> i \<noteq> [] \<and> b = ''extend'' then methods meth [(''POST'', EpExtend i)]
          else NoRoute
      | [a, i, b, c] \<Rightarrow>
          if a = ''sessions'' \<and> i \<noteq> [] \<and> b = ''actions'' \<and> c \<noteq> [] then methods meth [(''POST'', EpAction i c)] else NoRoute
      | _ \<Rightarrow> NoRoute)"

definition route :: "str \<Rightarrow> str \<Rightarrow> routed" where
  "route meth path =
     (case split_on (\<lambda>c. c = CHR ''/'') path of
        root # segs \<Rightarrow>
          if root \<noteq> [] then NoRoute
          else if segs = [''health''] then methods meth [(''GET'', EpHealth)]
          else if segs = [''metrics''] then methods meth [(''GET'', EpMetrics)]
          else (case segs of
                  api # v1 # rest \<Rightarrow>
                    if api \<noteq> ''api'' \<or> v1 \<noteq> ''v1'' then NoRoute
                    else if rest = [''health''] then methods meth [(''GET'', EpHealth)]
                    else session_routes meth rest
                | _ \<Rightarrow> NoRoute)
      | [] \<Rightarrow> NoRoute)"

subsection \<open>Requests and replies\<close>

record inbound =
  in_method :: str
  in_request :: request
  in_body :: "(str, str) result"
  in_query :: str

text \<open>
  The extractors of axum and serde: path segments (\<open>de_uuid\<close> and \<open>de_text\<close> take them as they stand in the
  path, percent-encoded), the body, the query and the text encoder of the metrics.
\<close>

record decoders =
  de_uuid :: "str \<Rightarrow> (str, uuid) result"
  de_text :: "str \<Rightarrow> (str, str) result"
  de_body :: "str \<Rightarrow> (str, create_session_body) result"
  de_query :: "str \<Rightarrow> (str, u64 option) result"
  de_metrics :: "metric list \<Rightarrow> (str, str) result"

datatype reply =
    RHealth
  | RMetrics str
  | RManifest manifest_view
  | RSession nat session_view
  | RSessions "session_view list"
  | RAction action_response
  | RError nat str
  | RPanic

definition answer :: "('a \<Rightarrow> reply) \<Rightarrow> 'a response act \<Rightarrow> reply act" where
  "answer ok m =
     do { r \<leftarrow> m; ret (case r of Inl (status, msg) \<Rightarrow> RError status msg | Inr x \<Rightarrow> ok x) }"

definition rejected :: "(str, 'a) result \<Rightarrow> ('a \<Rightarrow> reply act) \<Rightarrow> reply act" where
  "rejected x f = (case x of Inl msg \<Rightarrow> ret (RError 400 msg) | Inr y \<Rightarrow> f y)"

definition metrics_handler :: "decoders \<Rightarrow> reply act" where
  "metrics_handler de =
     do { ms \<leftarrow> gets w_metrics;
          ret (case de_metrics de ms of
                 Inl e \<Rightarrow> RError 500 (''encoding metrics failed: '' @ e)
               | Inr out \<Rightarrow> RMetrics out) }"

fun run_endpoint :: "outside \<Rightarrow> decoders \<Rightarrow> server \<Rightarrow> inbound \<Rightarrow> request \<Rightarrow> endpoint \<Rightarrow> reply act" where
  "run_endpoint ox de srv b req EpHealth = ret RHealth"
| "run_endpoint ox de srv b req EpMetrics = metrics_handler de"
| "run_endpoint ox de srv b req EpManifest = do { v \<leftarrow> get_manifest srv; ret (RManifest v) }"
| "run_endpoint ox de srv b req EpCreate =
     answer (\<lambda>(status, v). RSession status v) (create_session ox (de_body de) srv req (in_body b))"
| "run_endpoint ox de srv b req EpList = answer RSessions (list_my_sessions ox srv req)"
| "run_endpoint ox de srv b req (EpGet i) =
     rejected (de_uuid de i) (\<lambda>sid. answer (RSession 200) (get_session ox srv sid req))"
| "run_endpoint ox de srv b req (EpEnd i) =
     rejected (de_uuid de i) (\<lambda>sid. answer (RSession 200) (end_session ox srv sid req))"
| "run_endpoint ox de srv b req (EpReset i) =
     rejected (de_uuid de i) (\<lambda>sid. answer (RSession 200) (reset_session ox srv sid req))"
| "run_endpoint ox de srv b req (EpExtend i) =
     rejected (de_uuid de i) (\<lambda>sid.
     rejected (de_query de (in_query b)) (\<lambda>seconds.
       do { r \<leftarrow> extend_session ox srv sid seconds req;
            (case r of Panics \<Rightarrow> ret RPanic | Returns x \<Rightarrow> answer (RSession 200) (ret x)) }))"
| "run_endpoint ox de srv b req (EpAction i a) =
     rejected (de_uuid de i) (\<lambda>sid.
     rejected (de_text de a) (\<lambda>action_id. answer RAction (execute_action ox srv sid action_id req)))"

definition dispatch_route :: "outside \<Rightarrow> decoders \<Rightarrow> server \<Rightarrow> inbound \<Rightarrow> request \<Rightarrow> reply act" where
  "dispatch_route ox de srv b req =
     (case route (in_method b) (rq_path req) of
        NoRoute \<Rightarrow> ret (RError 404 [])
      | WrongMethod \<Rightarrow> ret (RError 405 [])
      | Route ep \<Rightarrow> run_endpoint ox de srv b req ep)"

definition serve :: "outside \<Rightarrow> decoders \<Rightarrow> server \<Rightarrow> inbound \<Rightarrow> reply act" where
  "serve ox de srv b =
     (case gateway (cfg_auth_token (srv_config srv)) (\<lambda>req. Inr (dispatch_route ox de srv b req)) (in_request b) of
        Inl (status, msg) \<Rightarrow> ret (RError status msg)
      | Inr act \<Rightarrow> act)"

subsection \<open>Open endpoints\<close>

definition open_endpoint :: "endpoint \<Rightarrow> bool" where
  "open_endpoint ep \<longleftrightarrow> ep \<in> {EpHealth, EpMetrics, EpManifest}"

lemma methods_Route: "methods meth table = Route ep \<Longrightarrow> ep \<in> snd ` set table"
  by (force simp: methods_def dest: map_of_SomeD split: option.splits)

lemma session_routes_manifest:
  "session_routes meth segs = Route ep \<Longrightarrow> open_endpoint ep \<longleftrightarrow> segs = [''manifest'']"
  unfolding session_routes_def open_endpoint_def
  by (auto dest!: methods_Route split: list.splits if_splits)

text \<open>The paths the middlewares exempt are exactly those of the open endpoints.\<close>

lemma route_exempt:
  assumes "route meth path = Route ep"
  shows "is_exempt path \<longleftrightarrow> open_endpoint ep"
proof -
  obtain segs where split: "split_on (\<lambda>c. c = CHR ''/'') path = [] # segs"
    using assms by (auto simp: route_def split: list.splits if_splits)
  then have path: "path = join (CHR ''/'') ([] # segs)" by (metis join_split_on)
  have exempt: "is_exempt path \<longleftrightarrow>
      segs \<in> {[''health''], [''metrics''], [''api'', ''v1'', ''health''], [''api'', ''v1'', ''manifest'']}"
  proof
    assume "is_exempt path"
    then show "segs \<in> {[''health''], [''metrics''], [''api'', ''v1'', ''health''], [''api'', ''v1'', ''manifest'']}"
      using split by (auto simp: is_exempt_def)
  qed (auto simp: is_exempt_def path)
  show ?thesis
  proof (cases "segs = [''health''] \<or> segs = [''metrics''] \<or> segs = [''api'', ''v1'', ''health'']")
    case True
    then have "open_endpoint ep"
      using assms split by (auto simp: route_def open_endpoint_def dest!: methods_Route)
    with True show ?thesis unfolding exempt by auto
  next
    case False
    then obtain rest where "segs = ''api'' # ''v1'' # rest" "session_routes meth rest = Route ep"
      using assms split by (auto simp: route_def split: list.splits if_splits)
    then show ?thesis
      using False session_routes_manifest unfolding exempt by auto
  qed
qed

lemma open_endpoint_reads: "open_endpoint ep \<Longrightarrow> snd (run_state (run_endpoint ox de srv b req ep) w) = w"
  by (auto simp: open_endpoint_def metrics_handler_def get_manifest_def Let_def)

lemma dispatch_exempt:
  assumes "is_exempt (rq_path req)"
  shows "snd (run_state (dispatch_route ox de srv b req) w) = w"
proof (cases "route (in_method b) (rq_path req)")
  case (Route ep)
  then have "open_endpoint ep" using route_exempt assms by blast
  with Route show ?thesis by (simp add: dispatch_route_def open_endpoint_reads)
qed (simp_all add: dispatch_route_def)

definition has_credentials :: "server \<Rightarrow> request \<Rightarrow> bool" where
  "has_credentials srv req \<longleftrightarrow>
     (\<forall>t. cfg_auth_token (srv_config srv) = Some t \<longrightarrow>
        Option.bind (rq_headers req ''authorization'') to_str = Some (''Bearer '' @ t)) \<and>
     identity_of req \<noteq> None"

lemma serve_cases:
  "serve ox de srv b =
     (let req = in_request b
      in if is_exempt (rq_path req) then dispatch_route ox de srv b req
         else if has_credentials srv req
         then dispatch_route ox de srv b (req\<lparr>rq_identity := identity_of req\<rparr>)
         else ret (RError 401 (if \<exists>t. cfg_auth_token (srv_config srv) = Some t \<and> \<not> valid_bearer req t
                               then ''missing or invalid bearer token''
                               else ''playground requires authenticated identity'')))"
proof (cases "is_exempt (rq_path (in_request b))")
  case True
  then show ?thesis by (simp add: serve_def gateway_exempt)
next
  case False
  then show ?thesis
    unfolding serve_def gateway_protected [OF False] has_credentials_def valid_bearer_iff Let_def
    by (auto split: option.split)
qed

subsection \<open>Properties\<close>

text \<open>C5: Without credentials nothing happens. A request without the configured bearer token or without a
  user header changes nothing, whatever its path, method, body and query: no session, no quota, no
  metric, no connection, no call out of the process. A request with both that names a route of the
  session API runs that route's handler with the identity of the headers, and a request for a probe or the
  manifest runs its handler either way.\<close>

theorem without_credentials_nothing_happens:
  "(\<not> has_credentials srv (in_request b) \<longrightarrow> snd (run_state (serve ox de srv b) w) = w) \<and>
   (route (in_method b) (rq_path (in_request b)) = Route ep \<longrightarrow>
      (open_endpoint ep \<longrightarrow> serve ox de srv b = run_endpoint ox de srv b (in_request b) ep) \<and>
      (\<not> open_endpoint ep \<and> has_credentials srv (in_request b) \<longrightarrow>
         (\<exists>i. identity_of (in_request b) = Some i \<and>
            serve ox de srv b = run_endpoint ox de srv b ((in_request b)\<lparr>rq_identity := Some i\<rparr>) ep)) \<and>
      (\<not> open_endpoint ep \<and> \<not> has_credentials srv (in_request b) \<longrightarrow>
         (\<exists>msg. serve ox de srv b = ret (RError 401 msg))))"
proof (cases "is_exempt (rq_path (in_request b))")
  case True
  then show ?thesis
    using route_exempt [of "in_method b" "rq_path (in_request b)" ep] dispatch_exempt [OF True]
    by (auto simp: serve_cases dispatch_route_def Let_def)
next
  case False
  then show ?thesis
    using route_exempt [of "in_method b" "rq_path (in_request b)" ep]
    by (auto simp: serve_cases dispatch_route_def Let_def) (auto simp: has_credentials_def)
qed

definition demo_decoders :: decoders where
  "demo_decoders =
     \<lparr>de_uuid = (\<lambda>s. if s = ''7'' then Inr 7 else Inl ''bad id''), de_text = Inr, de_body = (\<lambda>_. Inl ''no body''), de_query = (\<lambda>_. Inr None),
      de_metrics = (\<lambda>_. Inr [])\<rparr>"

definition bare_request :: inbound where
  "bare_request =
     \<lparr>in_method = ''DELETE'',
      in_request = \<lparr>rq_path = ''/api/v1/sessions/7'', rq_headers = (\<lambda>_. None), rq_identity = None\<rparr>,
      in_body = Inr [], in_query = []\<rparr>"

theorem without_credentials_nothing_happens_witness:
  "\<not> has_credentials demo_server (in_request bare_request) \<and>
   route ''DELETE'' ''/api/v1/sessions/7'' = Route (EpEnd ''7'') \<and>
   snd (run_state (serve demo_outside demo_decoders demo_server bare_request) demo_world) = demo_world"
proof -
  have none: "\<not> has_credentials demo_server (in_request bare_request)"
    by (simp add: has_credentials_def bare_request_def identity_of_def header_def)
  have "route ''DELETE'' ''/api/v1/sessions/7'' = Route (EpEnd ''7'')" by code_simp
  then show ?thesis using without_credentials_nothing_happens [of demo_server bare_request] none by blast
qed

end
