(* ===== verification/Session_Persist.thy ===== *)
theory Session_Persist
  imports Session_Laws
begin

text \<open>
  Persistence of the session store: \<open>persist\<close> against crashes and failed writes, and the restart (\<open>hydrate_from_disk\<close>). The codec is serde's; a theorem that needs
  it assumes only that the snapshot at hand decodes to what was encoded.
\<close>

subsection \<open>One persist\<close>

lemma tmp_path_neq [simp]: "tmp_path p \<noteq> p" "p \<noteq> tmp_path p"
  by (simp_all add: tmp_path_def)

lemma persist_rows_file:
  "persist_rows P path rows d path =
     (if pe_io P = Persisted then (case pe_encode P rows of None \<Rightarrow> d path | json \<Rightarrow> json) else d path)"
  by (simp add: persist_rows_def rename_file_def split: option.split persist_io.split)

lemma persist_rows_other:
  "q \<noteq> path \<Longrightarrow> q \<noteq> tmp_path path \<Longrightarrow> persist_rows P path rows d q = d q"
  by (simp add: persist_rows_def rename_file_def split: option.split persist_io.split)

lemma persist_disk:
  "sm_persistence_path m = Some path \<Longrightarrow>
     persist P (m, d) = (m, persist_rows P path (persist_snapshot m) d)"
  by (simp add: persist_def)

text \<open>A persist never corrupts the session file. However the encoding, the write of the
  temporary file and the rename end, the session file afterwards holds either what it held
  before or the complete encoding of the sessions in memory; no file but it and its
  temporary file is touched, the manager is unchanged, and a manager without a path
  writes nothing.\<close>

theorem persist_is_atomic:
  shows "fst (persist P (m, d)) = m \<and>
         (sm_persistence_path m = None \<longrightarrow> snd (persist P (m, d)) = d) \<and>
         (sm_persistence_path m = Some path \<longrightarrow>
            (snd (persist P (m, d)) path = d path \<or>
             (\<exists>json. pe_encode P (persist_snapshot m) = Some json \<and> snd (persist P (m, d)) path = Some json)) \<and>
            (pe_io P = Persisted \<and> pe_encode P (persist_snapshot m) = Some json' \<longrightarrow>
               snd (persist P (m, d)) path = Some json' \<and> snd (persist P (m, d)) (tmp_path path) = None) \<and>
            (q \<noteq> path \<and> q \<noteq> tmp_path path \<longrightarrow> snd (persist P (m, d)) q = d q))"
proof (cases "sm_persistence_path m")
  case None
  then show ?thesis by (simp add: persist_def)
next
  case (Some p)
  have "persist_rows P p rows d (tmp_path p) = None" if "pe_io P = Persisted" "pe_encode P rows = Some j" for rows j
    using that by (simp add: persist_rows_def rename_file_def)
  then show ?thesis
    using Some persist_rows_other [of q p P] by (auto simp: persist_disk persist_rows_file split: option.split)
qed

theorem persist_is_atomic_witness:
  "sm_persistence_path demo_manager = Some ''data/playground/sessions.json'' \<and>
   snd (persist demo_persist (demo_manager, Map.empty)) ''data/playground/sessions.json'' = Some ''1'' \<and>
   snd (persist (demo_persist\<lparr>pe_io := WriteFailed (Some ''par'')\<rparr>) (demo_manager, Map.empty))
     ''data/playground/sessions.json'' = None"
proof -
  have path: "sm_persistence_path demo_manager = Some ''data/playground/sessions.json''"
    by (simp add: demo_manager_def)
  have "show_nat (Suc 0) = ''1''" by code_simp
  then have enc: "pe_encode demo_persist (persist_snapshot demo_manager) = Some ''1''"
    by (simp add: demo_persist_def persist_snapshot_def demo_manager_def)
  show ?thesis
    using persist_is_atomic [of demo_persist demo_manager Map.empty "''data/playground/sessions.json''" "''1''"]
      path enc persist_rows_file [of "demo_persist\<lparr>pe_io := WriteFailed (Some ''par'')\<rparr>"]
    by (simp add: persist_disk) (simp add: demo_persist_def)
qed

subsection \<open>Restart\<close>

definition rehydrated :: "instant \<Rightarrow> session \<Rightarrow> session" where
  "rehydrated t s = s\<lparr>s_created_monotonic := t, s_last_action_at := None\<rparr>"

lemma session_of_row_truncate: "session_of_row t (session_row.truncate s) = rehydrated t s"
  by (cases s) (simp add: session_of_row_def session_row.truncate_def session_row.extend_def rehydrated_def)

lemma rehydrated_fields [simp]:
  "s_id (rehydrated t s) = s_id s" "s_user_id (rehydrated t s) = s_user_id s"
  "s_expires_at (rehydrated t s) = s_expires_at s" "s_status (rehydrated t s) = s_status s"
  "s_ttl (rehydrated t s) = s_ttl s" "s_created_monotonic (rehydrated t s) = t"
  "s_last_action_at (rehydrated t s) = None"
  by (simp_all add: rehydrated_def)

lemma session_ok_rehydrated: "session_ok sha256 i (rehydrated t s) \<longleftrightarrow> session_ok sha256 i s"
  by (simp add: session_ok_def rehydrated_def)

definition survives :: "utc_time \<Rightarrow> session \<Rightarrow> bool" where
  "survives now s \<longleftrightarrow> now < s_expires_at s \<and> s_status s \<noteq> Ended"

lemma hydrate_rows_fold:
  "hydrate_rows now (S, U) ss =
     (fold (\<lambda>s. hm_insert (s_id s) s) (filter (survives now) ss) S,
      fold (\<lambda>s. hm_insert (s_user_id s) (s_id s)) (filter (survives now) ss) U)"
  by (induction ss arbitrary: S U) (auto simp: survives_def not_less)

lemma hydrate_rows_get:
  fixes ss now
  defines "S' \<equiv> fst (hydrate_rows now (hm_empty, hm_empty) ss)"
    and "U' \<equiv> snd (hydrate_rows now (hm_empty, hm_empty) ss)"
  assumes "distinct (map s_id ss)"
  shows "hm_ok S'" and "hm_ok U'"
    and "hm_get S' i = Some s \<longleftrightarrow> s \<in> set ss \<and> survives now s \<and> s_id s = i"
    and "hm_get U' u = Some i \<Longrightarrow> \<exists>s \<in> set ss. survives now s \<and> s_user_id s = u \<and> s_id s = i"
    and "hm_get U' u = None \<Longrightarrow> s \<in> set ss \<Longrightarrow> survives now s \<Longrightarrow> s_user_id s \<noteq> u"
proof -
  let ?kept = "filter (survives now) ss"
  note S = hm.fold_ins [of hm_empty s_id "\<lambda>s. s" ?kept]
    and U = hm.fold_ins [of hm_empty s_user_id s_id ?kept]
  have get_U: "hm_get U' = map_of (rev (map (\<lambda>x. (s_user_id x, s_id x)) ?kept))"
    using U by (simp add: U'_def hydrate_rows_fold) (simp add: hm_defs)
  show "hm_ok S'" "hm_ok U'"
    using S U by (simp_all add: S'_def U'_def hydrate_rows_fold)
  have "distinct (map fst (rev (map (\<lambda>x. (s_id x, x)) ?kept)))"
    using assms(3) by (simp add: rev_map [symmetric] o_def distinct_map_filter)
  then have "map_of (rev (map (\<lambda>x. (s_id x, x)) ?kept)) i = Some s \<longleftrightarrow>
      (i, s) \<in> set (rev (map (\<lambda>x. (s_id x, x)) ?kept))"
    by (rule map_of_eq_Some_iff)
  also have "\<dots> \<longleftrightarrow> s \<in> set ss \<and> survives now s \<and> s_id s = i" by auto
  finally show "hm_get S' i = Some s \<longleftrightarrow> s \<in> set ss \<and> survives now s \<and> s_id s = i"
    using S by (simp add: S'_def hydrate_rows_fold) (simp add: hm_defs)
  show "\<exists>s \<in> set ss. survives now s \<and> s_user_id s = u \<and> s_id s = i" if "hm_get U' u = Some i"
    using map_of_SomeD [OF that [unfolded get_U]] by auto
  show "s_user_id s \<noteq> u" if "hm_get U' u = None" "s \<in> set ss" "survives now s"
    using that unfolding get_U map_of_eq_None_iff by force
qed

lemma booted_rows:
  "map (\<lambda>r. session_of_row (boot (s_id r)) r) (persist_snapshot m) =
     map (\<lambda>s. rehydrated (boot (s_id s)) s) (hm_values (sm_sessions m))"
  by (simp add: persist_snapshot_def session_of_row_truncate)
    (simp add: session_row.truncate_def)

lemma booted_distinct:
  assumes "manager_inv sha256 m"
  shows "distinct (map s_id (map (\<lambda>s. rehydrated (boot (s_id s)) s) (hm_values (sm_sessions m))))"
    and "s2 \<in> set (map (\<lambda>s. rehydrated (boot (s_id s)) s) (hm_values (sm_sessions m))) \<and> survives now s2 \<and> s_id s2 = i \<longleftrightarrow>
         (\<exists>s. hm_get (sm_sessions m) i = Some s \<and> now < s_expires_at s \<and> s2 = rehydrated (boot i) s)"
proof -
  note ok = manager_invD(1) [OF assms]
  have id: "s_id s = j \<and> s_status s \<noteq> Ended" if "(j, s) \<in> set (sm_sessions m)" for j s
    using that manager_invD(3) [OF assms, of j s] hm.entries_iff [OF ok, of j s] by (simp add: session_ok_def)
  then have "map s_id (map (\<lambda>s. rehydrated (boot (s_id s)) s) (hm_values (sm_sessions m))) =
      map fst (sm_sessions m)" by auto
  then show "distinct (map s_id (map (\<lambda>s. rehydrated (boot (s_id s)) s) (hm_values (sm_sessions m))))"
    using ok by (simp only: hm_ok_def)
  show "s2 \<in> set (map (\<lambda>s. rehydrated (boot (s_id s)) s) (hm_values (sm_sessions m))) \<and> survives now s2 \<and> s_id s2 = i \<longleftrightarrow>
      (\<exists>s. hm_get (sm_sessions m) i = Some s \<and> now < s_expires_at s \<and> s2 = rehydrated (boot i) s)"
    using id by (force simp: hm.entries_iff [OF ok, symmetric] survives_def)
qed

lemma restart_state:
  assumes inv: "manager_inv sha256 m" and path: "d (sessions_path dir) = Some b"
    and codec: "dec b = Some (persist_snapshot m)"
    and start: "new_with_persistence dec boot now mf en ttl dir d = (m2, d2)"
  shows "d2 = d" and "sm_manifest m2 = mf" "sm_enabled m2 = en" "sm_persistence_path m2 = Some (sessions_path dir)"
    and "hm_get (sm_sessions m2) i = Some s2 \<longleftrightarrow>
           (\<exists>s. hm_get (sm_sessions m) i = Some s \<and> now < s_expires_at s \<and> s2 = rehydrated (boot i) s)"
    and "manager_inv sha256 m2"
    and "hm_get (sm_per_user m2) u = None \<longleftrightarrow> \<not> (\<exists>i. owner_of m2 i = Some u)"
proof -
  let ?ss = "map (\<lambda>s. rehydrated (boot (s_id s)) s) (hm_values (sm_sessions m))"
  let ?H = "hydrate_rows now (hm_empty, hm_empty) ?ss"
  have boot: "hydrate_from_disk dec boot now (d (sessions_path dir)) = ?H"
    by (simp only: hydrate_from_disk_def path codec booted_rows option.case)
  have m2: "m2 = \<lparr>sm_sessions = fst ?H, sm_per_user = snd ?H, sm_manifest = mf, sm_enabled = en,
      sm_default_ttl = unwrap_or (clamp_ttl ttl) DEFAULT_TTL,
      sm_persistence_path = Some (sessions_path dir)\<rparr>" and d2: "d2 = d"
    using start boot by (auto simp: new_with_persistence_def Let_def split: prod.splits)
  show "d2 = d" "sm_manifest m2 = mf" "sm_enabled m2 = en" "sm_persistence_path m2 = Some (sessions_path dir)"
    using d2 by (simp_all add: m2)
  note H = hydrate_rows_get [OF booted_distinct(1) [OF inv, of boot], where now = now]
  have get: "hm_get (sm_sessions m2) i = Some s2 \<longleftrightarrow>
      (\<exists>s. hm_get (sm_sessions m) i = Some s \<and> now < s_expires_at s \<and> s2 = rehydrated (boot i) s)" for i s2
    using H(3) [of i s2] booted_distinct(2) [OF inv, of s2 boot now i] by (simp add: m2)
  show "hm_get (sm_sessions m2) i = Some s2 \<longleftrightarrow>
      (\<exists>s. hm_get (sm_sessions m) i = Some s \<and> now < s_expires_at s \<and> s2 = rehydrated (boot i) s)"
    by (rule get)
  have "session_ok sha256 j t" if "hm_get (sm_sessions m2) j = Some t" for j t
    using that manager_invD(3) [OF inv] by (auto simp: get session_ok_rehydrated)
  moreover have "owner_of m2 j = Some v" if "hm_get (sm_per_user m2) v = Some j" for v j
    using H(4) [of v j] H(3) [of j] that by (auto simp: m2 owner_of_def)
  ultimately show inv2: "manager_inv sha256 m2"
    using H(1,2) default_ttl_in_range [of ttl] by (simp add: manager_inv_def m2)
  have "owner_of m2 j \<noteq> Some u" if none: "hm_get (sm_per_user m2) u = None" for j
  proof
    assume "owner_of m2 j = Some u"
    then obtain s where s: "hm_get (fst ?H) j = Some s" "s_user_id s = u"
      by (auto simp: owner_of_def m2)
    moreover have "hm_get (snd ?H) u = None" using none by (simp add: m2)
    ultimately show False using H(5) [of u s] H(3) [of j s] by blast
  qed
  then show "hm_get (sm_per_user m2) u = None \<longleftrightarrow> \<not> (\<exists>i. owner_of m2 i = Some u)"
    using manager_invD(4) [OF inv2, of u] by (cases "hm_get (sm_per_user m2) u") auto
qed

text \<open>C18: A restart restores the live sessions. When the last snapshot was written and decodes to
  what was encoded, a manager built by \<open>new_with_persistence\<close> on that directory holds
  exactly the sessions whose wall-clock deadline has not passed, each equal to the old one
  up to the two in-process clock readings; a user has a pointer exactly when one of its
  sessions survived, and the invariant holds, so the pointer leads to such a session.\<close>

theorem restart_restores_live_sessions:
  assumes inv: "manager_inv sha256 m" and path: "sm_persistence_path m = Some (sessions_path dir)"
    and io: "pe_io P = Persisted" and enc: "pe_encode P (persist_snapshot m) = Some b"
    and codec: "dec b = Some (persist_snapshot m)"
    and start: "new_with_persistence dec boot now mf en ttl dir (snd (persist P (m, d))) = (m2, d2)"
  shows "hm_get (sm_sessions m2) i =
           map_option (\<lambda>s. s\<lparr>s_created_monotonic := boot i, s_last_action_at := None\<rparr>)
             (opt_filter (\<lambda>s. now < s_expires_at s) (hm_get (sm_sessions m) i)) \<and>
         (hm_get (sm_per_user m2) u \<noteq> None \<longleftrightarrow> (\<exists>i. owner_of m2 i = Some u)) \<and>
         manager_inv sha256 m2 \<and> d2 = snd (persist P (m, d))"
proof -
  have "snd (persist P (m, d)) (sessions_path dir) = Some b"
    using path io enc by (simp add: persist_disk persist_rows_file)
  note st = restart_state [OF inv this codec start]
  have "hm_get (sm_sessions m2) i = map_option (rehydrated (boot i))
      (opt_filter (\<lambda>s. now < s_expires_at s) (hm_get (sm_sessions m) i))"
    by (rule option_eqI) (auto simp: st(5) result_simps)
  then show ?thesis using st(1,6,7) by (simp add: rehydrated_def [abs_def])
qed

theorem restart_restores_live_sessions_witness:
  "manager_inv demo_sha demo_manager \<and>
   sm_persistence_path demo_manager = Some (sessions_path ''data'') \<and>
   hm_get (sm_sessions (fst (new_with_persistence (\<lambda>b. Some (persist_snapshot demo_manager)) (\<lambda>i. 3) 6000
      demo_manifest True DEFAULT_TTL ''data'' (snd (persist demo_persist (demo_manager, Map.empty)))))) 7 =
     Some (demo_session\<lparr>s_created_monotonic := 3, s_last_action_at := None\<rparr>)"
proof -
  have path: "sm_persistence_path demo_manager = Some (sessions_path ''data'')"
    by (simp add: demo_manager_def sessions_path_def path_join_def ends_with_def)
  have io: "pe_io demo_persist = Persisted" and enc: "pe_encode demo_persist (persist_snapshot demo_manager) =
      Some (show_nat (length (persist_snapshot demo_manager)))"
    by (simp_all add: demo_persist_def)
  let ?boot = "new_with_persistence (\<lambda>b. Some (persist_snapshot demo_manager)) (\<lambda>i. 3) 6000
      demo_manifest True DEFAULT_TTL ''data'' (snd (persist demo_persist (demo_manager, Map.empty)))"
  have "?boot = (fst ?boot, snd ?boot)" by simp
  from restart_restores_live_sessions [OF demo_inv path io enc _ this, of 7]
  have "hm_get (sm_sessions (fst ?boot)) 7 =
      map_option (\<lambda>s. s\<lparr>s_created_monotonic := 3, s_last_action_at := None\<rparr>)
        (opt_filter (\<lambda>s. 6000 < s_expires_at s) (hm_get (sm_sessions demo_manager) 7))" by simp
  moreover have "6000 < s_expires_at demo_session"
    by (simp add: demo_session_def session_new_def demo_clock_def from_std_def ttl_defs)
  ultimately show ?thesis using path demo_inv by (simp add: demo_get)
qed

text \<open>C39: A restart winds the countdown up again. A session read back at an \<open>Instant\<close> shows, and lets
  \<open>extend\<close> count, its whole lifetime as remaining, however little of it was left; only the
  wall-clock deadline still ends it in time. An \<open>extend\<close> by nothing right after the
  restart therefore moves that deadline to a full lifetime from now.\<close>

theorem restart_rewinds_countdown:
  fixes s :: session
  assumes "s_ttl s \<le> MAX_TTL"
  shows "sv_remaining_seconds (session_view_of c (session_of_row (mono c) (session_row.truncate s))) = as_secs (s_ttl s) \<and>
         session_extend c c 0 (session_of_row (mono c) (session_row.truncate s)) =
           Returns (Inr (), (session_of_row (mono c) (session_row.truncate s))
             \<lparr>s_expires_at := utc c + int (s_ttl s)\<rparr>) \<and>
         (is_expired c (session_of_row (mono c) (session_row.truncate s)) \<longleftrightarrow> utc c \<ge> s_expires_at s)"
proof -
  let ?s = "rehydrated (mono c) s"
  have "remaining c ?s = s_ttl s" by (simp add: remaining_def elapsed_def)
  moreover have "MAX_TTL \<le> DURATION_MAX" by (simp add: ttl_defs)
  ultimately have "session_extend c c 0 ?s = Returns (Inr (), extended c (s_ttl s) ?s)"
    using assms by (simp add: extend_cases elapsed_def)
  moreover have "extended c (s_ttl s) ?s = ?s\<lparr>s_expires_at := utc c + int (s_ttl s)\<rparr>"
    by (cases s) (simp add: extended_def elapsed_def rehydrated_def)
  ultimately show ?thesis
    unfolding session_of_row_truncate by (simp add: session_view_of_def is_expired_def elapsed_def)
qed

theorem restart_rewinds_countdown_witness:
  "s_ttl demo_session \<le> MAX_TTL \<and>
   sv_remaining_seconds (session_view_of \<lparr>mono = 1, utc = 7199000000000\<rparr>
     (session_of_row 1 (session_row.truncate demo_session))) = 7200"
proof -
  have "s_ttl demo_session \<le> MAX_TTL" by (simp add: demo_session_def ttl_defs)
  then show ?thesis
    using restart_rewinds_countdown [of demo_session "\<lparr>mono = 1, utc = 7199000000000\<rparr>"]
    by (simp add: demo_session_def ttl_defs)
qed

end
