(* ===== verification/Boot.thy ===== *)
theory Boot
  imports Router Session_Persist
begin

text \<open>
  The start of the server (\<^verbatim>\<open>main.rs\<close>): configuration, metrics, manifest, the session manager hydrated
  from its file, the quota, the dispatcher and the API client, put together into the server's state.
  The loop of the listener, the background tasks and tracing are tokio's; what the tasks run is \<open>reaper_tick\<close> and
  \<open>sweep_api_orphans\<close>.

  Parameters: serde's decoders of the manifest and of the session rows, the clock readings of the
  hydration, and whether registering the metrics, building the HTTP client and binding the address succeed.
\<close>

record boot_env =
  be_from_slice :: "str \<Rightarrow> (str, manifest) result"
  be_rows :: "str \<Rightarrow> session_row list option"
  be_instant :: "uuid \<Rightarrow> instant"
  be_now :: utc_time
  be_register :: "str option"
  be_http_build :: "duration \<Rightarrow> str option"
  be_bind :: "str \<Rightarrow> str option"

definition boot_api_client :: "boot_env \<Rightarrow> config \<Rightarrow> api_client option" where
  "boot_api_client be cfg =
     (case (cfg_api_base_url cfg, cfg_api_service_token cfg) of
        (Some base, Some token) \<Rightarrow>
          (case be_http_build be (cfg_api_timeout cfg) of
             None \<Rightarrow> Some (api_client_new base token)
           | Some e \<Rightarrow> None)
      | _ \<Rightarrow> None)"

definition build_dispatcher :: dispatcher where
  "build_dispatcher = Tcp"

text \<open>Without a manifest there is no manager, and no operation reads this store.\<close>

definition no_store :: "disk \<Rightarrow> store" where
  "no_store d = (manager_new \<lparr>mf_version = 0, mf_sources = [], mf_scenarios = []\<rparr> False DEFAULT_TTL, d)"

definition main_state :: "outside \<Rightarrow> boot_env \<Rightarrow> disk \<Rightarrow> (str, server \<times> world) result" where
  "main_state ox be d =
     rbind (map_err (\<lambda>_. ''loading playground server config'') (load (ox_env ox))) (\<lambda>cfg.
     rbind (case be_register be of Some e \<Rightarrow> Inl ''registering playground prometheus metrics'' | None \<Rightarrow> Inr ()) (\<lambda>_.
     (let mf = load_manifest (ox_exists ox) (ox_read_bytes ox) (be_from_slice be) (cfg_manifest_path cfg);
          store = (case mf of
                     Some m \<Rightarrow> new_with_persistence (be_rows be) (be_instant be) (be_now be) m True
                                 (cfg_session_ttl cfg) (cfg_data_dir cfg) d
                   | None \<Rightarrow> no_store d)
      in if be_bind be (cfg_bind_addr cfg) \<noteq> None then Inl (''binding '' @ cfg_bind_addr cfg)
         else Inr (\<lparr>srv_config = cfg, srv_sessions = (mf \<noteq> None), srv_api = boot_api_client be cfg,
               srv_dispatcher = build_dispatcher\<rparr>,
              \<lparr>w_store = store, w_quota = with_limit (cfg_session_quota_per_day cfg),
               w_pools = \<lparr>pl_pg = None, pl_mysql = False, pl_clickhouse = None, pl_redis = None\<rparr>,
               w_log = [], w_metrics = [], w_tick = 0\<rparr>))))"

lemma main_state_Inr:
  assumes "main_state ox be d = Inr (srv, w)"
  shows "load (ox_env ox) = Inr (srv_config srv)" and "srv_api srv = boot_api_client be (srv_config srv)"
    and "w_quota w = with_limit (cfg_session_quota_per_day (srv_config srv))" and "w_log w = []" "w_tick w = 0"
    and "(case load_manifest (ox_exists ox) (ox_read_bytes ox) (be_from_slice be) (cfg_manifest_path (srv_config srv)) of
            None \<Rightarrow> \<not> srv_sessions srv
          | Some mf \<Rightarrow> srv_sessions srv \<and>
              w_store w = new_with_persistence (be_rows be) (be_instant be) (be_now be) mf True
                (cfg_session_ttl (srv_config srv)) (cfg_data_dir (srv_config srv)) d)"
  using assms
  by (cases "load (ox_env ox)"; cases "be_register be"; auto simp: main_state_def Let_def split: option.splits if_splits)+

lemma hydrated_sessions:
  assumes "hm_get (fst (hydrate_from_disk dec bt now rd)) i = Some s"
  shows "s_id s = i \<and> survives now s"
  using assms
  by (auto simp: hydrate_from_disk_def hydrate_rows_fold hm.get_empty hm.fold_ins [OF hm.good_empty, THEN conjunct2]
      split: option.splits dest!: map_of_SomeD)

lemma restarted_store:
  "sm_sessions (fst (new_with_persistence dec bt now mf en ttl dir d)) = fst (hydrate_from_disk dec bt now (d (sessions_path dir)))"
  "sm_manifest (fst (new_with_persistence dec bt now mf en ttl dir d)) = mf"
  "sm_enabled (fst (new_with_persistence dec bt now mf en ttl dir d)) = en"
  "sm_default_ttl (fst (new_with_persistence dec bt now mf en ttl dir d)) = unwrap_or (clamp_ttl ttl) DEFAULT_TTL"
  by (simp_all add: new_with_persistence_def Let_def split: prod.split)

lemma boot_sessions:
  assumes run: "main_state ox be d = Inr (srv, w)" and on: "srv_sessions srv"
  shows "validate (sm_manifest (fst (w_store w))) = Inr ()" and "sm_enabled (fst (w_store w))"
    and "MIN_TTL \<le> sm_default_ttl (fst (w_store w))" and "sm_default_ttl (fst (w_store w)) \<le> MAX_TTL"
    and "hm_get (sm_sessions (fst (w_store w))) i = Some s \<Longrightarrow> s_id s = i \<and> survives (be_now be) s"
proof -
  obtain mf where mf: "load_manifest (ox_exists ox) (ox_read_bytes ox) (be_from_slice be)
        (cfg_manifest_path (srv_config srv)) = Some mf"
    and store: "w_store w = new_with_persistence (be_rows be) (be_instant be) (be_now be) mf True
            (cfg_session_ttl (srv_config srv)) (cfg_data_dir (srv_config srv)) d"
    using main_state_Inr(6) [OF run] on by (auto split: option.splits)
  show "validate (sm_manifest (fst (w_store w))) = Inr ()"
    using mf manifest_load_ok first_valid_ok unfolding load_manifest_def validate_ok store restarted_store by blast
  show "sm_enabled (fst (w_store w))" "MIN_TTL \<le> sm_default_ttl (fst (w_store w))"
      "sm_default_ttl (fst (w_store w)) \<le> MAX_TTL"
    unfolding store restarted_store using default_ttl_in_range by simp_all
  show "s_id s = i \<and> survives (be_now be) s" if "hm_get (sm_sessions (fst (w_store w))) i = Some s"
    using that unfolding store restarted_store by (rule hydrated_sessions)
qed

lemma boot_api_client_iff:
  assumes "load (ox_env ox) = Inr cfg"
  shows "boot_api_client be cfg \<noteq> None \<longleftrightarrow>
         (\<exists>v. ox_env ox ''PLAYGROUND_API_BASE_URL'' = Some v \<and> trim v \<noteq> []) \<and>
         (\<exists>v. ox_env ox ''PLAYGROUND_SERVICE_TOKEN'' = Some v \<and> v \<noteq> []) \<and>
         be_http_build be (cfg_api_timeout cfg) = None"
  unfolding boot_api_client_def load_options(2,3) [OF assms]
  by (cases "ox_env ox ''PLAYGROUND_API_BASE_URL''"; cases "ox_env ox ''PLAYGROUND_SERVICE_TOKEN''")
    (auto split: option.split)

subsection \<open>Properties\<close>

text \<open>C20: The server starts exactly when its configuration parses, its metrics register and its address can
  be bound, and starts right. Nothing is sent while it starts. Sessions are offered exactly if a manifest was found, and
  that manifest has passed validation; the default lifetime is between five minutes and eight hours
  whatever was configured; every session taken over from the file is stored under its own id, is not
  ended and has not expired on the wall clock; the API client exists exactly when base URL and
  service token are both configured, not blank, and the HTTP client could be built; the daily quota is
  the configured one.\<close>

theorem boot_wires_server:
  "(is_ok (main_state ox be d) \<longleftrightarrow>
      (\<exists>cfg. load (ox_env ox) = Inr cfg \<and> be_register be = None \<and> be_bind be (cfg_bind_addr cfg) = None)) \<and>
   (main_state ox be d = Inr (srv, w) \<longrightarrow>
      w_log w = [] \<and>
      (srv_sessions srv \<longrightarrow>
         validate (sm_manifest (fst (w_store w))) = Inr () \<and> sm_enabled (fst (w_store w)) \<and>
         MIN_TTL \<le> sm_default_ttl (fst (w_store w)) \<and> sm_default_ttl (fst (w_store w)) \<le> MAX_TTL \<and>
         (hm_get (sm_sessions (fst (w_store w))) i = Some s \<longrightarrow>
            s_id s = i \<and> s_status s \<noteq> Ended \<and> be_now be < s_expires_at s)) \<and>
      (srv_api srv \<noteq> None \<longleftrightarrow>
         (\<exists>v. ox_env ox ''PLAYGROUND_API_BASE_URL'' = Some v \<and> trim v \<noteq> []) \<and>
         (\<exists>v. ox_env ox ''PLAYGROUND_SERVICE_TOKEN'' = Some v \<and> v \<noteq> []) \<and>
         be_http_build be (cfg_api_timeout (srv_config srv)) = None) \<and>
      q_max_per_day (w_quota w) = cfg_session_quota_per_day (srv_config srv))"
proof -
  have "is_ok (main_state ox be d) \<longleftrightarrow>
      (\<exists>cfg. load (ox_env ox) = Inr cfg \<and> be_register be = None \<and> be_bind be (cfg_bind_addr cfg) = None)"
    by (cases "load (ox_env ox)"; cases "be_register be") (simp_all add: main_state_def Let_def)
  moreover have "w_log w = [] \<and> srv_api srv = boot_api_client be (srv_config srv) \<and>
      load (ox_env ox) = Inr (srv_config srv) \<and> q_max_per_day (w_quota w) = cfg_session_quota_per_day (srv_config srv)"
    if "main_state ox be d = Inr (srv, w)"
    using main_state_Inr [OF that] by (simp add: with_limit_def)
  ultimately show ?thesis
    using boot_sessions [of ox be d srv w] boot_api_client_iff [of ox "srv_config srv" be]
    unfolding survives_def by (auto simp del: not_None_eq)
qed

definition demo_boot :: boot_env where
  "demo_boot =
     \<lparr>be_from_slice = (\<lambda>_. Inr demo_manifest), be_rows = (\<lambda>_. Some (persist_snapshot demo_manager)),
      be_instant = (\<lambda>_. 3), be_now = 6000, be_register = None, be_http_build = (\<lambda>_. None),
      be_bind = (\<lambda>_. None)\<rparr>"

definition boot_outside :: outside where
  "boot_outside = late_outside
     \<lparr>ox_env := [''PLAYGROUND_API_BASE_URL'' \<mapsto> ''http://api:8080'', ''PLAYGROUND_SERVICE_TOKEN'' \<mapsto> ''svc''],
      ox_exists := (\<lambda>_. True), ox_read_bytes := (\<lambda>_. Inr ''bytes'')\<rparr>"

lemma demo_boots:
  "\<exists>srv w. main_state boot_outside demo_boot d = Inr (srv, w) \<and> srv_sessions srv \<and>
     cfg_data_dir (srv_config srv) = ''/var/lib/datashuttle-playground''"
proof -
  have mf: "load_manifest (ox_exists boot_outside) (ox_read_bytes boot_outside) (be_from_slice demo_boot) p = Some demo_manifest" for p
    by (simp add: boot_outside_def demo_boot_def load_manifest_def manifest_candidates_def manifest_load_def demo_valid
        split: option.split)
  have "is_ok (load (ox_env boot_outside))" by (simp add: load_ok_iff boot_outside_def)
  then obtain cfg where cfg: "load (ox_env boot_outside) = Inr cfg" by (cases "load (ox_env boot_outside)") auto
  have "cfg_data_dir cfg = ''/var/lib/datashuttle-playground''"
    using load_options(5) [OF cfg] by (simp add: boot_outside_def)
  then show ?thesis
    using mf [of "cfg_manifest_path cfg"] by (simp add: main_state_def cfg Let_def) (simp add: demo_boot_def)
qed

theorem boot_wires_server_witness:
  "\<exists>srv w. main_state boot_outside demo_boot Map.empty = Inr (srv, w) \<and> srv_sessions srv \<and>
     validate (sm_manifest (fst (w_store w))) = Inr () \<and> srv_api srv \<noteq> None"
proof -
  obtain srv w where run: "main_state boot_outside demo_boot Map.empty = Inr (srv, w)" and on: "srv_sessions srv"
    using demo_boots by blast
  have "trim ''http://api:8080'' \<noteq> []" by code_simp
  then show ?thesis
    using boot_wires_server [of boot_outside demo_boot Map.empty srv w] run on
    by (auto simp: boot_outside_def demo_boot_def)
qed

text \<open>C19: The reaper survives a restart, for the sessions that do. Let the file hold the sessions of a
  consistent manager and the server start from it. If nothing else runs, the first tick of the reaper
  removes exactly the restored sessions that have expired by then and sends their deletes: after it the
  manager holds the restored sessions that have not, and nothing else. The sessions whose deadline
  passed while the server was down are not restored: the tick sends no delete of theirs, which are left
  to the one sweep at start.\<close>

theorem reaper_survives_restart:
  assumes run: "main_state ox be d = Inr (srv, w)" and on: "srv_sessions srv" and api: "srv_api srv = Some api"
    and inv: "manager_inv sha256 m" and digest: "\<And>x. length (sha256 x) = 32"
    and saved: "d (sessions_path (cfg_data_dir (srv_config srv))) = Some b" and codec: "be_rows be b = Some (persist_snapshot m)"
    and delete: "ox_method_error ox ''DELETE'' = None" and alone: "ox_others ox 0 (w_store w) = w_store w"
  shows "\<exists>gone es. distinct gone \<and>
           set gone = {i. \<exists>s. hm_get (sm_sessions m) i = Some s \<and> be_now be < s_expires_at s \<and>
                          is_expired (ox_clock ox 0 (unat i)) (session_of_row (be_instant be i) (session_row.truncate s))} \<and>
           w_log (snd (run_state (reaper_tick ox srv) w)) = es \<and>
           filter api_event es =
             concat (map (\<lambda>i. (let s = the (hm_get (sm_sessions m) i) in deletes_of api (reaper_identity s) s)) gone) \<and>
           (\<forall>i. hm_get (sm_sessions (fst (w_store (snd (run_state (reaper_tick ox srv) w))))) i =
                  (case hm_get (sm_sessions m) i of
                     None \<Rightarrow> None
                   | Some s \<Rightarrow> if s_expires_at s \<le> be_now be \<or> i \<in> set gone then None
                               else Some (session_of_row (be_instant be i) (session_row.truncate s)))) \<and>
           (\<forall>i s. hm_get (sm_sessions m) i = Some s \<and> s_expires_at s \<le> be_now be \<longrightarrow>
              i \<notin> set gone \<and> hm_get (sm_sessions (fst (w_store w))) i = None)"
proof -
  obtain mf where store: "w_store w = new_with_persistence (be_rows be) (be_instant be) (be_now be) mf True
            (cfg_session_ttl (srv_config srv)) (cfg_data_dir (srv_config srv)) d"
    using main_state_Inr(6) [OF run] on by (auto split: option.splits)
  obtain m2 d2 where m2: "w_store w = (m2, d2)" by fastforce
  note restored = restart_state [OF inv saved codec store [symmetric, unfolded m2]]
  have get: "hm_get (sm_sessions m2) i = Some s2 \<longleftrightarrow>
      (\<exists>s. hm_get (sm_sessions m) i = Some s \<and> be_now be < s_expires_at s \<and>
           s2 = session_of_row (be_instant be i) (session_row.truncate s))" for i s2
    unfolding restored(5) session_of_row_truncate ..
  have tick: "ox_others ox (w_tick w) (w_store w) = (m2, d2)" "w_log w = []" "w_tick w = 0"
    using alone m2 main_state_Inr [OF run] by simp_all
  obtain gone es where gone: "distinct gone"
      "set gone = {i. \<exists>s. hm_get (sm_sessions m2) i = Some s \<and> is_expired (ox_clock ox (w_tick w) (unat i)) s}"
      "w_log (snd (run_state (reaper_tick ox srv) w)) = w_log w @ es"
      "filter api_event es = concat (map (\<lambda>i. (let s = the (hm_get (sm_sessions m2) i) in deletes_of api (reaper_identity s) s)) gone)"
      "\<And>i. hm_get (sm_sessions (fst (w_store (snd (run_state (reaper_tick ox srv) w))))) i =
         (if i \<in> set gone then None else hm_get (sm_sessions m2) i)"
    using reaper_tick_clears [OF api on delete tick(1) restored(6) digest] by blast
  have same: "(let s = the (hm_get (sm_sessions m2) i) in deletes_of api (reaper_identity s) s) =
      (let s = the (hm_get (sm_sessions m) i) in deletes_of api (reaper_identity s) s)" if i: "i \<in> set gone" for i
  proof -
    obtain s2 where s2: "hm_get (sm_sessions m2) i = Some s2" using i unfolding gone(2) by blast
    then obtain s where "hm_get (sm_sessions m) i = Some s" "s2 = rehydrated (be_instant be i) s"
      unfolding get session_of_row_truncate by blast
    with s2 show ?thesis by (simp add: rehydrated_def deletes_of_def reaper_identity_def)
  qed
  have "map (\<lambda>i. (let s = the (hm_get (sm_sessions m2) i) in deletes_of api (reaper_identity s) s)) gone =
      map (\<lambda>i. (let s = the (hm_get (sm_sessions m) i) in deletes_of api (reaper_identity s) s)) gone"
    using same by (intro map_cong) simp_all
  with gone(4) have sent: "filter api_event es =
      concat (map (\<lambda>i. (let s = the (hm_get (sm_sessions m) i) in deletes_of api (reaper_identity s) s)) gone)"
    by simp
  have lost: "hm_get (sm_sessions m2) i = None" if "hm_get (sm_sessions m) i = Some s" "s_expires_at s \<le> be_now be" for i s
    using get [of i] that by (cases "hm_get (sm_sessions m2) i") auto
  have ids: "set gone = {i. \<exists>s. hm_get (sm_sessions m) i = Some s \<and> be_now be < s_expires_at s \<and>
      is_expired (ox_clock ox 0 (unat i)) (session_of_row (be_instant be i) (session_row.truncate s))}"
    unfolding gone(2) get tick(3) by blast
  have kept: "hm_get (sm_sessions m2) i =
      (case hm_get (sm_sessions m) i of
         None \<Rightarrow> None
       | Some s \<Rightarrow> if s_expires_at s \<le> be_now be then None
                   else Some (session_of_row (be_instant be i) (session_row.truncate s)))" for i
    by (rule option_eqI) (auto simp: get not_le split: option.splits)
  have left: "\<forall>i. hm_get (sm_sessions (fst (w_store (snd (run_state (reaper_tick ox srv) w))))) i =
      (case hm_get (sm_sessions m) i of
         None \<Rightarrow> None
       | Some s \<Rightarrow> if s_expires_at s \<le> be_now be \<or> i \<in> set gone then None
                   else Some (session_of_row (be_instant be i) (session_row.truncate s)))"
    unfolding gone(5) kept by (simp split: option.split)
  have down: "\<forall>i s. hm_get (sm_sessions m) i = Some s \<and> s_expires_at s \<le> be_now be \<longrightarrow>
      i \<notin> set gone \<and> hm_get (sm_sessions m2) i = None"
    using lost by (auto simp: ids)
  show ?thesis
    using gone(1) ids gone(3) [unfolded tick(2) append_Nil] sent left down
    unfolding m2 fst_conv by (intro exI [of _ gone] exI [of _ es] conjI)
qed

theorem reaper_survives_restart_witness:
  "\<exists>srv w. main_state boot_outside demo_boot (\<lambda>_. Some ''rows'') = Inr (srv, w) \<and>
     (\<exists>api. srv_api srv = Some api \<and>
        EHttp (api_call api ''DELETE'' (''/api/v1/shuttles/'' @ s_shuttle_name demo_session) None (reaper_identity demo_session))
          \<in> set (w_log (snd (run_state (reaper_tick boot_outside srv) w))))"
proof -
  let ?d = "\<lambda>_. Some ''rows''"
  obtain srv w where run: "main_state boot_outside demo_boot ?d = Inr (srv, w)" and on: "srv_sessions srv"
    using demo_boots by blast
  have "trim ''http://api:8080'' \<noteq> []" by code_simp
  then have "boot_api_client demo_boot (srv_config srv) \<noteq> None"
    unfolding boot_api_client_iff [OF main_state_Inr(1) [OF run]] by (simp add: boot_outside_def demo_boot_def)
  then obtain api where api: "srv_api srv = Some api" unfolding main_state_Inr(2) [OF run, symmetric] by blast
  have codec: "be_rows demo_boot ''rows'' = Some (persist_snapshot demo_manager)" by (simp add: demo_boot_def)
  have env: "ox_method_error boot_outside ''DELETE'' = None" "ox_others boot_outside 0 (w_store w) = w_store w"
    "length (demo_sha x) = 32" for x
    by (simp_all add: boot_outside_def late_outside_def demo_outside_def demo_sha_def)
  obtain gone es where gone: "set gone = {i. \<exists>s. hm_get (sm_sessions demo_manager) i = Some s \<and> be_now demo_boot < s_expires_at s \<and>
          is_expired (ox_clock boot_outside 0 (unat i)) (session_of_row (be_instant demo_boot i) (session_row.truncate s))}"
      "w_log (snd (run_state (reaper_tick boot_outside srv) w)) = es"
      "filter api_event es =
         concat (map (\<lambda>i. (let s = the (hm_get (sm_sessions demo_manager) i) in deletes_of api (reaper_identity s) s)) gone)"
    using reaper_survives_restart [OF run on api demo_inv env(3) refl codec env(1,2)] by blast
  have "be_now demo_boot < s_expires_at demo_session"
    "is_expired (ox_clock boot_outside 0 n) (session_of_row (be_instant demo_boot 7) (session_row.truncate demo_session))" for n
    by (simp_all add: demo_boot_def boot_outside_def late_outside_def session_of_row_truncate is_expired_def demo_session_def
        session_new_def demo_clock_def from_std_def ttl_defs)
  then have "7 \<in> set gone" unfolding gone(1) using demo_get by fastforce
  then have "EHttp (api_call api ''DELETE'' (''/api/v1/shuttles/'' @ s_shuttle_name demo_session) None
      (reaper_identity demo_session)) \<in> set (filter api_event es)"
    unfolding gone(3) using demo_get by (force simp: deletes_of_def teardown_deletes_def Let_def)
  then show ?thesis using run api gone(2) by auto
qed

end
