(* ===== verification/Session_Refinement.thy ===== *)
theory Session_Refinement
  imports Session_Machine
begin

text \<open>
  What the session manager promises, without its maps: a table of leases. A lease has a holder and
  the last moment it is good for on each clock; it is granted to a user without a live lease, prolonged
  while it is live to at most eight hours, given back by its holder, and cleared once it has lapsed.
  The machine of \<open>Session_Machine\<close> refines this specification under \<open>lease_state\<close>, which
  forgets the user pointers, the event logs, the names and the file. The simulation is an
  interpretation of the locale \<open>simulation\<close>, whose lemmas carry what holds of every run of the
  specification over to the manager.
\<close>

subsection \<open>Simulations\<close>

locale simulation =
  fixes start :: "'c \<Rightarrow> bool" and step :: "'c \<Rightarrow> 'c \<Rightarrow> bool" and inv :: "'c \<Rightarrow> bool"
    and spec_start :: "'a \<Rightarrow> bool" and spec_step :: "'a \<Rightarrow> 'a \<Rightarrow> bool" and abst :: "'c \<Rightarrow> 'a"
  assumes start_inv: "start a \<Longrightarrow> inv a"
    and start_sim: "start a \<Longrightarrow> spec_start (abst a)"
    and step_inv: "inv a \<Longrightarrow> step a b \<Longrightarrow> inv b"
    and step_sim: "inv a \<Longrightarrow> step a b \<Longrightarrow> spec_step (abst a) (abst b)"
begin

lemma run_inv: "rtranclp step a b \<Longrightarrow> start a \<Longrightarrow> inv b"
  by (induction rule: rtranclp_induct) (auto intro: start_inv step_inv)

lemma run_sim: "rtranclp step a b \<Longrightarrow> start a \<Longrightarrow> rtranclp spec_step (abst a) (abst b)"
proof (induction rule: rtranclp_induct)
  case (step b c)
  then have "spec_step (abst b) (abst c)" using run_inv step_sim by blast
  with step show ?case by (auto intro: rtranclp.rtrancl_into_rtrancl)
qed simp

lemma run_carries:
  assumes "rtranclp step a b" and "start a"
    and "\<And>x. spec_start x \<Longrightarrow> J x" and "\<And>x y. J x \<Longrightarrow> spec_step x y \<Longrightarrow> J y"
  shows "J (abst b)"
proof -
  have "rtranclp spec_step (abst a) (abst b)" using run_sim assms(1,2) by blast
  then show ?thesis by (induction rule: rtranclp_induct) (use assms start_sim in blast)+
qed

end

subsection \<open>Leases\<close>

record lease =
  le_user :: str
  le_mono :: instant
  le_utc :: utc_time

type_synonym leases = "uuid \<Rightarrow> lease option"

definition lapsed :: "clock \<Rightarrow> lease \<Rightarrow> bool" where
  "lapsed c l \<longleftrightarrow> le_mono l < mono c \<or> le_utc l \<le> utc c"

inductive lease_step :: "leases \<times> clock \<Rightarrow> leases \<times> clock \<Rightarrow> bool" where
  wait: "clk_le c c' \<Longrightarrow> lease_step (L, c) (L, c')"
| grant: "clk_le c c1 \<Longrightarrow> clk_le c1 c2 \<Longrightarrow> L i = None \<Longrightarrow>
    (\<forall>j l. L j = Some l \<and> le_user l = u \<longrightarrow> lapsed c1 l) \<Longrightarrow> MIN_TTL \<le> t \<Longrightarrow> t \<le> MAX_TTL \<Longrightarrow>
    lease_step (L, c) (L(i \<mapsto> \<lparr>le_user = u, le_mono = mono c2 + t, le_utc = utc c2 + int t\<rparr>), c2)"
| prolong: "clk_le c c1 \<Longrightarrow> clk_le c1 c2 \<Longrightarrow> L i = Some l \<Longrightarrow> \<not> lapsed c1 l \<Longrightarrow>
    t = (le_mono l - mono c1) + extra \<Longrightarrow> t \<le> MAX_TTL \<Longrightarrow>
    lease_step (L, c) (L(i \<mapsto> l\<lparr>le_mono := mono c2 + t, le_utc := utc c2 + int t\<rparr>), c2)"
| release: "L i = Some l \<Longrightarrow> lease_step (L, c) (L(i := None), c)"
| clear: "clk_le c c' \<Longrightarrow> (\<forall>i l. L i = Some l \<longrightarrow> (i \<in> X \<longrightarrow> lapsed c' l) \<and> (lapsed c l \<longrightarrow> i \<in> X)) \<Longrightarrow>
    lease_step (L, c) (\<lambda>i. if i \<in> X then None else L i, c')"

definition lease_start :: "leases \<times> clock \<Rightarrow> bool" where
  "lease_start x \<longleftrightarrow> fst x = Map.empty"

lemma lapsed_later: "lapsed c l \<Longrightarrow> clk_le c c' \<Longrightarrow> lapsed c' l"
  by (auto simp: lapsed_def clk_le_def)

text \<open>
  Two facts of every run of the specification: a user holds at most one live lease, and none is
  good for more than eight hours from now.
\<close>

definition sole_holders :: "leases \<times> clock \<Rightarrow> bool" where
  "sole_holders x \<longleftrightarrow>
     (\<forall>i j l k. fst x i = Some l \<and> fst x j = Some k \<and> le_user l = le_user k \<and>
        \<not> lapsed (snd x) l \<and> \<not> lapsed (snd x) k \<longrightarrow> i = j)"

definition short_leases :: "leases \<times> clock \<Rightarrow> bool" where
  "short_leases x \<longleftrightarrow>
     (\<forall>i l. fst x i = Some l \<longrightarrow> le_mono l \<le> mono (snd x) + MAX_TTL \<and> le_utc l \<le> utc (snd x) + int MAX_TTL)"

lemma sole_holdersD:
  "sole_holders (L, c) \<Longrightarrow> clk_le c c' \<Longrightarrow> L i = Some l \<Longrightarrow> L j = Some k \<Longrightarrow> le_user l = le_user k \<Longrightarrow>
     \<not> lapsed c' l \<Longrightarrow> \<not> lapsed c' k \<Longrightarrow> i = j"
  unfolding sole_holders_def fst_conv snd_conv using lapsed_later by blast

lemma sole_holders_step:
  assumes "lease_step x y" and "sole_holders x"
  shows "sole_holders y"
  using assms
proof (induction rule: lease_step.induct)
  case (grant c c1 c2 L i u t)
  have "lapsed c2 l" if "L j = Some l" "le_user l = u" for j l
    using grant(4) lapsed_later [OF _ grant(2)] that by blast
  then show ?case
    using sole_holdersD [OF grant(7) clk_le_trans [OF grant(1,2)]]
    unfolding sole_holders_def fst_conv snd_conv by (auto split: if_splits)
next
  case (prolong c c1 c2 L i l t extra)
  have "j = i" if "L j = Some k" "le_user k = le_user l" "\<not> lapsed c2 k" for j k
    using sole_holdersD [OF prolong(7,1) that(1) prolong(3) that(2) _ prolong(4)] lapsed_later [OF _ prolong(2)] that(3)
    by blast
  then show ?case
    using sole_holdersD [OF prolong(7) clk_le_trans [OF prolong(1,2)]]
    unfolding sole_holders_def fst_conv snd_conv by (auto split: if_splits)
next
  case (wait c c' L)
  then show ?case
    using sole_holdersD [OF wait(2,1)] unfolding sole_holders_def fst_conv snd_conv by blast
next
  case (clear c c' L X)
  then show ?case
    using sole_holdersD [OF clear(3,1)] unfolding sole_holders_def fst_conv snd_conv by (auto split: if_splits)
qed (auto simp: sole_holders_def split: if_splits)

lemma short_leases_step: "short_leases x \<Longrightarrow> lease_step x y \<Longrightarrow> short_leases y"
proof -
  assume short: "short_leases x" and "lease_step x y"
  from this(2) show "short_leases y"
    by (cases rule: lease_step.cases) (use short in \<open>fastforce simp: short_leases_def clk_le_def\<close>)+
qed

subsection \<open>The manager as a table of leases\<close>

definition lease_of :: "session \<Rightarrow> lease" where
  "lease_of s = \<lparr>le_user = s_user_id s, le_mono = s_created_monotonic s + s_ttl s, le_utc = s_expires_at s\<rparr>"

definition leases_of :: "session_manager \<Rightarrow> leases" where
  "leases_of m i = map_option lease_of (hm_get (sm_sessions m) i)"

definition lease_state :: "mgr_config \<Rightarrow> leases \<times> clock" where
  "lease_state a = (leases_of (fst (fst a)), snd a)"

lemma lapsed_lease_of [simp]: "lapsed c (lease_of s) \<longleftrightarrow> is_expired c s"
  by (auto simp: lapsed_def lease_of_def is_expired_def elapsed_def)

lemma leases_ofI: "hm_get (sm_sessions m) i = Some s \<Longrightarrow> leases_of m i = Some (lease_of s)"
  by (simp add: leases_of_def)

definition booked :: "mgr_config \<Rightarrow> bool" where
  "booked a \<longleftrightarrow> (\<forall>i s. hm_get (sm_sessions (fst (fst a))) i = Some s \<longrightarrow> s_created_monotonic s \<le> mono (snd a))"

definition sim_inv :: "(str \<Rightarrow> u8 list) \<Rightarrow> mgr_config \<Rightarrow> bool" where
  "sim_inv sha256 a \<longleftrightarrow> manager_inv sha256 (fst (fst a)) \<and> one_live (snd a) (fst (fst a)) \<and> booked a"

definition mgr_start :: "mgr_config \<Rightarrow> bool" where
  "mgr_start a \<longleftrightarrow> (\<exists>mf en ttl path d c. a = (((manager_new mf en ttl)\<lparr>sm_persistence_path := path\<rparr>, d), c))"

text \<open>What the steps do to the sessions.\<close>

lemma update_sessions:
  assumes "manager_inv sha256 m" and "update P i u f (m, d) = (r, st')"
  shows "hm_get (sm_sessions (fst st')) = hm_get (sm_sessions m) \<or>
         (\<exists>s. hm_get (sm_sessions m) i = Some s \<and>
              hm_get (sm_sessions (fst st')) = (hm_get (sm_sessions m))(i \<mapsto> snd (f s)))"
  using assms(2) manager_invD(1) [OF assms(1)]
  by (auto simp: update_def owned_cases Let_def split: option.splits if_splits prod.splits outcome.splits)

lemma leases_upd:
  "hm_get (sm_sessions m') = (hm_get (sm_sessions m))(i \<mapsto> s) \<Longrightarrow> leases_of m' = (leases_of m)(i \<mapsto> lease_of s)"
  by (auto simp: leases_of_def)

lemma leases_same:
  "hm_get (sm_sessions m) i = Some s \<Longrightarrow> lease_of s' = lease_of s \<Longrightarrow>
   hm_get (sm_sessions m') = (hm_get (sm_sessions m))(i \<mapsto> s') \<Longrightarrow> leases_of m' = leases_of m"
  by (auto simp: leases_of_def)

lemma leases_cong: "hm_get (sm_sessions m') = hm_get (sm_sessions m) \<Longrightarrow> leases_of m' = leases_of m"
  by (simp add: leases_of_def fun_eq_iff)

lemma notes_only_lease:
  assumes "notes_only f" shows "lease_of (snd (f s)) = lease_of s" and "s_created_monotonic (snd (f s)) = s_created_monotonic s"
proof -
  have eq: "snd (f s) = s\<lparr>s_status := s_status (snd (f s)), s_events := s_events (snd (f s))\<rparr>"
    using assms unfolding notes_only_def by blast
  show "lease_of (snd (f s)) = lease_of s" by (subst eq) (simp add: lease_of_def)
  show "s_created_monotonic (snd (f s)) = s_created_monotonic s" by (subst eq) simp
qed

lemma extend_closure_lease:
  fixes extra :: duration
  assumes "s_created_monotonic s \<le> mono c1" and "s_created_monotonic s \<le> mono c2"
  defines "t \<equiv> (le_mono (lease_of s) - mono c1) + extra"
  shows "s_created_monotonic (snd (extend_closure c1 c2 extra s)) = s_created_monotonic s"
    and "snd (extend_closure c1 c2 extra s) = s \<or>
     t \<le> MAX_TTL \<and> lease_of (snd (extend_closure c1 c2 extra s)) =
       (lease_of s)\<lparr>le_mono := mono c2 + t, le_utc := utc c2 + int t\<rparr>"
proof -
  have t: "remaining c1 s + extra = t"
    using assms(1) by (simp add: t_def remaining_def lease_of_def elapsed_def)
  show "s_created_monotonic (snd (extend_closure c1 c2 extra s)) = s_created_monotonic s"
    by (simp add: extend_closure_def extend_cases extended_def Let_def)
  show "snd (extend_closure c1 c2 extra s) = s \<or>
     t \<le> MAX_TTL \<and> lease_of (snd (extend_closure c1 c2 extra s)) =
       (lease_of s)\<lparr>le_mono := mono c2 + t, le_utc := utc c2 + int t\<rparr>"
    unfolding extend_closure_def extend_cases t Let_def
    using assms(2) by (simp add: extended_def lease_of_def elapsed_def)
qed

lemma sweep_leases:
  assumes "manager_inv sha256 m" and "sweep_expired P clk (m, d) = (gone, st')"
  shows "leases_of (fst st') =
           (\<lambda>i. if i \<in> {i. \<exists>l. leases_of m i = Some l \<and> lapsed (clk i) l} then None else leases_of m i)"
proof
  fix i
  have "hm_get (sm_sessions (fst st')) i = opt_filter (\<lambda>s. \<not> is_expired (clk i) s) (hm_get (sm_sessions m) i)"
    using sweep_expired_laws(2) [OF assms(1), of P clk d i] assms(2) by simp
  then show "leases_of (fst st') i =
      (if i \<in> {i. \<exists>l. leases_of m i = Some l \<and> lapsed (clk i) l} then None else leases_of m i)"
    by (cases "hm_get (sm_sessions m) i") (auto simp: leases_of_def)
qed

lemma create_leases:
  assumes inv: "manager_inv sha256 m" and one: "one_live c1 m"
    and fresh: "owner_of m i = None"
    and run: "create sha256 P c1 c2 i u t sc ttl (m, d) = (Inr s, st')"
  shows "leases_of m i = None" and "\<forall>j l. leases_of m j = Some l \<and> le_user l = u \<longrightarrow> lapsed c1 l"
    and "MIN_TTL \<le> ttl_choice m ttl" and "ttl_choice m ttl \<le> MAX_TTL"
    and "leases_of (fst st') = (leases_of m)(i \<mapsto>
           \<lparr>le_user = u, le_mono = mono c2 + ttl_choice m ttl, le_utc = utc c2 + int (ttl_choice m ttl)\<rparr>)"
proof -
  from run have s: "s = session_new sha256 c2 i u t sc (ttl_choice m ttl)" and free: "holds_live c1 m u = None"
    and ok: "ttl_accepted ttl" and st: "fst st' = create_state m s"
    by (auto simp: create_cases Let_def split: option.splits if_splits)
  show "leases_of m i = None" using fresh by (simp add: leases_of_def owner_of_def)
  show range: "MIN_TTL \<le> ttl_choice m ttl" "ttl_choice m ttl \<le> MAX_TTL"
    using ok manager_invD(5,6) [OF inv] by (auto simp: ttl_choice_def ttl_accepted_def split: option.splits)
  have "is_expired c1 x" if x: "hm_get (sm_sessions m) j = Some x" "s_user_id x = u" for j x
  proof (rule ccontr)
    assume live: "\<not> is_expired c1 x"
    then have "hm_get (sm_per_user m) u = Some j" using one_liveD [OF one x(1)] x(2) by simp
    moreover have "s_status x \<noteq> Ended" using manager_invD(3) [OF inv x(1)] by (simp add: session_ok_def)
    ultimately show False using free live x(1) by (simp add: holds_live_def)
  qed
  then show "\<forall>j l. leases_of m j = Some l \<and> le_user l = u \<longrightarrow> lapsed c1 l"
    by (auto simp: leases_of_def) (auto simp: lease_of_def)
  have "hm_get (sm_sessions (fst st')) = (hm_get (sm_sessions m))(i \<mapsto> s)"
    using manager_invD(1) [OF inv] by (simp add: st create_state_def s)
  moreover have "lease_of s =
      \<lparr>le_user = u, le_mono = mono c2 + ttl_choice m ttl, le_utc = utc c2 + int (ttl_choice m ttl)\<rparr>"
    using range by (simp add: s lease_of_def session_new_def from_std_max_ttl)
  ultimately show "leases_of (fst st') = (leases_of m)(i \<mapsto>
      \<lparr>le_user = u, le_mono = mono c2 + ttl_choice m ttl, le_utc = utc c2 + int (ttl_choice m ttl)\<rparr>)"
    using leases_upd by metis
qed

lemma create_refused: "create sha256 P c1 c2 i u t sc ttl st = (Inl e, st') \<Longrightarrow> fst st' = fst st"
  by (cases st) (auto simp: create_cases Let_def split: option.splits if_splits)

lemma create_admitted:
  "create sha256 P c1 c2 i u t sc ttl st = (Inr s, st') \<Longrightarrow>
     s = session_new sha256 c2 i u t sc (ttl_choice (fst st) ttl) \<and> fst st' = create_state (fst st) s"
  by (cases st) (auto simp: create_cases Let_def split: option.splits if_splits)

lemma end_sessions:
  assumes "manager_inv sha256 (fst st)" and "end_session_of P i u st = (r, st')"
  shows "hm_get (sm_sessions (fst st')) = hm_get (sm_sessions (fst st)) \<or>
         (\<exists>s. hm_get (sm_sessions (fst st)) i = Some s \<and>
              hm_get (sm_sessions (fst st')) = (hm_get (sm_sessions (fst st)))(i := None))"
  using assms(2) manager_invD(1) [OF assms(1)]
  by (cases st) (auto simp: end_session_of_def owned_cases Let_def split: option.splits if_splits)

lemma end_leases:
  assumes "manager_inv sha256 (fst st)" and "end_session_of P i u st = (r, st')"
  shows "leases_of (fst st') = leases_of (fst st) \<or>
         (\<exists>l. leases_of (fst st) i = Some l \<and> leases_of (fst st') = (leases_of (fst st))(i := None))"
  using end_sessions [OF assms] by (auto simp: leases_of_def fun_eq_iff)

lemma touch_leases:
  assumes "manager_inv sha256 m" and "touch_action t1 t2 i u m = (r, m')"
  shows "leases_of m' = leases_of m"
  using assms(2) manager_invD(1) [OF assms(1)]
  by (auto simp: touch_action_def owned_cases leases_of_def lease_of_def fun_eq_iff Let_def split: option.splits if_splits)

lemma prolong_leases:
  assumes inv: "manager_inv sha256 m" and run: "update P i u (extend_closure c1 c2 extra) (m, d) = (r, st')"
    and born: "\<And>s. hm_get (sm_sessions m) i = Some s \<Longrightarrow> s_created_monotonic s \<le> mono c1 \<and> s_created_monotonic s \<le> mono c2"
  shows "leases_of (fst st') = leases_of m \<or>
         (\<exists>l t. leases_of m i = Some l \<and> t = (le_mono l - mono c1) + extra \<and> t \<le> MAX_TTL \<and>
            leases_of (fst st') = (leases_of m)(i \<mapsto> l\<lparr>le_mono := mono c2 + t, le_utc := utc c2 + int t\<rparr>))"
  using update_sessions [OF inv run]
proof
  assume "\<exists>s. hm_get (sm_sessions m) i = Some s \<and>
      hm_get (sm_sessions (fst st')) = (hm_get (sm_sessions m))(i \<mapsto> snd (extend_closure c1 c2 extra s))"
  then obtain s where s: "hm_get (sm_sessions m) i = Some s"
    and upd: "leases_of (fst st') = (leases_of m)(i \<mapsto> lease_of (snd (extend_closure c1 c2 extra s)))"
    using leases_upd by blast
  from extend_closure_lease(2) [OF born [OF s, THEN conjunct1] born [OF s, THEN conjunct2], of extra]
  show ?thesis
    unfolding upd using leases_ofI [OF s] by (auto simp: fun_upd_idem)
qed (blast dest: leases_cong)

subsection \<open>The simulation\<close>

text \<open>No session was created in the future.\<close>

lemma booked_step:
  assumes "mgr_step sha256 careful (st, c) (st', c')" and inv: "manager_inv sha256 (fst st)" and booked: "booked (st, c)"
  shows "booked (st', c')"
  using assms(1)
proof (cases rule: mgr_step.cases)
  case tick
  then show ?thesis using booked by (fastforce simp: booked_def clk_le_def)
next
  case (created i c1 P u t sc ttl r)
  then have "mono c \<le> mono c'" by (simp add: clk_le_def)
  with booked have "\<forall>i s. hm_get (sm_sessions (fst st)) i = Some s \<longrightarrow> s_created_monotonic s \<le> mono c'"
    by (fastforce simp: booked_def)
  moreover have "create sha256 P c1 c' i u t sc ttl (fst st, snd st) = (r, st')" using created by simp
  ultimately show ?thesis
    using manager_invD(1) [OF inv]
    by (cases r) (auto dest!: create_refused create_admitted simp: booked_def create_state_def split: if_splits)
next
  case (noted f P i u r)
  then have "update P i u f (fst st, snd st) = (r, st')" by simp
  from update_sessions [OF inv this] show ?thesis
    using booked noted(1) notes_only_lease(2) [OF noted(2)] by (auto simp: booked_def split: if_splits)
next
  case (prolonged c1 i P u extra r)
  then have "update P i u (extend_closure c1 c' extra) (fst st, snd st) = (r, st')" and "mono c \<le> mono c'"
    by (auto simp: clk_le_def)
  from update_sessions [OF inv this(1)] this(2) show ?thesis
    using booked by (fastforce simp: booked_def extend_closure_def extend_cases extended_def Let_def)
next
  case (ended P i u r)
  from end_sessions [OF inv ended(2)] show ?thesis
    using booked ended(1) by (auto simp: booked_def split: if_splits)
next
  case (touched t1 t2 i u m r m' d)
  then show ?thesis
    using booked manager_invD(1) [OF inv]
    by (auto simp: booked_def touch_action_def owned_cases Let_def split: option.splits if_splits)
next
  case (swept clk P gone)
  then have "mono c \<le> mono c'" using clk_le_trans unfolding clk_le_def by (meson order_trans)
  moreover have "fst st' = fst (snd (sweep_expired P clk (fst st, snd st)))" using swept(2) by simp
  ultimately show ?thesis
    using booked sweep_expired_laws(2) [OF inv, of P clk "snd st"] by (fastforce simp: booked_def result_simps)
qed

lemma lease_sim_step:
  assumes "mgr_step sha256 True (st, c) (st', c')" and inv: "manager_inv sha256 (fst st)"
    and one: "one_live c (fst st)" and booked: "booked (st, c)"
  shows "lease_step (leases_of (fst st), c) (leases_of (fst st'), c')"
  using assms(1)
proof (cases rule: mgr_step.cases)
  case tick
  then show ?thesis by (simp add: lease_step.wait)
next
  case (created i c1 P u t sc ttl r)
  have run: "create sha256 P c1 c' i u t sc ttl (fst st, snd st) = (r, st')" using created by simp
  show ?thesis
  proof (cases r)
    case (Inl e)
    have "fst st' = fst st" using create_refused [OF run [unfolded Inl]] by simp
    moreover have "clk_le c c'" using created(2,3) by (rule clk_le_trans)
    ultimately show ?thesis by (simp add: lease_step.wait)
  next
    case (Inr s)
    note laws = create_leases [OF inv one_live_later [OF one created(2)] created(1) run [unfolded Inr]]
    show ?thesis unfolding laws(5) by (rule lease_step.grant [OF created(2,3) laws(1-4)])
  qed
next
  case (noted f P i u r)
  then have "update P i u f (fst st, snd st) = (r, st')" by simp
  from update_sessions [OF inv this] have "leases_of (fst st') = leases_of (fst st)"
    using leases_cong leases_same notes_only_lease(1) [OF noted(2)] by metis
  then show ?thesis using noted(1) by (simp add: lease_step.wait)
next
  case (prolonged c1 i P u extra r)
  have run: "update P i u (extend_closure c1 c' extra) (fst st, snd st) = (r, st')" using prolonged by simp
  have later: "clk_le c c'" using prolonged(1,2) by (rule clk_le_trans)
  have born: "s_created_monotonic s \<le> mono c1 \<and> s_created_monotonic s \<le> mono c'"
    if "hm_get (sm_sessions (fst st)) i = Some s" for s
    using booked that prolonged(1) later by (fastforce simp: booked_def clk_le_def)
  have live: "\<not> lapsed c1 l" if "leases_of (fst st) i = Some l" for l
    using prolonged(3) that by (auto simp: leases_of_def)
  from prolong_leases [OF inv run born] show ?thesis
    using lease_step.wait [OF later] lease_step.prolong [OF prolonged(1,2)] live by metis
next
  case (ended P i u r)
  from end_leases [OF inv ended(2)] show ?thesis
    using ended(1) lease_step.wait [OF clk_le_refl] lease_step.release by metis
next
  case (touched t1 t2 i u m r m' d)
  then have "leases_of m' = leases_of m" using touch_leases [of sha256 m] inv by simp
  then show ?thesis using touched lease_step.wait [OF clk_le_refl] by simp
next
  case (swept clk P gone)
  then have between: "clk_le c (clk i)" "clk_le (clk i) c'" for i by blast+
  have later: "clk_le c c'" using between by (rule clk_le_trans)
  have run: "sweep_expired P clk (fst st, snd st) = (gone, st')" using swept by simp
  show ?thesis
    unfolding sweep_leases [OF inv run]
    by (rule lease_step.clear [OF later])
      (auto intro: lapsed_later [OF _ between(1)] lapsed_later [OF _ between(2)])
qed

interpretation mgr_leases: simulation mgr_start "mgr_step sha256 True" "sim_inv sha256" lease_start lease_step lease_state
  for sha256
proof
  fix a assume "mgr_start a"
  then obtain mf en ttl path d c where a: "a = (((manager_new mf en ttl)\<lparr>sm_persistence_path := path\<rparr>, d), c)"
    by (auto simp: mgr_start_def)
  have "mgr_reach sha256 True mf en ttl path a" unfolding a by (rule mgr_reach.boot)
  then show "sim_inv sha256 a"
    using reach_inv reach_one_live by (fastforce simp: sim_inv_def booked_def a manager_new_def)
  show "lease_start (lease_state a)"
    by (simp add: lease_start_def lease_state_def leases_of_def a manager_new_def fun_eq_iff)
next
  fix a b assume inv: "sim_inv sha256 a" and step: "mgr_step sha256 True a b"
  have step': "mgr_step sha256 True (fst a, snd a) (fst b, snd b)" using step by simp
  show "sim_inv sha256 b"
    using manager_inv_step [OF step'] one_live_step [OF step'] booked_step [OF step'] inv by (simp add: sim_inv_def)
  show "lease_step (lease_state a) (lease_state b)"
    using lease_sim_step [OF step'] inv by (simp add: sim_inv_def lease_state_def)
qed

lemma reach_run:
  "mgr_reach sha256 careful mf en ttl path a \<Longrightarrow> \<exists>a0. mgr_start a0 \<and> rtranclp (mgr_step sha256 careful) a0 a"
proof (induction rule: mgr_reach.induct)
  case (boot d c)
  then show ?case unfolding mgr_start_def by blast
next
  case (more a b)
  then show ?case by (auto intro: rtranclp.rtrancl_into_rtrancl)
qed

lemma reach_remaining:
  assumes "mgr_reach sha256 True mf en ttl path ((m, d), c)" and "hm_get (sm_sessions m) i = Some s"
  shows "remaining c s \<le> MAX_TTL \<and> s_expires_at s \<le> utc c + int MAX_TTL"
proof -
  obtain a0 where a0: "mgr_start a0" "rtranclp (mgr_step sha256 True) a0 ((m, d), c)"
    using reach_run [OF assms(1)] by blast
  have start: "short_leases x" if "lease_start x" for x
    using that by (simp add: lease_start_def short_leases_def)
  have "short_leases (lease_state ((m, d), c))"
    using mgr_leases.run_carries [OF a0(2,1) start short_leases_step] .
  moreover have "booked ((m, d), c)" using mgr_leases.run_inv [OF a0(2,1)] by (simp add: sim_inv_def)
  ultimately show ?thesis
    using leases_ofI [OF assms(2)] assms(2)
    by (fastforce simp: short_leases_def lease_state_def lease_of_def remaining_def booked_def elapsed_def)
qed

subsection \<open>Properties\<close>

text \<open>C4: The session manager refines the table of leases. Forget the user pointers, the logs, the names
  and the file: then, as long as only live sessions are extended, every step of the manager is a step
  of the lease specification (grant to a user without a live lease, for five minutes to eight hours;
  prolong a live lease to at most eight hours from now; give back; clear exactly lapsed leases), and so
  the manager reaches only tables the specification reaches from the empty one. In particular the one
  user pointer that \<open>create\<close> consults stands for a search of the whole table.\<close>

theorem manager_refines_leases:
  assumes "mgr_reach sha256 True mf en ttl path a"
  shows "(\<exists>c0. rtranclp lease_step (Map.empty, c0) (lease_state a)) \<and>
         (mgr_step sha256 True a b \<longrightarrow> lease_step (lease_state a) (lease_state b))"
proof -
  obtain a0 where a0: "mgr_start a0" "rtranclp (mgr_step sha256 True) a0 a" using reach_run [OF assms] by blast
  have "lease_state a0 = (Map.empty, snd a0)"
    using mgr_leases.start_sim [OF a0(1)] by (simp add: lease_start_def lease_state_def)
  then have "rtranclp lease_step (Map.empty, snd a0) (lease_state a)"
    using mgr_leases.run_sim [OF a0(2,1)] by simp
  then show ?thesis using mgr_leases.run_inv [OF a0(2,1)] mgr_leases.step_sim by blast
qed

theorem manager_refines_leases_witness:
  "lease_state ((demo_after_create, Map.empty), demo_clock) = ([7 \<mapsto> lease_of demo_session], demo_clock) \<and>
   (\<exists>c0. rtranclp lease_step (Map.empty, c0) ([7 \<mapsto> lease_of demo_session], demo_clock)) \<and>
   lease_step ([7 \<mapsto> lease_of demo_session], demo_clock) ([7 \<mapsto> lease_of demo_session], demo_clock)"
proof -
  have reach: "mgr_reach demo_sha True demo_manifest True DEFAULT_TTL None ((demo_after_create, Map.empty), demo_clock)"
    using demo_reach [of True] unfolding demo_created .
  have st: "lease_state ((demo_after_create, Map.empty), demo_clock) = ([7 \<mapsto> lease_of demo_session], demo_clock)"
    by (auto simp: lease_state_def leases_of_def demo_after_create_def demo_manager_def hm_defs fun_eq_iff)
  have "mgr_step demo_sha True ((demo_after_create, Map.empty), demo_clock) ((demo_after_create, Map.empty), demo_clock)"
    by (rule mgr_step.tick) simp
  then show ?thesis using manager_refines_leases [OF reach] st by metis
qed

text \<open>No session is good for more than eight hours from now. In every run in which only live sessions
  are extended, every session held has at most the maximal lifetime left on either clock, however often
  it was extended.\<close>

theorem sessions_never_outlive_max_ttl:
  assumes "mgr_reach sha256 True mf en ttl path ((m, d), c)" and "hm_get (sm_sessions m) i = Some s"
  shows "remaining c s \<le> MAX_TTL \<and> s_expires_at s \<le> utc c + int MAX_TTL"
  by (rule reach_remaining [OF assms])

theorem sessions_never_outlive_max_ttl_witness:
  "hm_get (sm_sessions demo_after_create) 7 = Some demo_session \<and> remaining demo_clock demo_session \<le> MAX_TTL"
proof -
  have reach: "mgr_reach demo_sha True demo_manifest True DEFAULT_TTL None ((demo_after_create, Map.empty), demo_clock)"
    using demo_reach [of True] unfolding demo_created .
  have s: "hm_get (sm_sessions demo_after_create) 7 = Some demo_session"
    by (simp add: demo_after_create_def demo_manager_def hm_defs)
  show ?thesis using sessions_never_outlive_max_ttl [OF reach s] s by simp
qed

end
