(* ===== verification/Server_Machine.thy ===== *)
theory Server_Machine
  imports Boot Session_Refinement
begin

text \<open>
  The whole server as a client of the session manager's state machine. A request, a tick of the reaper
  or the sweep at start is a \<open>task\<close>; while it runs, other tasks use the manager between any two
  of its steps. \<open>Session_Machine\<close> and \<open>Session_Refinement\<close> speak about runs of the machine; here every
  computation of the handlers is shown to be such a run, so what they prove holds of the server.

  The argument is one of rely and guarantee. A \<open>regime\<close> says what a task relies on: the steps the
  others may take, the ids they may draw, clocks that do not go back and ids that do not
  repeat. It also says what the task guarantees: each of its own steps is a step of the machine and
  touches only sessions of the users it acts for. \<open>follows\<close> combines the two, and is an instance of
  \<open>world_order\<close>, so only the uses of the manager need an argument of their own.
\<close>

subsection \<open>Rely and guarantee\<close>

text \<open>Nothing changes for a user outside \<open>U\<close>: neither a session nor the pointer to it.\<close>

definition only_users :: "(str \<Rightarrow> bool) \<Rightarrow> session_manager \<Rightarrow> session_manager \<Rightarrow> bool" where
  "only_users U m m' \<longleftrightarrow>
     (\<forall>i s. \<not> U (s_user_id s) \<longrightarrow> (hm_get (sm_sessions m') i = Some s \<longleftrightarrow> hm_get (sm_sessions m) i = Some s)) \<and>
     (\<forall>u. \<not> U u \<longrightarrow> hm_get (sm_per_user m') u = hm_get (sm_per_user m) u)"

definition stored :: "session_manager \<Rightarrow> uuid set" where
  "stored m = {i. hm_get (sm_sessions m) i \<noteq> None}"

record regime =
  rg_careful :: bool
  rg_users :: "str \<Rightarrow> bool"
  rg_rely :: "mgr_config \<Rightarrow> mgr_config \<Rightarrow> bool"
  rg_foreign :: "uuid set"
  rg_limit :: nat
  rg_now :: "nat \<Rightarrow> clock"

definition own_step :: "(str \<Rightarrow> u8 list) \<Rightarrow> regime \<Rightarrow> mgr_config \<Rightarrow> mgr_config \<Rightarrow> bool" where
  "own_step sha256 g a b \<longleftrightarrow>
     mgr_step sha256 (rg_careful g) a b \<and> only_users (rg_users g) (fst (fst a)) (fst (fst b))"

definition any_step :: "(str \<Rightarrow> u8 list) \<Rightarrow> regime \<Rightarrow> mgr_config \<Rightarrow> mgr_config \<Rightarrow> bool" where
  "any_step sha256 g a b \<longleftrightarrow> rg_rely g a b \<or> own_step sha256 g a b"

text \<open>What the task relies on. The clock \<open>rg_now g n\<close> is the time after the step \<open>n - 1\<close>.\<close>

definition orderly :: "outside \<Rightarrow> regime \<Rightarrow> bool" where
  "orderly ox g \<longleftrightarrow>
     (\<forall>a b. rg_rely g a b \<longrightarrow> mgr_step (ox_sha256 ox) (rg_careful g) a b) \<and>
     (\<forall>n st. manager_inv (ox_sha256 ox) (fst st) \<longrightarrow>
        stored (fst (ox_others ox n st)) \<subseteq> stored (fst st) \<union> rg_foreign g \<and>
        (\<exists>c. rtranclp (rg_rely g) (st, rg_now g n) (ox_others ox n st, c) \<and> (\<forall>k. clk_le c (ox_clock ox n k)))) \<and>
     (\<forall>n. clk_le (ox_clock ox n 0) (ox_clock ox n 1) \<and> (\<forall>k. clk_le (ox_clock ox n k) (rg_now g (Suc n)))) \<and>
     inj_on (ox_uuid ox) {..<rg_limit g} \<and> ox_uuid ox ` {..<rg_limit g} \<inter> rg_foreign g = {}"

definition sound :: "outside \<Rightarrow> regime \<Rightarrow> world \<Rightarrow> bool" where
  "sound ox g w \<longleftrightarrow>
     manager_inv (ox_sha256 ox) (fst (w_store w)) \<and>
     stored (fst (w_store w)) \<subseteq> rg_foreign g \<union> ox_uuid ox ` {..<w_tick w}"

definition moment :: "regime \<Rightarrow> world \<Rightarrow> mgr_config" where
  "moment g w = (w_store w, rg_now g (w_tick w))"

definition follows :: "outside \<Rightarrow> regime \<Rightarrow> world \<Rightarrow> world \<Rightarrow> bool" where
  "follows ox g u v \<longleftrightarrow>
     w_tick u \<le> w_tick v \<and>
     (orderly ox g \<and> w_tick v \<le> rg_limit g \<and> sound ox g u \<longrightarrow>
        sound ox g v \<and> rtranclp (any_step (ox_sha256 ox) g) (moment g u) (moment g v))"

subsection \<open>Time\<close>

lemma step_clk: "mgr_step sha256 careful a b \<Longrightarrow> clk_le (snd a) (snd b)"
  by (induction rule: mgr_step.induct) (auto intro: clk_le_trans)

lemma orderlyD:
  assumes "orderly ox g"
  shows rely_step: "rg_rely g a b \<Longrightarrow> mgr_step (ox_sha256 ox) (rg_careful g) a b"
    and others_ids: "manager_inv (ox_sha256 ox) (fst st) \<Longrightarrow> stored (fst (ox_others ox n st)) \<subseteq> stored (fst st) \<union> rg_foreign g"
    and others_run: "manager_inv (ox_sha256 ox) (fst st) \<Longrightarrow>
      \<exists>c. rtranclp (rg_rely g) (st, rg_now g n) (ox_others ox n st, c) \<and> (\<forall>k. clk_le c (ox_clock ox n k))"
    and clocks: "clk_le (ox_clock ox n 0) (ox_clock ox n 1)" "clk_le (ox_clock ox n k) (rg_now g (Suc n))"
    and ids_once: "inj_on (ox_uuid ox) {..<rg_limit g}" "ox_uuid ox ` {..<rg_limit g} \<inter> rg_foreign g = {}"
  using assms unfolding orderly_def by metis+

lemma rely_run:
  assumes "orderly ox g" and "rtranclp (rg_rely g) a b"
  shows "clk_le (snd a) (snd b)" and "manager_inv (ox_sha256 ox) (fst (fst a)) \<Longrightarrow> manager_inv (ox_sha256 ox) (fst (fst b))"
    and "rtranclp (any_step (ox_sha256 ox) g) a b"
proof -
  from assms(2) show "clk_le (snd a) (snd b)"
    by (induction rule: rtranclp_induct) (auto intro: clk_le_trans step_clk rely_step [OF assms(1)])
  from assms(2) show "manager_inv (ox_sha256 ox) (fst (fst b))" if "manager_inv (ox_sha256 ox) (fst (fst a))"
  proof (induction rule: rtranclp_induct)
    case base
    show ?case by (rule that)
  next
    case (step b c)
    then show ?case
      using manager_inv_step [of "ox_sha256 ox" "rg_careful g" "fst b" "snd b" "fst c" "snd c"] rely_step [OF assms(1)]
      by simp
  qed
  show "rtranclp (any_step (ox_sha256 ox) g) a b"
    using assms(2) by (rule rtranclp_mono [THEN predicate2D, rotated]) (auto simp: any_step_def)
qed

lemma now_Suc:
  assumes "orderly ox g"
  shows "clk_le (rg_now g n) (rg_now g (Suc n))"
proof -
  have "manager_inv (ox_sha256 ox) (fst (manager_new undefined undefined undefined, undefined))"
    by (simp add: manager_inv_new)
  from others_run [OF assms this, of n] obtain c st where
    c: "rtranclp (rg_rely g) (st, rg_now g n) (ox_others ox n st, c)" "clk_le c (ox_clock ox n 0)" by blast
  have "clk_le (rg_now g n) c" using rely_run(1) [OF assms c(1)] by simp
  also note c(2)
  also have "clk_le (ox_clock ox n 0) (rg_now g (Suc n))" by (rule clocks(2) [OF assms])
  finally show ?thesis .
qed

lemma now_mono: "m \<le> n \<Longrightarrow> orderly ox g \<Longrightarrow> clk_le (rg_now g m) (rg_now g n)"
  by (induction rule: dec_induct) (auto intro: clk_le_trans now_Suc)

lemma only_users_refl [simp]: "only_users U m m"
  by (simp add: only_users_def)

lemma only_users_trans: "only_users U a b \<Longrightarrow> only_users U b c \<Longrightarrow> only_users U a c"
  unfolding only_users_def by simp

lemma own_tick: "clk_le c c' \<Longrightarrow> any_step sha256 g (st, c) (st, c')"
  by (auto simp: any_step_def own_step_def intro: mgr_step.tick)

lemma follows_aside:
  assumes "w_store v = w_store u" and "w_tick u \<le> w_tick v"
  shows "follows ox g u v"
proof -
  have "rtranclp (any_step (ox_sha256 ox) g) (moment g u) (moment g v)" if "orderly ox g"
    unfolding moment_def assms(1) by (rule r_into_rtranclp, rule own_tick, rule now_mono [OF assms(2) that])
  moreover have "ox_uuid ox ` {..<w_tick u} \<subseteq> ox_uuid ox ` {..<w_tick v}" using assms(2) by auto
  ultimately show ?thesis using assms by (auto simp: follows_def sound_def)
qed

interpretation runs: world_order "follows ox g" for ox g
proof
  fix u v w assume "follows ox g u v" and "follows ox g v w"
  then show "follows ox g u w" unfolding follows_def by (meson le_trans rtranclp_trans)
qed (rule follows_aside)

subsection \<open>The uses of the manager\<close>

text \<open>
  An operation on the store keeps the guarantee if it is one step of the task, at the time of its clock readings:
  as the step \<open>n\<close> from the store \<open>st\<close>, or as any step from any store.
\<close>

definition permitted_at :: "outside \<Rightarrow> regime \<Rightarrow> (nat \<Rightarrow> store \<Rightarrow> 'a \<times> store) \<Rightarrow> nat \<Rightarrow> store \<Rightarrow> bool" where
  "permitted_at ox g f n st \<longleftrightarrow>
     (\<forall>c. manager_inv (ox_sha256 ox) (fst st) \<and> ox_uuid ox n \<notin> stored (fst st) \<and>
        (\<forall>k. clk_le c (ox_clock ox n k)) \<and> clk_le (ox_clock ox n 0) (ox_clock ox n 1) \<and>
        (\<forall>k. clk_le (ox_clock ox n k) (rg_now g (Suc n))) \<longrightarrow>
        stored (fst (snd (f n st))) \<subseteq> insert (ox_uuid ox n) (stored (fst st)) \<and>
        (\<exists>c'. own_step (ox_sha256 ox) g (st, c) (snd (f n st), c') \<and> clk_le c' (rg_now g (Suc n))))"

definition permitted :: "outside \<Rightarrow> regime \<Rightarrow> (nat \<Rightarrow> store \<Rightarrow> 'a \<times> store) \<Rightarrow> bool" where
  "permitted ox g f \<longleftrightarrow> (\<forall>n st. permitted_at ox g f n st)"

lemma permittedD:
  assumes "permitted_at ox g f n st" and "orderly ox g" and "manager_inv (ox_sha256 ox) (fst st)"
    and "ox_uuid ox n \<notin> stored (fst st)" and "\<forall>k. clk_le c (ox_clock ox n k)"
  shows "stored (fst (snd (f n st))) \<subseteq> insert (ox_uuid ox n) (stored (fst st))"
    and "manager_inv (ox_sha256 ox) (fst (snd (f n st)))"
    and "rtranclp (any_step (ox_sha256 ox) g) (st, c) (snd (f n st), rg_now g (Suc n))"
proof -
  note asm = assms(3-5) clocks(1) [OF assms(2), of n] clocks(2) [OF assms(2), of n]
  obtain c' where step: "own_step (ox_sha256 ox) g (st, c) (snd (f n st), c')" and c': "clk_le c' (rg_now g (Suc n))"
    using assms(1) asm unfolding permitted_at_def by metis
  show "stored (fst (snd (f n st))) \<subseteq> insert (ox_uuid ox n) (stored (fst st))"
    using assms(1) asm unfolding permitted_at_def by blast
  show "manager_inv (ox_sha256 ox) (fst (snd (f n st)))"
    using manager_inv_step step assms(3) unfolding own_step_def by blast
  have "any_step (ox_sha256 ox) g (st, c) (snd (f n st), c')" using step by (simp add: any_step_def)
  then show "rtranclp (any_step (ox_sha256 ox) g) (st, c) (snd (f n st), rg_now g (Suc n))"
    using own_tick [OF c'] by (meson converse_rtranclp_into_rtranclp r_into_rtranclp)
qed

lemma follows_op_at:
  fixes w :: world
  assumes "permitted_at ox g f (w_tick w) (ox_others ox (w_tick w) (w_store w))"
  shows "follows ox g w (snd (run_state (mgr_op ox f) w))"
proof -
  let ?n = "w_tick w" and ?sha = "ox_sha256 ox"
  let ?st = "ox_others ox ?n (w_store w)"
  let ?w = "w\<lparr>w_store := snd (f ?n ?st), w_tick := Suc ?n\<rparr>"
  have run: "snd (run_state (mgr_op ox f) w) = ?w" by (simp add: mgr_op_def split: prod.split)
  have "sound ox g ?w \<and> rtranclp (any_step ?sha g) (moment g w) (moment g ?w)"
    if o: "orderly ox g" and n: "Suc ?n \<le> rg_limit g" and sound: "sound ox g w"
  proof -
    obtain c where c: "rtranclp (rg_rely g) (w_store w, rg_now g ?n) (?st, c)" "\<forall>k. clk_le c (ox_clock ox ?n k)"
      using others_run [OF o] sound unfolding sound_def by blast
    have inv: "manager_inv ?sha (fst ?st)" using rely_run(2) [OF o c(1)] sound by (simp add: sound_def)
    have ids: "stored (fst ?st) \<subseteq> rg_foreign g \<union> ox_uuid ox ` {..<?n}"
      using others_ids [OF o, of "w_store w" ?n] sound unfolding sound_def by blast
    have "ox_uuid ox ?n \<notin> ox_uuid ox ` {..<?n}"
      using inj_onD [OF ids_once(1) [OF o], of ?n] n by force
    moreover have "ox_uuid ox ?n \<in> ox_uuid ox ` {..<rg_limit g}" using n by simp
    ultimately have fresh: "ox_uuid ox ?n \<notin> stored (fst ?st)" using ids ids_once(2) [OF o] by blast
    note ok = permittedD [OF assms o inv fresh c(2)]
    have "sound ox g ?w" using ok(1,2) ids by (auto simp: sound_def lessThan_Suc)
    moreover have "rtranclp (any_step ?sha g) (moment g w) (moment g ?w)"
      using rtranclp_trans [OF rely_run(3) [OF o c(1)] ok(3)] by (simp add: moment_def)
    ultimately show ?thesis by simp
  qed
  then show ?thesis unfolding run follows_def by simp
qed

lemma follows_op: "permitted ox g f \<Longrightarrow> within (follows ox g) (mgr_op ox f)"
  unfolding within_def permitted_def by (blast intro: follows_op_at)

text \<open>The operations, each with the users it acts for.\<close>

lemma stored_owner: "i \<notin> stored m \<longleftrightarrow> owner_of m i = None"
  by (simp add: stored_def owner_of_def)

lemma own_create:
  assumes inv: "manager_inv sha256 m" and fresh: "owner_of m i = None" and "U u"
    and run: "create sha256 P c1 c2 i u t sc ttl (m, d) = (r, st')"
  shows "only_users U m (fst st')" and "stored (fst st') \<subseteq> insert i (stored m)"
proof -
  note [simp] = manager_invD(1,2) [OF inv]
  show "only_users U m (fst st')"
    using run \<open>U u\<close> fresh
    by (auto simp: create_cases Let_def only_users_def create_state_def owner_of_def split: option.splits if_splits)
  show "stored (fst st') \<subseteq> insert i (stored m)"
    using run by (auto simp: create_cases Let_def stored_def create_state_def split: option.splits if_splits)
qed

lemma own_update:
  assumes inv: "manager_inv sha256 m" and "U u" and f: "\<And>s. s_user_id (snd (f s)) = s_user_id s"
    and run: "update P i u f (m, d) = (r, st')"
  shows "only_users U m (fst st')" and "stored (fst st') = stored m"
proof -
  note [simp] = manager_invD(1) [OF inv]
  have "only_users U m (fst st') \<and> stored (fst st') = stored m"
  proof (cases "owned m i u")
    case (Inl e)
    then show ?thesis using run by (auto simp: update_def)
  next
    case (Inr s)
    then have s: "hm_get (sm_sessions m) i = Some s" "s_user_id s = u" by (auto simp: result_simps)
    have "fst st' = m\<lparr>sm_sessions := hm_insert i (snd (f s)) (sm_sessions m)\<rparr>"
      using run Inr by (auto simp: update_def Let_def split: prod.splits outcome.splits)
    then show ?thesis using s f [of s] \<open>U u\<close> by (auto simp: only_users_def stored_def)
  qed
  then show "only_users U m (fst st')" "stored (fst st') = stored m" by simp_all
qed

lemma own_end:
  assumes inv: "manager_inv sha256 m" and "U u" and run: "end_session_of P i u (m, d) = (r, st')"
  shows "only_users U m (fst st')" and "stored (fst st') \<subseteq> stored m"
proof -
  have "only_users U m (fst st') \<and> stored (fst st') \<subseteq> stored m"
  proof (cases "owned m i u")
    case (Inl e)
    then show ?thesis using run by (auto simp: end_session_of_def)
  next
    case (Inr s)
    then have s: "hm_get (sm_sessions m) i = Some s" "s_user_id s = u" by (auto simp: result_simps)
    have st: "fst st' = drop_session i s m"
      using run Inr by (auto simp: end_session_of_def Let_def drop_session_def)
    have "hm_get (sm_per_user (drop_session i s m)) v = hm_get (sm_per_user m) v" if "\<not> U v" for v
      using that s \<open>U u\<close> manager_invD(2) [OF inv] by (auto simp: drop_session_def)
    then show ?thesis
      using s \<open>U u\<close> drop_session_get(1) [OF inv s(1)] unfolding st by (auto simp: only_users_def stored_def)
  qed
  then show "only_users U m (fst st')" "stored (fst st') \<subseteq> stored m" by simp_all
qed

lemma own_touch:
  assumes inv: "manager_inv sha256 m" and "U u" and run: "touch_action t1 t2 i u m = (r, m')"
  shows "only_users U m m'" and "stored m' = stored m"
  using run \<open>U u\<close> manager_invD(1) [OF inv]
  by (auto simp: touch_action_def owned_cases only_users_def stored_def Let_def split: option.splits if_splits)

lemma permitted_atI:
  assumes "\<And>c. manager_inv (ox_sha256 ox) (fst st) \<Longrightarrow> owner_of (fst st) (ox_uuid ox n) = None \<Longrightarrow>
      (\<And>k. clk_le c (ox_clock ox n k)) \<Longrightarrow> clk_le (ox_clock ox n 0) (ox_clock ox n 1) \<Longrightarrow>
      (\<And>k. clk_le (ox_clock ox n k) (rg_now g (Suc n))) \<Longrightarrow>
      \<exists>c'. mgr_step (ox_sha256 ox) (rg_careful g) (st, c) (snd (f n st), c') \<and> clk_le c' (rg_now g (Suc n)) \<and>
           only_users (rg_users g) (fst st) (fst (snd (f n st))) \<and>
           stored (fst (snd (f n st))) \<subseteq> insert (ox_uuid ox n) (stored (fst st))"
  shows "permitted_at ox g f n st"
  unfolding permitted_at_def own_step_def stored_owner fst_conv
proof (intro allI impI)
  fix c
  assume "manager_inv (ox_sha256 ox) (fst st) \<and> owner_of (fst st) (ox_uuid ox n) = None \<and>
      (\<forall>k. clk_le c (ox_clock ox n k)) \<and> clk_le (ox_clock ox n 0) (ox_clock ox n 1) \<and>
      (\<forall>k. clk_le (ox_clock ox n k) (rg_now g (Suc n)))"
  then show "stored (fst (snd (f n st))) \<subseteq> insert (ox_uuid ox n) (stored (fst st)) \<and>
      (\<exists>c'. (mgr_step (ox_sha256 ox) (rg_careful g) (st, c) (snd (f n st), c') \<and>
             only_users (rg_users g) (fst st) (fst (snd (f n st)))) \<and> clk_le c' (rg_now g (Suc n)))"
    using assms [of c] by blast
qed

lemma permitted_read: "permitted ox g (\<lambda>n st. (h n st, st))"
  unfolding permitted_def by (intro allI permitted_atI) (auto intro: mgr_step.tick)

lemma permitted_create:
  assumes "rg_users g u"
  shows "permitted ox g (\<lambda>n. create (ox_sha256 ox) (ox_persist ox n) (ox_clock ox n 0) (ox_clock ox n 1) (ox_uuid ox n) u t sc ttl)"
  unfolding permitted_def
proof (intro allI permitted_atI)
  fix n st c
  let ?run = "create (ox_sha256 ox) (ox_persist ox n) (ox_clock ox n 0) (ox_clock ox n 1) (ox_uuid ox n) u t sc ttl st"
  assume inv: "manager_inv (ox_sha256 ox) (fst st)" and fresh: "owner_of (fst st) (ox_uuid ox n) = None"
    and clk: "\<And>k. clk_le c (ox_clock ox n k)" "clk_le (ox_clock ox n 0) (ox_clock ox n 1)"
      "\<And>k. clk_le (ox_clock ox n k) (rg_now g (Suc n))"
  have run: "?run = (fst ?run, snd ?run)" by simp
  have "mgr_step (ox_sha256 ox) (rg_careful g) (st, c) (snd ?run, ox_clock ox n 1)"
    by (rule mgr_step.created [OF fresh clk(1) clk(2) run])
  then show "\<exists>c'. mgr_step (ox_sha256 ox) (rg_careful g) (st, c) (snd ?run, c') \<and> clk_le c' (rg_now g (Suc n)) \<and>
      only_users (rg_users g) (fst st) (fst (snd ?run)) \<and>
      stored (fst (snd ?run)) \<subseteq> insert (ox_uuid ox n) (stored (fst st))"
    using own_create [OF inv fresh, of "rg_users g" u _ _ _ t sc ttl "snd st"] assms run clk(3) by (metis prod.collapse)
qed

lemma permitted_update:
  assumes u: "rg_users g u" and f: "\<And>s. s_user_id (snd (f s)) = s_user_id s"
    and step: "\<And>c r st'. (\<And>k. clk_le c (ox_clock ox n k)) \<Longrightarrow> clk_le (ox_clock ox n 0) (ox_clock ox n 1) \<Longrightarrow>
      update (ox_persist ox n) i u f st = (r, st') \<Longrightarrow>
      \<exists>c' k. mgr_step (ox_sha256 ox) (rg_careful g) (st, c) (st', c') \<and> clk_le c' (ox_clock ox n k)"
    and h: "snd (h n st) = snd (update (ox_persist ox n) i u f st)"
  shows "permitted_at ox g h n st"
proof (rule permitted_atI)
  fix c
  let ?run = "update (ox_persist ox n) i u f st"
  assume inv: "manager_inv (ox_sha256 ox) (fst st)"
    and clk: "\<And>k. clk_le c (ox_clock ox n k)" "clk_le (ox_clock ox n 0) (ox_clock ox n 1)"
      "\<And>k. clk_le (ox_clock ox n k) (rg_now g (Suc n))"
  have run: "?run = (fst ?run, snd ?run)" by simp
  obtain c' k where "mgr_step (ox_sha256 ox) (rg_careful g) (st, c) (snd ?run, c')" "clk_le c' (ox_clock ox n k)"
    using step [OF clk(1,2) run] by blast
  moreover have "update (ox_persist ox n) i u f (fst st, snd st) = (fst ?run, snd ?run)" by simp
  note own_update [OF inv, of "rg_users g" u f, OF u f this]
  ultimately show "\<exists>c'. mgr_step (ox_sha256 ox) (rg_careful g) (st, c) (snd (h n st), c') \<and> clk_le c' (rg_now g (Suc n)) \<and>
      only_users (rg_users g) (fst st) (fst (snd (h n st))) \<and>
      stored (fst (snd (h n st))) \<subseteq> insert (ox_uuid ox n) (stored (fst st))"
    unfolding h using clk_le_trans [OF _ clk(3)] by blast
qed

lemma notes_only_user:
  assumes "notes_only f"
  shows "s_user_id (snd (f s)) = s_user_id s"
proof -
  have eq: "snd (f s) = s\<lparr>s_status := s_status (snd (f s)), s_events := s_events (snd (f s))\<rparr>"
    using assms unfolding notes_only_def by blast
  show ?thesis by (subst eq) simp
qed

lemma permitted_note:
  assumes "rg_users g u" and "\<And>now. notes_only (\<lambda>s. (Returns (), f now s))"
  shows "within (follows ox g) (mgr_note ox i u f)"
  unfolding mgr_note_def
proof (rule follows_op, unfold permitted_def, intro allI permitted_update)
  fix n c r st' and st :: store
  assume "\<And>k. clk_le c (ox_clock ox n k)"
    and "update (ox_persist ox n) i u (\<lambda>s. (Returns (), f (utc (ox_clock ox n 0)) s)) st = (r, st')"
  then show "\<exists>c' k. mgr_step (ox_sha256 ox) (rg_careful g) (st, c) (st', c') \<and> clk_le c' (ox_clock ox n k)"
    using mgr_step.noted [OF assms(2)] by blast
next
  fix n s
  show "s_user_id (snd (Returns (), f (utc (ox_clock ox n 0)) s)) = s_user_id s"
    by (rule notes_only_user [OF assms(2)])
qed (use assms(1) in \<open>auto split: prod.split outcome.split\<close>)

text \<open>An extension keeps the guarantee of a careful regime if it finds a session that has not expired.\<close>

definition finds_live :: "outside \<Rightarrow> uuid \<Rightarrow> world \<Rightarrow> bool" where
  "finds_live ox i w \<longleftrightarrow>
     (\<forall>s. hm_get (sm_sessions (fst (ox_others ox (w_tick w) (w_store w)))) i = Some s \<longrightarrow>
        \<not> is_expired (ox_clock ox (w_tick w) 0) s)"

lemma follows_extend:
  assumes "rg_users g u" and "rg_careful g \<Longrightarrow> finds_live ox i w"
  shows "follows ox g w (snd (run_state (mgr_update ox i u (\<lambda>c1 c2. extend_closure c1 c2 extra)) w))"
  unfolding mgr_update_def
proof (rule follows_op_at, rule permitted_update)
  let ?n = "w_tick w"
  let ?st = "ox_others ox ?n (w_store w)"
  fix c r st'
  assume "\<And>k. clk_le c (ox_clock ox ?n k)" "clk_le (ox_clock ox ?n 0) (ox_clock ox ?n 1)"
    and "update (ox_persist ox ?n) i u (extend_closure (ox_clock ox ?n 0) (ox_clock ox ?n 1) extra) ?st = (r, st')"
  then have "mgr_step (ox_sha256 ox) (rg_careful g) (?st, c) (st', ox_clock ox ?n 1)"
    using assms(2) by (intro mgr_step.prolonged) (auto simp: finds_live_def)
  then show "\<exists>c' k. mgr_step (ox_sha256 ox) (rg_careful g) (?st, c) (st', c') \<and> clk_le c' (ox_clock ox ?n k)"
    using clk_le_refl by blast
next
  fix s
  show "s_user_id (snd (extend_closure (ox_clock ox (w_tick w) 0) (ox_clock ox (w_tick w) 1) extra s)) = s_user_id s"
    by (auto simp: extend_closure_def extend_cases Let_def) (simp add: extended_def)
qed (use assms(1) in auto)

lemma permitted_extend:
  "rg_users g u \<Longrightarrow> \<not> rg_careful g \<Longrightarrow> within (follows ox g) (mgr_update ox i u (\<lambda>c1 c2. extend_closure c1 c2 extra))"
  unfolding within_def by (blast intro: follows_extend)

lemma permitted_end:
  assumes "rg_users g u"
  shows "within (follows ox g) (mgr_end ox i u)"
  unfolding mgr_end_def
proof (rule follows_op, unfold permitted_def, intro allI permitted_atI)
  fix n c and st :: store
  let ?run = "end_session_of (ox_persist ox n) i u st"
  assume inv: "manager_inv (ox_sha256 ox) (fst st)"
    and clk: "\<And>k. clk_le c (ox_clock ox n k)" "\<And>k. clk_le (ox_clock ox n k) (rg_now g (Suc n))"
  have run: "end_session_of (ox_persist ox n) i u (fst st, snd st) = (fst ?run, snd ?run)" by simp
  have "mgr_step (ox_sha256 ox) (rg_careful g) (st, c) (snd ?run, c)" using mgr_step.ended [OF run] by simp
  moreover have "clk_le c (rg_now g (Suc n))" using clk_le_trans [OF clk(1) clk(2)] .
  ultimately show "\<exists>c'. mgr_step (ox_sha256 ox) (rg_careful g) (st, c) (snd ?run, c') \<and> clk_le c' (rg_now g (Suc n)) \<and>
      only_users (rg_users g) (fst st) (fst (snd ?run)) \<and>
      stored (fst (snd ?run)) \<subseteq> insert (ox_uuid ox n) (stored (fst st))"
    using own_end [OF inv, of "rg_users g" u, OF assms run] by blast
qed

lemma permitted_touch:
  assumes "rg_users g u"
  shows "within (follows ox g) (mgr_touch ox i u)"
  unfolding mgr_touch_def
proof (rule follows_op, unfold permitted_def, intro allI permitted_atI)
  fix n c and st :: store
  let ?run = "touch_action (mono (ox_clock ox n 0)) (mono (ox_clock ox n 1)) i u (fst st)"
  assume inv: "manager_inv (ox_sha256 ox) (fst st)"
    and clk: "\<And>k. clk_le c (ox_clock ox n k)" "\<And>k. clk_le (ox_clock ox n k) (rg_now g (Suc n))"
  have run: "?run = (fst ?run, snd ?run)" by simp
  have st': "snd (case ?run of (r, m) \<Rightarrow> (r, (m, snd st))) = (snd ?run, snd st)" by (simp split: prod.split)
  have "mgr_step (ox_sha256 ox) (rg_careful g) (st, c) ((snd ?run, snd st), c)"
    using mgr_step.touched [OF run, of _ _ "snd st" c] by simp
  moreover have "clk_le c (rg_now g (Suc n))" using clk_le_trans [OF clk(1) clk(2)] .
  ultimately show "\<exists>c'. mgr_step (ox_sha256 ox) (rg_careful g) (st, c) (snd (case ?run of (r, m) \<Rightarrow> (r, (m, snd st))), c') \<and>
      clk_le c' (rg_now g (Suc n)) \<and>
      only_users (rg_users g) (fst st) (fst (snd (case ?run of (r, m) \<Rightarrow> (r, (m, snd st))))) \<and>
      stored (fst (snd (case ?run of (r, m) \<Rightarrow> (r, (m, snd st))))) \<subseteq> insert (ox_uuid ox n) (stored (fst st))"
    using own_touch [OF inv, of "rg_users g" u, OF assms run] unfolding st' fst_conv by blast
qed

lemma permitted_sweep:
  assumes "\<And>u. rg_users g u"
  shows "within (follows ox g) (mgr_sweep ox)"
  unfolding mgr_sweep_def
proof (rule follows_op, unfold permitted_def, intro allI permitted_atI)
  fix n c and st :: store
  let ?run = "sweep_expired (ox_persist ox n) (\<lambda>i. ox_clock ox n (unat i)) st"
  assume inv: "manager_inv (ox_sha256 ox) (fst st)"
    and clk: "\<And>k. clk_le c (ox_clock ox n k)" "\<And>k. clk_le (ox_clock ox n k) (rg_now g (Suc n))"
  have run: "?run = (fst ?run, snd ?run)" by simp
  have "mgr_step (ox_sha256 ox) (rg_careful g) (st, c) (snd ?run, rg_now g (Suc n))"
    by (rule mgr_step.swept [OF _ run]) (use clk in blast)
  moreover have "stored (fst (snd ?run)) \<subseteq> stored (fst st)"
    using sweep_expired_laws(2) [OF inv, of "ox_persist ox n" "\<lambda>i. ox_clock ox n (unat i)" "snd st"]
    by (auto simp: stored_def result_simps)
  ultimately show "\<exists>c'. mgr_step (ox_sha256 ox) (rg_careful g) (st, c) (snd ?run, c') \<and> clk_le c' (rg_now g (Suc n)) \<and>
      only_users (rg_users g) (fst st) (fst (snd ?run)) \<and>
      stored (fst (snd ?run)) \<subseteq> insert (ox_uuid ox n) (stored (fst st))"
    using assms clk_le_refl by (auto simp: only_users_def)
qed

lemma permitted_creation: "rg_users g u \<Longrightarrow> within (follows ox g) (mgr_create ox u t sc ttl)"
  unfolding mgr_create_def by (rule follows_op [OF permitted_create])

lemma charge_runs: "within (follows ox g) (quota_consume ox t)"
  by (simp add: within_def quota_consume_def follows_aside split: prod.split)

interpretation runs: charging_order "follows ox g" ox "rg_users g" "\<not> rg_careful g" for ox g
  by unfold_locales
    (simp_all add: mgr_get_def mgr_user_session_def follows_op permitted_read permitted_creation permitted_note
      permitted_extend permitted_end permitted_touch permitted_sweep charge_runs runs.seq within_intro)

subsection \<open>Tasks\<close>

datatype task = Request inbound | ReaperTick | OrphanSweep

fun run_task :: "outside \<Rightarrow> decoders \<Rightarrow> server \<Rightarrow> task \<Rightarrow> unit act" where
  "run_task ox de srv (Request b) = discard (serve ox de srv b)"
| "run_task ox de srv ReaperTick = reaper_tick ox srv"
| "run_task ox de srv OrphanSweep = sweep_api_orphans ox srv"

definition run_tasks :: "outside \<Rightarrow> decoders \<Rightarrow> server \<Rightarrow> task list \<Rightarrow> unit act" where
  "run_tasks ox de srv ts = for_each (run_task ox de srv) ts"

text \<open>The users whose sessions a task may change, and the tasks that extend a session.\<close>

fun acts_for :: "task \<Rightarrow> str \<Rightarrow> bool" where
  "acts_for (Request b) u \<longleftrightarrow> (\<exists>i. identity_of (in_request b) = Some i \<and> id_user_id i = u)"
| "acts_for ReaperTick u \<longleftrightarrow> True"
| "acts_for OrphanSweep u \<longleftrightarrow> False"

fun extends :: "task \<Rightarrow> bool" where
  "extends (Request b) \<longleftrightarrow> (\<exists>i. route (in_method b) (rq_path (in_request b)) = Route (EpExtend i))"
| "extends _ \<longleftrightarrow> False"

text \<open>
  A regime covers tasks, run one after the other from \<open>w\<close>, if it lets them act for their users and, when it is
  careful, each request for an extension finds its session unexpired, if at all, when it gets to it.
\<close>

definition extends_live :: "outside \<Rightarrow> decoders \<Rightarrow> task \<Rightarrow> world \<Rightarrow> bool" where
  "extends_live ox de t w \<longleftrightarrow>
     (\<forall>b i sid. t = Request b \<and> route (in_method b) (rq_path (in_request b)) = Route (EpExtend i) \<and> de_uuid de i = Inr sid \<longrightarrow>
        finds_live ox sid w)"

fun covers :: "outside \<Rightarrow> decoders \<Rightarrow> server \<Rightarrow> regime \<Rightarrow> task list \<Rightarrow> world \<Rightarrow> bool" where
  "covers ox de srv g [] w \<longleftrightarrow> True"
| "covers ox de srv g (t # ts) w \<longleftrightarrow>
     (\<forall>u. acts_for t u \<longrightarrow> rg_users g u) \<and> (rg_careful g \<longrightarrow> extends_live ox de t w) \<and>
     covers ox de srv g ts (snd (run_state (run_task ox de srv t) w))"

context manager_order
begin

lemma endpoints:
  assumes "\<And>i. rq_identity req = Some i \<Longrightarrow> U (id_user_id i)"
    and "(\<forall>i. ep \<noteq> EpExtend i) \<or> may_extend" and "ep \<noteq> EpCreate"
  shows "within R (run_endpoint ox de srv b req ep)"
  using assms(2,3)
  by (cases ep) (auto simp: answer_def rejected_def metrics_handler_def intro!: within_intro outcome_case assms(1) split: sum.split)

end

context charging_order
begin

lemma all_endpoints:
  assumes "\<And>i. rq_identity req = Some i \<Longrightarrow> U (id_user_id i)" and "(\<forall>i. ep \<noteq> EpExtend i) \<or> may_extend"
  shows "within R (run_endpoint ox de srv b req ep)"
proof (cases "ep = EpCreate")
  case True
  then show ?thesis using assms(1) by (auto simp: answer_def intro!: within_intro)
next
  case False
  then show ?thesis using assms by (intro endpoints)
qed

lemma serving:
  assumes id: "\<And>u. acts_for (Request b) u \<Longrightarrow> U u" and ext: "\<not> extends (Request b) \<or> may_extend"
  shows "within R (serve ox de srv b)"
proof (cases "is_exempt (rq_path (in_request b))")
  case True
  then have "serve ox de srv b = dispatch_route ox de srv b (in_request b)" by (simp add: serve_cases)
  then show ?thesis using dispatch_exempt [OF True] by (auto intro: asideI)
next
  case False
  have "within R (dispatch_route ox de srv b ((in_request b)\<lparr>rq_identity := identity_of (in_request b)\<rparr>))"
    unfolding dispatch_route_def using ext
    by (auto split: routed.split intro!: within_intro all_endpoints id)
  then show ?thesis using False by (auto simp: serve_cases Let_def intro: within_intro)
qed

lemma task [within_intro]:
  assumes "\<And>u. acts_for t u \<Longrightarrow> U u" and "\<not> extends t \<or> may_extend"
  shows "within R (run_task ox de srv t)"
  using assms serving by (cases t) (auto intro!: within_intro)

end

lemma follows_answer:
  assumes "follows ox g w (snd (run_state m w))" and "\<And>x. within (follows ox g) (f x)"
  shows "follows ox g w (snd (run_state (State_Monad.bind m f) w))"
  using assms(1) runs.trans withinD [OF assms(2)] by (auto split: prod.split)

text \<open>The request for an extension starts with its only change.\<close>

lemma follows_extension:
  assumes id: "\<And>i. rq_identity req = Some i \<Longrightarrow> rg_users g (id_user_id i)"
    and live: "\<And>sid. de_uuid de i = Inr sid \<Longrightarrow> rg_careful g \<Longrightarrow> finds_live ox sid w"
  shows "follows ox g w (snd (run_state (run_endpoint ox de srv b req (EpExtend i)) w))"
proof -
  have "follows ox g w (snd (run_state (extend_session ox srv sid seconds req) w))" if sid: "de_uuid de i = Inr sid" for sid seconds
  proof (cases "is_ok (require_identity req) \<and> is_ok (require_sessions srv)")
    case False
    then show ?thesis
      by (cases "require_identity req"; cases "require_sessions srv")
        (auto simp: extend_session_def follows_aside simp del: require_identity_Inr)
  next
    case True
    then obtain who u where gates: "require_identity req = Inr who" "require_sessions srv = Inr u"
      by (cases "require_identity req"; cases "require_sessions srv") auto
    then have "rg_users g (id_user_id who)" using id by simp
    then show ?thesis
      unfolding extend_session_def gates prod.case sum.case
      by (rule follows_answer [OF follows_extend [OF _ live [OF sid]]])
        (auto intro!: within_intro outcome_case runs.reading split: sum.split)
  qed
  then show ?thesis
    by (cases "de_uuid de i"; cases "de_query de (in_query b)")
      (auto simp: rejected_def follows_aside answer_def simp del: run_state_bind
        intro!: follows_answer within_intro outcome_case split: outcome.split)
qed

lemma follows_task:
  assumes users: "\<And>u. acts_for t u \<Longrightarrow> rg_users g u" and live: "rg_careful g \<Longrightarrow> extends_live ox de t w"
  shows "follows ox g w (snd (run_state (run_task ox de srv t) w))"
proof (cases "rg_careful g \<and> extends t")
  case False
  then show ?thesis using withinD [OF runs.task [of t g]] users by blast
next
  case True
  then obtain b i where t: "t = Request b" and r: "route (in_method b) (rq_path (in_request b)) = Route (EpExtend i)"
    by (cases t) auto
  have "\<not> is_exempt (rq_path (in_request b))" using route_exempt [OF r] by (simp add: open_endpoint_def)
  moreover have "follows ox g w (snd (run_state (run_endpoint ox de srv b
      ((in_request b)\<lparr>rq_identity := identity_of (in_request b)\<rparr>) (EpExtend i)) w))"
    using users live True t r by (intro follows_extension) (auto simp: extends_live_def)
  ultimately have "follows ox g w (snd (run_state (serve ox de srv b) w))"
    using r unfolding serve_cases Let_def dispatch_route_def
    by (cases "has_credentials srv (in_request b)") (simp_all add: follows_aside del: run_endpoint.simps)
  then show ?thesis unfolding t run_task.simps discard_def snd_run_bind_ret .
qed

lemma tasks_follow: "covers ox de srv g ts w \<Longrightarrow> follows ox g w (snd (run_state (run_tasks ox de srv ts) w))"
proof (induction ts arbitrary: w)
  case Nil
  then show ?case by (simp add: run_tasks_def follows_aside)
next
  case (Cons t ts)
  let ?v = "snd (run_state (run_task ox de srv t) w)"
  have "follows ox g w ?v" using Cons.prems by (intro follows_task) auto
  moreover have "follows ox g ?v (snd (run_state (run_tasks ox de srv ts) ?v))" using Cons by simp
  ultimately show ?case
    unfolding run_tasks_def for_each.simps by (auto split: prod.split intro: runs.trans)
qed

lemma extends_live_none: "\<not> extends t \<Longrightarrow> extends_live ox de t w"
  by (auto simp: extends_live_def)

lemma covers_simple:
  "(\<And>t u. t \<in> set ts \<Longrightarrow> acts_for t u \<Longrightarrow> rg_users g u) \<Longrightarrow> (\<And>t. t \<in> set ts \<Longrightarrow> rg_careful g \<Longrightarrow> \<not> extends t) \<Longrightarrow>
     covers ox de srv g ts w"
  by (induction ts arbitrary: w) (auto intro!: extends_live_none)

lemma any_step_parts:
  assumes "orderly ox g"
  shows "any_step (ox_sha256 ox) g a b \<longleftrightarrow>
    mgr_step (ox_sha256 ox) (rg_careful g) a b \<and> (rg_rely g a b \<or> only_users (rg_users g) (fst (fst a)) (fst (fst b)))"
  using rely_step [OF assms] unfolding any_step_def own_step_def by blast

lemma only_users_run:
  assumes "rtranclp (any_step sha256 g) a b" and "\<And>a b. rg_rely g a b \<Longrightarrow> fst b = fst a"
  shows "only_users (rg_users g) (fst (fst a)) (fst (fst b))"
  using assms(1)
proof (induction rule: rtranclp_induct)
  case (step b c)
  then have "only_users (rg_users g) (fst (fst b)) (fst (fst c))"
    using assms(2) [of b c] by (auto simp: any_step_def own_step_def)
  with step.IH show ?case by (rule only_users_trans)
qed simp

lemma run_reach:
  assumes "rtranclp (mgr_step sha256 careful) a b" and "mgr_reach sha256 careful mf en ttl path a"
  shows "mgr_reach sha256 careful mf en ttl path b"
  using assms by (induction rule: rtranclp_induct) (auto intro: mgr_reach.more)

lemma tasks_manager_run:
  assumes "orderly ox g" and "covers ox de srv g ts w" and "sound ox g w" and "run_state (run_tasks ox de srv ts) w = (x, w')" and "w_tick w' \<le> rg_limit g"
  shows "sound ox g w'" and "rtranclp (any_step (ox_sha256 ox) g) (moment g w) (moment g w')"
    and "rtranclp (mgr_step (ox_sha256 ox) (rg_careful g)) (moment g w) (moment g w')"
proof -
  have "follows ox g w w'"
    using tasks_follow [OF assms(2)] assms(4) by simp
  then show "sound ox g w'" and run: "rtranclp (any_step (ox_sha256 ox) g) (moment g w) (moment g w')"
    using assms(1,3,5) by (auto simp: follows_def)
  show "rtranclp (mgr_step (ox_sha256 ox) (rg_careful g)) (moment g w) (moment g w')"
    using run by (rule rtranclp_mono [THEN predicate2D, rotated]) (auto simp: any_step_parts [OF assms(1)])
qed

text \<open>Without a session file the manager starts empty.\<close>

lemma fresh_store:
  assumes boot: "main_state ox be d = Inr (srv, w)" and on: "srv_sessions srv"
    and "d (sessions_path (cfg_data_dir (srv_config srv))) = None"
  shows "\<exists>mf. load_manifest (ox_exists ox) (ox_read_bytes ox) (be_from_slice be) (cfg_manifest_path (srv_config srv)) = Some mf \<and>
    w_store w = ((manager_new mf True (cfg_session_ttl (srv_config srv)))
      \<lparr>sm_persistence_path := Some (sessions_path (cfg_data_dir (srv_config srv)))\<rparr>, d)"
  using main_state_Inr(6) [OF boot] on assms(3)
  by (auto simp: new_with_persistence_def hydrate_from_disk_def manager_new_def Let_def split: option.splits)

subsection \<open>Concrete runs\<close>

abbreviation late :: clock where
  "late \<equiv> \<lparr>mono = 10 ^ 15, utc = 10 ^ 15\<rparr>"

definition demo_regime :: "clock \<Rightarrow> regime" where
  "demo_regime c = \<lparr>rg_careful = True, rg_users = (\<lambda>_. True), rg_rely = mgr_step demo_sha True, rg_foreign = {7},
     rg_limit = 7, rg_now = (\<lambda>_. c)\<rparr>"

lemma small_ids: "inj_on (of_nat :: nat \<Rightarrow> uuid) {..<7}" "(of_nat :: nat \<Rightarrow> uuid) ` {..<7} \<inter> {7} = {}"
proof -
  have eq: "n = m" if "(of_nat n :: uuid) = of_nat m" "n < 8" "m < 8" for n m
    using that by (simp add: word_of_nat_eq_iff take_bit_nat_eq_self)
  show "inj_on (of_nat :: nat \<Rightarrow> uuid) {..<7}" by (rule inj_onI) (use eq in auto)
  show "(of_nat :: nat \<Rightarrow> uuid) ` {..<7} \<inter> {7} = {}" using eq [of _ 7] by fastforce
qed

lemma demo_orderly:
  assumes "ox_clock ox = (\<lambda>_ _. c)" and "ox_sha256 ox = demo_sha" and "ox_uuid ox = of_nat"
    and "\<And>n st. ox_others ox n st = st \<or> mgr_step demo_sha True (st, c) (ox_others ox n st, c)"
    and "\<And>n st. manager_inv demo_sha (fst st) \<Longrightarrow> stored (fst (ox_others ox n st)) \<subseteq> insert 7 (stored (fst st))"
  shows "orderly ox (demo_regime c)"
proof -
  have "rtranclp (mgr_step demo_sha True) (st, c) (ox_others ox n st, c)" for n st
    using assms(4) [of n st] by auto
  then show ?thesis
    unfolding orderly_def using assms(5) small_ids by (simp add: demo_regime_def assms(1-3)) (meson clk_le_refl)
qed

lemma quiet_teardown:
  "srv_api srv = None \<Longrightarrow> run_state (teardown_session ox srv i sh conn ns) w = ((), w\<lparr>w_tick := Suc (w_tick w)\<rparr>)"
  by (simp add: teardown_session_def read_clock_def)

definition quiet_server :: server where
  "quiet_server = demo_server\<lparr>srv_api := None\<rparr>"

lemma quiet_reaper:
  "run_state (run_tasks late_outside demo_decoders quiet_server [ReaperTick]) demo_world =
     ((), demo_world\<lparr>w_store := persist demo_persist (drop_session 7 demo_session demo_manager, Map.empty), w_tick := 2\<rparr>)"
proof -
  have "is_expired late demo_session"
    by (simp add: is_expired_def demo_session_def elapsed_def demo_clock_def ttl_defs)
  then have "expired_ids (\<lambda>i. late) demo_manager = [7]"
    by (simp add: expired_ids_def demo_manager_def)
  then have "sweep_expired demo_persist (\<lambda>i. late) (demo_manager, Map.empty) =
      ([demo_session\<lparr>s_status := Ended\<rparr>], persist demo_persist (drop_session 7 demo_session demo_manager, Map.empty))"
    using sweep_ids_Some [of demo_manager 7 demo_session "[]" "[]"] by (simp add: sweep_expired_cases demo_get)
  moreover have "srv_sessions quiet_server" "srv_api quiet_server = None" by (simp_all add: quiet_server_def demo_server_def)
  ultimately show ?thesis
    by (simp add: run_tasks_def run_reaper_tick quiet_teardown late_outside_def demo_outside_def demo_world_def)
qed

lemma conj_absorb_disj: "P \<and> (P \<or> Q) \<longleftrightarrow> P"
  by blast

lemma quiet_orderly: "orderly late_outside (demo_regime late)"
  by (rule demo_orderly) (auto simp: late_outside_def demo_outside_def)

text \<open>Another request creates the session 7 as soon as there is none.\<close>

definition busy_outside :: outside where
  "busy_outside = boot_outside\<lparr>ox_others := (\<lambda>n st.
     if owner_of (fst st) 7 = None
     then snd (create demo_sha demo_persist late late 7 ''alice'' None ''s1'' None st)
     else st)\<rparr>"

lemma busy_orderly: "orderly busy_outside (demo_regime late)"
proof (rule demo_orderly)
  fix n and st :: store
  let ?c = "late"
  let ?run = "create demo_sha demo_persist ?c ?c 7 ''alice'' None ''s1'' None"
  show "ox_others busy_outside n st = st \<or> mgr_step demo_sha True (st, ?c) (ox_others busy_outside n st, ?c)"
    using mgr_step.created [of st 7 ?c ?c ?c demo_sha demo_persist "''alice''" None "''s1''" None "fst (?run st)" "snd (?run st)"]
    by (simp add: busy_outside_def)
  show "stored (fst (ox_others busy_outside n st)) \<subseteq> insert 7 (stored (fst st))" if "manager_inv demo_sha (fst st)"
    using own_create(2) [OF that, of 7 "\<lambda>_. True" "''alice''" demo_persist ?c ?c None "''s1''" None "snd st" "fst (?run st)" "snd (?run st)"]
    by (auto simp: busy_outside_def)
qed (simp_all add: busy_outside_def boot_outside_def late_outside_def demo_outside_def)

lemma demo_loads:
  assumes "ox_exists ox = (\<lambda>_. True)" and "ox_read_bytes ox = (\<lambda>_. Inr bytes)"
  shows "load_manifest (ox_exists ox) (ox_read_bytes ox) (be_from_slice demo_boot) p = Some demo_manifest"
  using assms
  by (simp add: demo_boot_def load_manifest_def manifest_candidates_def manifest_load_def demo_valid split: option.split)

lemma demo_fresh:
  assumes "is_ok (load (ox_env ox))" and "ox_exists ox = (\<lambda>_. True)" and "ox_read_bytes ox = (\<lambda>_. Inr bytes)"
  obtains srv w ttl path where "main_state ox demo_boot Map.empty = Inr (srv, w)" "srv_sessions srv"
    "w_store w = ((manager_new demo_manifest True ttl)\<lparr>sm_persistence_path := path\<rparr>, Map.empty)"
proof -
  obtain cfg where cfg: "load (ox_env ox) = Inr cfg" using assms(1) by (cases "load (ox_env ox)") auto
  obtain srv w where boot: "main_state ox demo_boot Map.empty = Inr (srv, w)" and on: "srv_sessions srv"
    using demo_loads [OF assms(2,3)] by (simp add: main_state_def cfg Let_def) (simp add: demo_boot_def)
  then show thesis using fresh_store [OF boot on] demo_loads [OF assms(2,3)] that by fastforce
qed

lemma busy_created:
  fixes ttl path
  defines "m \<equiv> (manager_new demo_manifest True ttl)\<lparr>sm_persistence_path := path\<rparr>"
    and "s \<equiv> session_new demo_sha late 7 ''alice'' None ''s1'' (unwrap_or (clamp_ttl ttl) DEFAULT_TTL)"
  shows "ox_others busy_outside n (m, d) = persist demo_persist (create_state m s, d)" and "\<not> is_expired late s"
    and "sm_sessions (create_state m s) = [(7, s)]"
proof -
  have "mf_scenario demo_manifest ''s1'' = Some demo_scenario"
    by (simp add: mf_scenario_def demo_manifest_def demo_scenario_def)
  then show "ox_others busy_outside n (m, d) = persist demo_persist (create_state m s, d)"
    by (simp add: busy_outside_def create_cases m_def s_def manager_new_def holds_live_def ttl_accepted_def ttl_choice_def
        owner_of_def Let_def)
  show "sm_sessions (create_state m s) = [(7, s)]"
    by (simp add: create_state_def m_def s_def manager_new_def hm_defs)
  have "0 < unwrap_or (clamp_ttl ttl) DEFAULT_TTL" using default_ttl_in_range [of ttl] by (simp add: ttl_defs)
  then show "\<not> is_expired late s"
    using default_ttl_in_range [of ttl] by (simp add: s_def session_new_def is_expired_def elapsed_def from_std_max_ttl)
qed

lemma nothing_to_sweep: "expired_ids clk (fst st) = [] \<Longrightarrow> sweep_expired P clk st = ([], st)"
  by (cases st) (simp add: sweep_expired_cases)

definition bob_deletes :: inbound where
  "bob_deletes =
     \<lparr>in_method = ''DELETE'',
      in_request = \<lparr>rq_path = ''/api/v1/sessions/7'', rq_headers = [''x-datashuttle-user-id'' \<mapsto> ''bob''], rq_identity = None\<rparr>,
      in_body = Inr [], in_query = []\<rparr>"

text \<open>A request of alice to extend her session by the default hour, run where the session is in the store.\<close>

definition alice_extends :: inbound where
  "alice_extends =
     \<lparr>in_method = ''POST'',
      in_request = \<lparr>rq_path = ''/api/v1/sessions/7/extend'', rq_headers = [''x-datashuttle-user-id'' \<mapsto> ''alice''], rq_identity = None\<rparr>,
      in_body = Inr [], in_query = []\<rparr>"

lemma alice_extends_simps:
  "route (in_method alice_extends) (rq_path (in_request alice_extends)) = Route (EpExtend ''7'')"
  "\<not> is_exempt (rq_path (in_request alice_extends))"
  "identity_of (in_request alice_extends) =
     Some \<lparr>id_user_id = ''alice'', id_tenant_id = None, id_actor_id = None, id_auth_method = ''unknown''\<rparr>"
  by code_simp+

definition hour_more :: "session \<Rightarrow> session" where
  "hour_more s = snd (extend_closure late late (from_secs 3600) s)"

lemma hour_more_live: "\<not> is_expired late s \<Longrightarrow> \<not> is_expired late (hour_more s)"
  by (simp add: hour_more_def extend_closure_def extend_cases Let_def extended_deadlines)

lemma hour_more_user: "s_user_id (hour_more s) = s_user_id s"
  by (auto simp: hour_more_def extend_closure_def extend_cases Let_def) (simp add: extended_def)

lemma busy_settled: "owner_of (fst st) 7 \<noteq> None \<Longrightarrow> ox_others busy_outside n st = st"
  by (auto simp: busy_outside_def)

lemma busy_clock: "ox_clock busy_outside = (\<lambda>_ _. late)"
  by (simp add: busy_outside_def boot_outside_def late_outside_def)

lemma alice_extended:
  fixes srv w
  defines "w' \<equiv> snd (run_state (serve busy_outside demo_decoders srv alice_extends) w)"
  assumes on: "srv_sessions srv" "cfg_auth_token (srv_config srv) = None"
    and s: "sm_sessions (fst (w_store w)) = [(7, s)]" "s_user_id s = ''alice''"
  shows "hm_get (sm_sessions (fst (w_store w'))) 7 = Some (hour_more s)" and "w_tick w' \<le> w_tick w + 3"
proof -
  let ?req = "(in_request alice_extends)\<lparr>rq_identity := identity_of (in_request alice_extends)\<rparr>"
  have "has_credentials srv (in_request alice_extends)"
    using on(2) alice_extends_simps(3) by (simp add: has_credentials_def)
  then have serve: "serve busy_outside demo_decoders srv alice_extends =
      run_endpoint busy_outside demo_decoders srv alice_extends ?req (EpExtend ''7'')"
    using alice_extends_simps(1,2) by (simp add: serve_cases dispatch_route_def Let_def)
  obtain m d where st: "w_store w = (m, d)" by fastforce
  then have own: "owner_of m 7 \<noteq> None" "owned m 7 ''alice'' = Inr s" "sm_sessions m = [(7, s)]"
    using s by (simp_all add: result_simps hm_defs owner_of_def)
  let ?upd = "mgr_update busy_outside 7 ''alice'' (\<lambda>c1 c2. extend_closure c1 c2 (from_secs 3600))"
  obtain r w1 where upd: "run_state ?upd w = (r, w1)" by fastforce
  then have w1: "hm_get (sm_sessions (fst (w_store w1))) 7 = Some (hour_more s)" "w_tick w1 = Suc (w_tick w)"
    using own busy_settled [of "(m, d)" "w_tick w"]
    by (auto simp: hour_more_def mgr_update_def mgr_op_def busy_clock update_def hm_defs Let_def st split: prod.splits outcome.splits)
  then have "owner_of (fst (w_store w1)) 7 \<noteq> None" by (simp add: owner_of_def)
  note busy_settled [OF this]
  then have "hm_get (sm_sessions (fst (w_store w'))) 7 = Some (hour_more s) \<and> w_tick w' \<le> w_tick w + 3"
    unfolding w'_def serve using on(1) alice_extends_simps(3) upd w1
    by (auto simp: rejected_def demo_decoders_def extend_session_def require_identity_def require_sessions_def DEFAULT_EXTEND_def
        run_mgr_get answer_def view_now_def read_clock_def split: outcome.splits sum.splits prod.splits)
  then show "hm_get (sm_sessions (fst (w_store w'))) 7 = Some (hour_more s)" "w_tick w' \<le> w_tick w + 3" by simp_all
qed

definition open_server :: server where
  "open_server = demo_server\<lparr>srv_config := demo_config\<lparr>cfg_auth_token := None\<rparr>\<rparr>"

subsection \<open>Properties\<close>

text \<open>C2: Whatever the server does is a run of the session manager's machine. Let requests, ticks of the
  reaper and orphan sweeps run in any order, the databases and the API answer in any way, and other tasks use
  the manager between any two steps, as steps of the same machine. Then the store
  moves only by steps of the machine (creations with a fresh id, logging updates, extensions, ends, touches and
  sweeps, with clocks that do not go back), each of them either one of the others' or one that leaves every session
  and every pointer of the users the tasks do not act for as it was; and the maps stay consistent. The careful
  machine, in which only live sessions are extended, covers the tasks whose extensions find a live session; any
  other tasks are runs of the machine without that guard.\<close>

theorem tasks_run_the_manager:
  assumes env: "orderly ox g" and covers: "covers ox de srv g ts w"
    and inv: "manager_inv (ox_sha256 ox) (fst (w_store w))"
    and ids: "stored (fst (w_store w)) \<subseteq> rg_foreign g \<union> ox_uuid ox ` {..<w_tick w}"
    and run: "run_state (run_tasks ox de srv ts) w = (x, w')" and limit: "w_tick w' \<le> rg_limit g"
  shows "rtranclp (\<lambda>a b. mgr_step (ox_sha256 ox) (rg_careful g) a b \<and>
             (rg_rely g a b \<or> only_users (rg_users g) (fst (fst a)) (fst (fst b))))
           (w_store w, rg_now g (w_tick w)) (w_store w', rg_now g (w_tick w')) \<and>
         manager_inv (ox_sha256 ox) (fst (w_store w'))"
proof -
  have "sound ox g w" using inv ids by (simp add: sound_def)
  note moved = tasks_manager_run [OF env covers this run limit]
  show ?thesis
    using moved(1,2) unfolding any_step_parts [OF env, abs_def] moment_def sound_def by blast
qed

theorem tasks_run_the_manager_witness:
  "rtranclp (mgr_step demo_sha True) (w_store demo_world, late)
     (w_store (snd (run_state (run_tasks late_outside demo_decoders quiet_server [ReaperTick]) demo_world)), late) \<and>
   hm_get (sm_sessions (fst (w_store demo_world))) 7 = Some demo_session \<and>
   hm_get (sm_sessions (fst (w_store (snd (run_state (run_tasks late_outside demo_decoders quiet_server [ReaperTick]) demo_world))))) 7 = None"
proof -
  let ?g = "demo_regime late"
  have "covers late_outside demo_decoders quiet_server ?g [ReaperTick] demo_world"
    by (rule covers_simple) (simp_all add: demo_regime_def)
  moreover have "manager_inv (ox_sha256 late_outside) (fst (w_store demo_world))"
    using demo_inv by (simp add: late_outside_def demo_outside_def demo_world_def)
  moreover have "stored (fst (w_store demo_world)) \<subseteq> rg_foreign ?g \<union> ox_uuid late_outside ` {..<w_tick demo_world}"
    by (auto simp: stored_def demo_world_def demo_get demo_regime_def split: if_splits)
  moreover have "w_tick (demo_world\<lparr>w_store := x, w_tick := 2\<rparr>) \<le> rg_limit ?g" for x
    by (simp add: demo_regime_def)
  ultimately have "rtranclp (\<lambda>a b. mgr_step (ox_sha256 late_outside) (rg_careful ?g) a b \<and>
        (rg_rely ?g a b \<or> only_users (rg_users ?g) (fst (fst a)) (fst (fst b))))
      (w_store demo_world, rg_now ?g (w_tick demo_world))
      (persist demo_persist (drop_session 7 demo_session demo_manager, Map.empty), rg_now ?g 2)"
    using tasks_run_the_manager [OF quiet_orderly _ _ _ quiet_reaper] by simp
  then have "rtranclp (mgr_step demo_sha True) (w_store demo_world, late)
      (persist demo_persist (drop_session 7 demo_session demo_manager, Map.empty), late)"
    by (simp add: demo_regime_def late_outside_def demo_outside_def conj_absorb_disj)
  then show ?thesis
    using drop_session_get(1) [OF demo_inv, of 7 demo_session] unfolding quiet_reaper
    by (simp add: demo_world_def demo_get)
qed

text \<open>C3: One live session per user, for the whole server. Start the server on a directory without a session
  file and let it serve any requests, with the reaper and the orphan sweep among them and other such tasks at the
  same time; a session that has expired is not extended before the reaper takes it, neither by these tasks
  (\<open>covers\<close>) nor by the others (\<open>orderly\<close>). At every moment two sessions of one user that have not expired are the
  same session, the user's pointer leads to it, and it has at most eight hours left.\<close>

theorem server_one_live_session:
  assumes boot: "main_state ox be d = Inr (srv, w)" and on: "srv_sessions srv"
    and empty: "d (sessions_path (cfg_data_dir (srv_config srv))) = None"
    and env: "orderly ox g" and covers: "covers ox de srv g ts w" and careful: "rg_careful g"
    and run: "run_state (run_tasks ox de srv ts) w = (x, w')" and limit: "w_tick w' \<le> rg_limit g"
    and s: "hm_get (sm_sessions (fst (w_store w'))) i = Some s" "\<not> is_expired (rg_now g (w_tick w')) s"
    and t: "hm_get (sm_sessions (fst (w_store w'))) j = Some t" "\<not> is_expired (rg_now g (w_tick w')) t"
    and same: "s_user_id s = s_user_id t"
  shows "i = j \<and> hm_get (sm_per_user (fst (w_store w'))) (s_user_id s) = Some i \<and>
         remaining (rg_now g (w_tick w')) s \<le> MAX_TTL"
proof -
  let ?path = "sessions_path (cfg_data_dir (srv_config srv))"
  obtain mf where store: "w_store w = ((manager_new mf True (cfg_session_ttl (srv_config srv)))\<lparr>sm_persistence_path := Some ?path\<rparr>, d)"
    using fresh_store [OF boot on empty] by blast
  have start: "mgr_reach (ox_sha256 ox) True mf True (cfg_session_ttl (srv_config srv)) (Some ?path) (moment g w)"
    unfolding moment_def store by (rule mgr_reach.boot)
  moreover have "stored (fst (w_store w)) = {}" by (simp add: store stored_def manager_new_def)
  ultimately have "sound ox g w" using reach_inv by (fastforce simp: sound_def moment_def)
  then have "rtranclp (mgr_step (ox_sha256 ox) True) (moment g w) (moment g w')"
    using tasks_manager_run(3) [OF env covers _ run limit] careful by simp
  then have reach: "mgr_reach (ox_sha256 ox) True mf True (cfg_session_ttl (srv_config srv)) (Some ?path) (moment g w')"
    using start by (rule run_reach)
  then have one: "one_live (rg_now g (w_tick w')) (fst (w_store w'))" using reach_one_live [OF reach] by (simp add: moment_def)
  have left: "remaining (rg_now g (w_tick w')) s \<le> MAX_TTL"
    using reach_remaining [of _ mf True _ _ "fst (w_store w')" "snd (w_store w')"] reach s(1) by (simp add: moment_def)
  show ?thesis using one_liveD [OF one s] one_liveD [OF one t] same left by simp
qed

theorem server_one_live_session_witness:
  "\<exists>srv w s. main_state busy_outside demo_boot Map.empty = Inr (srv, w) \<and>
     (let m = fst (w_store (snd (run_state (run_tasks busy_outside demo_decoders srv [ReaperTick, Request alice_extends]) w)))
      in hm_get (sm_sessions m) 7 = Some (hour_more s) \<and> hm_get (sm_per_user m) ''alice'' = Some 7 \<and>
         remaining late (hour_more s) \<le> MAX_TTL)"
proof -
  have "is_ok (load (ox_env busy_outside))" by (simp add: load_ok_iff busy_outside_def boot_outside_def)
  then obtain srv w ttl path where boot: "main_state busy_outside demo_boot Map.empty = Inr (srv, w)" and on: "srv_sessions srv"
    and store: "w_store w = ((manager_new demo_manifest True ttl)\<lparr>sm_persistence_path := path\<rparr>, Map.empty)"
    by (rule demo_fresh) (simp_all add: busy_outside_def boot_outside_def)
  let ?m = "(manager_new demo_manifest True ttl)\<lparr>sm_persistence_path := path\<rparr>"
  let ?s = "session_new demo_sha late 7 ''alice'' None ''s1'' (unwrap_or (clamp_ttl ttl) DEFAULT_TTL)"
  let ?st = "persist demo_persist (create_state ?m ?s, Map.empty)" and ?g = "demo_regime late"
  note made = busy_created(1) [where ttl = ttl and path = path] busy_created(2) [where ttl = ttl]
    busy_created(3) [where ttl = ttl and path = path]
  have "expired_ids (\<lambda>i. late) (create_state ?m ?s) = []"
    unfolding expired_ids_def made(3) using made(2) by simp
  then have sweep: "sweep_expired P (\<lambda>i. late) ?st = ([], ?st)" for P
    by (intro nothing_to_sweep) simp
  let ?w = "w\<lparr>w_store := ?st, w_tick := Suc (w_tick w)\<rparr>"
  have tick1: "run_state (run_task busy_outside demo_decoders srv ReaperTick) w = ((), ?w)"
    using run_reaper_tick [OF on, of busy_outside w "[]" ?st] sweep by (simp add: busy_clock store made(1))
  let ?v = "snd (run_state (serve busy_outside demo_decoders srv alice_extends) ?w)"
  have run: "run_state (run_tasks busy_outside demo_decoders srv [ReaperTick, Request alice_extends]) w = ((), ?v)"
    using tick1 by (simp add: run_tasks_def discard_def split: prod.split)
  have "cfg_auth_token (srv_config srv) = None"
    using load_options(1) [OF main_state_Inr(1) [OF boot]] by (simp add: busy_outside_def boot_outside_def)
  note extended = alice_extended [OF on this, of ?w ?s]
  then have s: "hm_get (sm_sessions (fst (w_store ?v))) 7 = Some (hour_more ?s)" using made(3) by (simp add: session_new_def)
  have live: "\<not> is_expired (rg_now ?g (w_tick ?v)) (hour_more ?s)"
    using hour_more_live [OF made(2)] by (simp add: demo_regime_def)
  have "finds_live busy_outside 7 ?w"
    using made(2,3) busy_settled [of ?st "Suc (w_tick w)"] by (simp add: finds_live_def busy_clock owner_of_def hm_defs)
  then have covers: "covers busy_outside demo_decoders srv ?g [ReaperTick, Request alice_extends] w" "rg_careful ?g"
    using alice_extends_simps(1) tick1 by (auto simp: demo_regime_def extends_live_def demo_decoders_def)
  have tick: "w_tick ?v \<le> rg_limit ?g"
    using extended(2) made(3) main_state_Inr(5) [OF boot] by (simp add: demo_regime_def session_new_def)
  from server_one_live_session [OF boot on _ busy_orderly covers run tick s live s live refl]
  have "hm_get (sm_per_user (fst (w_store ?v))) (s_user_id ?s) = Some 7 \<and> remaining late (hour_more ?s) \<le> MAX_TTL"
    by (simp add: demo_regime_def hour_more_user)
  then have "hm_get (sm_per_user (fst (w_store ?v))) ''alice'' = Some 7 \<and> remaining late (hour_more ?s) \<le> MAX_TTL"
    by (simp add: session_new_def)
  then show ?thesis using boot s unfolding Let_def by (intro exI [of _ srv] exI [of _ w] exI [of _ ?s]) (simp add: run)
qed

text \<open>C6: A request touches only its own user. Whatever a request asks for, whatever its path, body and ids, and whatever the
  databases and the API answer: when nothing else runs, every session and the pointer of every user other than
  the one its identity header names are after it exactly as they were before; a request without an
  identity touches nobody's. No session appears for another user either. This holds for actions that run SQL, for
  resets and for teardowns, since what they run never reaches the store.\<close>

theorem request_touches_only_its_user:
  assumes alone: "\<And>n st. ox_others ox n st = st"
    and clocks: "\<And>n k. clk_le (now n) (ox_clock ox n k) \<and> clk_le (ox_clock ox n k) (now (Suc n))"
      "\<And>n. clk_le (ox_clock ox n 0) (ox_clock ox n 1)"
    and inv: "manager_inv (ox_sha256 ox) (fst (w_store w))"
    and ids: "inj_on (ox_uuid ox) {..<w_tick w'}" "ox_uuid ox ` {w_tick w..<w_tick w'} \<inter> stored (fst (w_store w)) = {}"
    and run: "run_state (serve ox de srv b) w = (reply, w')" and other: "\<not> acts_for (Request b) v"
  shows "(s_user_id s = v \<longrightarrow>
            (hm_get (sm_sessions (fst (w_store w'))) i = Some s \<longleftrightarrow> hm_get (sm_sessions (fst (w_store w))) i = Some s)) \<and>
         hm_get (sm_per_user (fst (w_store w'))) v = hm_get (sm_per_user (fst (w_store w))) v"
proof -
  let ?g = "\<lparr>rg_careful = False, rg_users = acts_for (Request b), rg_rely = (\<lambda>(st, c) (st', c'). st' = st \<and> clk_le c c'),
      rg_foreign = stored (fst (w_store w)) - ox_uuid ox ` {..<w_tick w}, rg_limit = w_tick w', rg_now = now\<rparr>"
  have "ox_uuid ox ` {..<w_tick w'} \<subseteq> ox_uuid ox ` {..<w_tick w} \<union> ox_uuid ox ` {w_tick w..<w_tick w'}" by force
  then have "ox_uuid ox ` {..<rg_limit ?g} \<inter> rg_foreign ?g = {}" using ids(2) by auto
  moreover have "\<exists>c. rtranclp (rg_rely ?g) (st, rg_now ?g n) (ox_others ox n st, c) \<and> (\<forall>k. clk_le c (ox_clock ox n k))" for n st
    using clocks(1) by (intro exI [of _ "now n"]) (simp add: alone)
  ultimately have env: "orderly ox ?g"
    unfolding orderly_def using clocks ids(1) by (auto simp: alone intro: mgr_step.tick)
  have "sound ox ?g w" using inv by (auto simp: sound_def)
  moreover have "run_state (run_tasks ox de srv [Request b]) w = ((), w')"
    using run by (simp add: run_tasks_def discard_def)
  ultimately have "rtranclp (any_step (ox_sha256 ox) ?g) (moment ?g w) (moment ?g w')"
    by (intro tasks_manager_run(2) [OF env]) auto
  then have "only_users (rg_users ?g) (fst (fst (moment ?g w))) (fst (fst (moment ?g w')))"
    by (rule only_users_run) auto
  then show ?thesis using other unfolding only_users_def moment_def fst_conv by (metis regime.select_convs(2))
qed

theorem request_touches_only_its_user_witness:
  "fst (run_state (serve demo_outside demo_decoders open_server bob_deletes) demo_world) = RError 403 (session_error_display Forbidden) \<and>
   hm_get (sm_sessions (fst (w_store (snd (run_state (serve demo_outside demo_decoders open_server bob_deletes) demo_world))))) 7 =
     Some demo_session"
proof -
  have id: "identity_of (in_request bob_deletes) =
      Some \<lparr>id_user_id = ''bob'', id_tenant_id = None, id_actor_id = None, id_auth_method = ''unknown''\<rparr>"
    by code_simp
  have creds: "has_credentials open_server (in_request bob_deletes)" using id by (simp add: has_credentials_def open_server_def)
  have "route ''DELETE'' ''/api/v1/sessions/7'' = Route (EpEnd ''7'')" by code_simp
  moreover have "\<not> is_exempt (rq_path (in_request bob_deletes))" by code_simp
  ultimately have run: "run_state (serve demo_outside demo_decoders open_server bob_deletes) demo_world =
      (RError 403 (session_error_display Forbidden), demo_world\<lparr>w_tick := 1\<rparr>)"
    using creds id
    by (simp add: serve_cases dispatch_route_def bob_deletes_def demo_decoders_def rejected_def answer_def end_session_def
        attempt_ret require_identity_def require_sessions_def run_mgr_end end_session_of_def owned_cases demo_get
        demo_outside_def demo_world_def demo_server_def open_server_def demo_session_def map_session_err_def err_def)
  have ids: "inj_on (ox_uuid demo_outside) {..<w_tick (demo_world\<lparr>w_tick := 1\<rparr>)}"
    "ox_uuid demo_outside ` {w_tick demo_world..<w_tick (demo_world\<lparr>w_tick := 1\<rparr>)} \<inter> stored (fst (w_store demo_world)) = {}"
    by (auto simp: demo_outside_def demo_world_def stored_def demo_get inj_on_def split: if_splits)
  have "\<not> acts_for (Request bob_deletes) ''alice''" using id by simp
  moreover have "ox_others demo_outside n st = st" "clk_le demo_clock (ox_clock demo_outside n k) \<and> clk_le (ox_clock demo_outside n k) demo_clock"
    "clk_le (ox_clock demo_outside n 0) (ox_clock demo_outside n 1)" for n k st by (simp_all add: demo_outside_def)
  moreover have "manager_inv (ox_sha256 demo_outside) (fst (w_store demo_world))"
    using demo_inv by (simp add: demo_outside_def demo_world_def)
  ultimately have "hm_get (sm_sessions (fst (w_store (demo_world\<lparr>w_tick := 1\<rparr>)))) 7 = Some demo_session"
    using request_touches_only_its_user [of demo_outside "\<lambda>_. demo_clock", OF _ _ _ _ ids run, of "''alice''" demo_session 7]
    by (simp add: demo_world_def demo_get demo_session_def)
  then show ?thesis using run by simp
qed

end
