(* ===== verification/Server_Quota.thy ===== *)
theory Server_Quota
  imports Server_Machine
begin

text \<open>
  The daily quota at the level of the server: what a sequence of requests leaves in the tracker, and how
  many of them can have been answered with a new session. Only a request to create a session touches the
  quota, and it charges the tenant of its identity once, before the manager is asked; every other
  computation is \<open>uncharged\<close>. The mutex of the tracker orders the charges, so the requests are taken in the
  order in which they reach it. The budget contract of \<open>Quota\<close> (\<open>budget\<close>) does the counting.
\<close>

subsection \<open>One request\<close>

text \<open>The replies of a sequence of requests, each with the number of the step it began at.\<close>

fun serve_all :: "outside \<Rightarrow> decoders \<Rightarrow> server \<Rightarrow> inbound list \<Rightarrow> (inbound \<times> nat \<times> reply) list act" where
  "serve_all ox de srv [] = ret []"
| "serve_all ox de srv (b # bs) =
     do { n \<leftarrow> gets w_tick; r \<leftarrow> serve ox de srv b; rs \<leftarrow> serve_all ox de srv bs; ret ((b, n, r) # rs) }"

definition day_of :: "outside \<Rightarrow> nat \<Rightarrow> int" where
  "day_of ox n = date_naive (utc (ox_clock ox n 0))"

definition created_for :: "outside \<Rightarrow> str \<Rightarrow> int \<Rightarrow> inbound \<times> nat \<times> reply \<Rightarrow> bool" where
  "created_for ox k d x \<longleftrightarrow>
     (case x of (b, n, r) \<Rightarrow>
        (\<exists>v. r = RSession 201 v) \<and>
        (\<exists>i. identity_of (in_request b) = Some i \<and> tenant_key (id_tenant_id i) = k) \<and> day_of ox n = d)"

lemma serve_forward: "w_tick w \<le> w_tick (snd (run_state (serve ox de srv b) w))"
proof -
  let ?g = "\<lparr>rg_careful = False, rg_users = (\<lambda>_. True), rg_rely = undefined, rg_foreign = undefined, rg_limit = undefined,
      rg_now = undefined\<rparr>"
  have "within (follows ox ?g) (serve ox de srv b)" by (rule runs.serving) simp_all
  then show ?thesis using withinD [of "follows ox ?g" "serve ox de srv b" w] by (simp add: follows_def)
qed

lemma create_charges:
  fixes ox from_slice srv req body w
  defines "r \<equiv> fst (run_state (create_session ox from_slice srv req body) w)"
    and "w' \<equiv> snd (run_state (create_session ox from_slice srv req body) w)"
  shows "(w_quota w' = w_quota w \<and> \<not> is_ok r) \<or>
         (\<exists>i. rq_identity req = Some i \<and>
            w_quota w' = snd (try_consume_at (w_quota w) (id_tenant_id i) (utc (ox_clock ox (w_tick w) 0))) \<and>
            (is_ok r \<longrightarrow> is_ok (fst (try_consume_at (w_quota w) (id_tenant_id i) (utc (ox_clock ox (w_tick w) 0))))))"
proof (cases "rq_identity req = None \<or> \<not> srv_sessions srv \<or> \<not> is_ok body \<or> \<not> is_ok (from_slice (unwrap_or body []))")
  case True
  then show ?thesis
    unfolding r_def w'_def by (cases "rq_identity req"; cases body; cases "from_slice (unwrap_or body [])")
      (auto simp: create_session_def require_identity_def require_sessions_def)
next
  case False
  then obtain i bytes cb where gate1: "rq_identity req = Some i" "srv_sessions srv" "body = Inr bytes" "from_slice bytes = Inr cb"
    by (cases body; cases "from_slice (unwrap_or body [])") auto
  show ?thesis
  proof (cases "\<exists>sc. mf_scenario (sm_manifest (fst (w_store w))) (cb_scenario_id cb) = Some sc \<and>
      allowed_in sc (deployment_of (srv_config srv))")
    case False
    then show ?thesis
      unfolding r_def w'_def using gate1 by (cases "mf_scenario (sm_manifest (fst (w_store w))) (cb_scenario_id cb)")
        (auto simp: create_session_def require_identity_def require_sessions_def)
  next
    case True
    then obtain sc where gate2: "mf_scenario (sm_manifest (fst (w_store w))) (cb_scenario_id cb) = Some sc"
        "allowed_in sc (deployment_of (srv_config srv))" by blast
    obtain q qs where q: "try_consume_at (w_quota w) (id_tenant_id i) (utc (ox_clock ox (w_tick w) 0)) = (q, qs)" by fastforce
    let ?rest = "attempt (or_http (mgr_create ox (id_user_id i) (id_tenant_id i) (cb_scenario_id cb)
        (map_option (\<lambda>t. from_secs (unat t)) (cb_ttl_seconds cb)))) (provision_session ox srv i (sm_manifest (fst (w_store w))) sc)"
    have rest: "w_quota (snd (run_state ?rest v)) = w_quota v" for v
      using withinD [OF uncharged.question [OF uncharged.wrappers(5) [OF uncharged_uses(2)] uncharged.provisioned], of v]
      by (simp add: uncharged_def)
    show ?thesis
      unfolding r_def w'_def using gate1 gate2 q rest
      by (cases q)
        (auto simp: create_session_def attempt_ret require_identity_def require_sessions_def Let_def run_quota_consume
          simp del: run_attempt)
  qed
qed

text \<open>A reply of 201 comes from the route that creates sessions.\<close>

lemma answer_run: "run_state (answer ok m) w =
    (case run_state m w of (r, w') \<Rightarrow> ((case r of Inl (status, msg) \<Rightarrow> RError status msg | Inr x \<Rightarrow> ok x), w'))"
  by (simp add: answer_def split: prod.split)

lemma other_endpoints:
  assumes "ep \<noteq> EpCreate"
  shows "w_quota (snd (run_state (run_endpoint ox de srv b req ep) w)) = w_quota w"
    and "fst (run_state (run_endpoint ox de srv b req ep) w) \<noteq> RSession 201 v"
proof -
  show "w_quota (snd (run_state (run_endpoint ox de srv b req ep) w)) = w_quota w"
    using withinD [OF uncharged.endpoints [of req ep ox de srv b], of w] assms by (simp add: uncharged_def)
  show "fst (run_state (run_endpoint ox de srv b req ep) w) \<noteq> RSession 201 v"
    using assms
    by (cases ep) (auto simp: answer_run rejected_def metrics_handler_def split: sum.splits prod.splits outcome.splits)
qed

text \<open>What one request does to the quota, as seen from its reply.\<close>

definition charges :: "outside \<Rightarrow> identity option \<Rightarrow> world \<Rightarrow> reply \<times> world \<Rightarrow> bool" where
  "charges ox who w x \<longleftrightarrow>
     (w_quota (snd x) = w_quota w \<and> (\<forall>v. fst x \<noteq> RSession 201 v)) \<or>
     (\<exists>i. who = Some i \<and>
        w_quota (snd x) = snd (try_consume_at (w_quota w) (id_tenant_id i) (utc (ox_clock ox (w_tick w) 0))) \<and>
        ((\<exists>v. fst x = RSession 201 v) \<longrightarrow>
           is_ok (fst (try_consume_at (w_quota w) (id_tenant_id i) (utc (ox_clock ox (w_tick w) 0))))))"

lemma charges_error: "charges ox who w (RError status msg, w)"
  by (simp add: charges_def)

lemma charges_endpoint: "charges ox (rq_identity req) w (run_state (run_endpoint ox de srv b req ep) w)"
proof (cases "ep = EpCreate")
  case True
  have "\<exists>v. fst (run_state (run_endpoint ox de srv b req EpCreate) w) = RSession 201 v \<Longrightarrow>
      is_ok (fst (run_state (create_session ox (de_body de) srv req (in_body b)) w))"
    by (auto simp: answer_run split: prod.splits sum.splits)
  moreover have "snd (run_state (run_endpoint ox de srv b req EpCreate) w) =
      snd (run_state (create_session ox (de_body de) srv req (in_body b)) w)"
    by (simp add: answer_run split: prod.split)
  ultimately show ?thesis
    using create_charges [of ox "de_body de" srv req "in_body b" w] unfolding charges_def True by metis
next
  case False
  then show ?thesis using other_endpoints [OF False] by (simp add: charges_def)
qed

lemma charges_route: "charges ox (rq_identity req) w (run_state (dispatch_route ox de srv b req) w)"
  unfolding dispatch_route_def
  by (auto simp: charges_error charges_endpoint split: routed.split)

lemma charges_serve: "charges ox (identity_of (in_request b)) w (run_state (serve ox de srv b) w)"
proof (cases "is_exempt (rq_path (in_request b))")
  case True
  have "fst (run_state (dispatch_route ox de srv b (in_request b)) w) \<noteq> RSession 201 v" for v
  proof (cases "route (in_method b) (rq_path (in_request b))")
    case (Route ep)
    then have "open_endpoint ep" using route_exempt True by blast
    then have "ep \<noteq> EpCreate" by (auto simp: open_endpoint_def)
    then show ?thesis using Route other_endpoints(2) by (simp add: dispatch_route_def)
  qed (simp_all add: dispatch_route_def)
  then show ?thesis using True dispatch_exempt [OF True] by (simp add: serve_cases charges_def)
next
  case False
  then show ?thesis
    using charges_route [of ox "(in_request b)\<lparr>rq_identity := identity_of (in_request b)\<rparr>" w de srv b]
    by (auto simp: serve_cases Let_def charges_error)
qed

subsection \<open>Sequences of requests\<close>

lemma serve_all_Cons:
  "run_state (serve_all ox de srv (b # bs)) w =
     (case run_state (serve ox de srv b) w of (r, w1) \<Rightarrow>
        (case run_state (serve_all ox de srv bs) w1 of (rs, w2) \<Rightarrow> ((b, w_tick w, r) # rs, w2)))"
  by (simp split: prod.split)

lemma serve_all_ticks:
  "(b, n, r) \<in> set (fst (run_state (serve_all ox de srv bs) w)) \<Longrightarrow> w_tick w \<le> n"
proof (induction bs arbitrary: w)
  case (Cons b bs)
  obtain r1 w1 where run: "run_state (serve ox de srv b) w = (r1, w1)" by fastforce
  then have "w_tick w \<le> w_tick w1" using serve_forward [of w ox de srv b] by simp
  then show ?case
    using Cons.prems Cons.IH [of w1] run by (auto simp: serve_all_Cons simp del: serve_all.simps split: prod.splits)
qed simp

lemma serve_all_within:
  assumes clocks: "\<And>m n. m \<le> n \<Longrightarrow> utc (ox_clock ox m 0) \<le> utc (ox_clock ox n 0)"
  shows "quota_inv (w_quota w) \<Longrightarrow> (day_of ox (w_tick w) < d \<Longrightarrow> charged (w_quota w) k d = 0) \<Longrightarrow>
         length (filter (created_for ox k d) (fst (run_state (serve_all ox de srv bs) w))) \<le>
         unat (q_max_per_day (w_quota w)) - charged (w_quota w) k d"
proof (induction bs arbitrary: w)
  case Nil
  then show ?case by simp
next
  case (Cons b bs)
  let ?q = "w_quota w" and ?n = "w_tick w" and ?d = "day_of ox (w_tick w)"
  obtain r w1 where run: "run_state (serve ox de srv b) w = (r, w1)" by fastforce
  let ?q1 = "w_quota w1"
  let ?rest = "fst (run_state (serve_all ox de srv bs) w1)"
  have days: "day_of ox m \<le> day_of ox n" if "m \<le> n" for m n
    using clocks [OF that] by (simp add: day_of_def date_naive_mono)
  have "w_tick w \<le> w_tick w1" using serve_forward [of w ox de srv b] run by simp
  then have later: "?d \<le> day_of ox (w_tick w1)" by (rule days)
  have count: "length (filter (created_for ox k d) (fst (run_state (serve_all ox de srv (b # bs)) w))) =
      (if created_for ox k d (b, ?n, r) then 1 else 0) + length (filter (created_for ox k d) ?rest)"
    by (simp add: serve_all_Cons run del: serve_all.simps split: prod.split)
  have "charges ox (identity_of (in_request b)) w (r, w1)" using charges_serve [of ox b w de srv] run by simp
  then consider (none) "?q1 = ?q" "\<And>v. r \<noteq> RSession 201 v"
    | (charge) i where "identity_of (in_request b) = Some i" "?q1 = snd (consume_day ?q (tenant_key (id_tenant_id i)) ?d)"
        "\<And>v. r = RSession 201 v \<Longrightarrow> fst (consume_day ?q (tenant_key (id_tenant_id i)) ?d)"
    unfolding charges_def day_of_def consume_day_now by auto
  then show ?case
  proof cases
    case none
    then have "\<not> created_for ox k d (b, ?n, r)" by (auto simp: created_for_def)
    then show ?thesis using Cons.IH [of w1] Cons.prems later none(1) count by simp
  next
    case charge
    let ?k = "tenant_key (id_tenant_id i)"
    note good = Cons.prems(1)
    have made: "created_for ox k d (b, ?n, r) \<Longrightarrow> ?k = k \<and> ?d = d \<and> charged ?q ?k ?d < unat (q_max_per_day ?q)"
      using charge(1,3) by (auto simp: created_for_def budget.granted_iff [OF good])
    have IH: "length (filter (created_for ox k d) ?rest) \<le> unat (q_max_per_day ?q) - charged ?q1 k d"
      using Cons.IH [of w1] budget.good_consume [OF good] budget.limit_fixed [of ?q ?k ?d] budget.used_pruned [OF good, of d ?d] later
      unfolding charge(2) by force
    consider "?d = d" "?k = k" | "?d = d" "?k \<noteq> k" | "?d < d" | "d < ?d" by fastforce
    then show ?thesis
    proof cases
      case 1
      then show ?thesis using count IH made budget.used_same [OF good, of ?k ?d] charge(2) by (auto split: if_splits)
    next
      case 2
      then show ?thesis using count IH made budget.used_other [OF good, of k ?k ?d] charge(2) by (auto split: if_splits)
    next
      case 3
      then show ?thesis using count IH made Cons.prems(2) by (auto split: if_splits)
    next
      case 4
      have "\<not> created_for ox k d x" if "x \<in> set ?rest" for x
        using that serve_all_ticks [of "fst x" "fst (snd x)" "snd (snd x)" ox de srv bs w1] days [of "w_tick w1" "fst (snd x)"] later 4
        by (auto simp: created_for_def split: prod.splits)
      then have "filter (created_for ox k d) ?rest = []" by (simp add: filter_empty_conv)
      then show ?thesis unfolding count using made 4 by auto
    qed
  qed
qed

subsection \<open>A concrete run\<close>

definition dev_outside :: outside where
  "dev_outside = boot_outside\<lparr>ox_env := (ox_env boot_outside)(''PLAYGROUND_DEPLOYMENT'' \<mapsto> ''dev'')\<rparr>"

definition body_decoders :: decoders where
  "body_decoders = demo_decoders\<lparr>de_body := (\<lambda>_. Inr \<lparr>cb_scenario_id = ''s1'', cb_ttl_seconds = None\<rparr>)\<rparr>"

definition alice_creates :: inbound where
  "alice_creates =
     \<lparr>in_method = ''POST'',
      in_request = \<lparr>rq_path = ''/api/v1/sessions'', rq_headers = [''x-datashuttle-user-id'' \<mapsto> ''alice''], rq_identity = None\<rparr>,
      in_body = Inr [], in_query = []\<rparr>"

lemma alice_identity:
  "identity_of (in_request alice_creates) =
     Some \<lparr>id_user_id = ''alice'', id_tenant_id = None, id_actor_id = None, id_auth_method = ''unknown''\<rparr>"
  by code_simp

lemma alice_admitted:
  assumes boot: "main_state dev_outside demo_boot Map.empty = Inr (srv, w)" and on: "srv_sessions srv"
    and store: "w_store w = ((manager_new demo_manifest True ttl)\<lparr>sm_persistence_path := path\<rparr>, Map.empty)"
  shows "\<exists>v w'. run_state (serve dev_outside body_decoders srv alice_creates) w = (RSession 201 v, w')"
proof -
  let ?req = "(in_request alice_creates)\<lparr>rq_identity := identity_of (in_request alice_creates)\<rparr>"
  note cfg = main_state_Inr(1) [OF boot]
  have body: "in_body alice_creates = Inr []" by (simp add: alice_creates_def)
  have trim: "trim ''dev'' = ''dev''" by code_simp
  have dev: "deployment_of (srv_config srv) = Dev"
    using load_options(4) [OF cfg] by (simp add: dev_outside_def boot_outside_def deployment_of_def trim)
  have tok: "cfg_auth_token (srv_config srv) = None"
    using load_options(1) [OF cfg] by (simp add: dev_outside_def boot_outside_def)
  have quota: "w_quota w = with_limit (cfg_session_quota_per_day (srv_config srv))" using main_state_Inr(3) [OF boot] .
  have "unat (cfg_session_quota_per_day (srv_config srv)) = 20"
    using load_quota [OF cfg] by (simp add: dev_outside_def boot_outside_def)
  then have "is_ok (fst (try_consume_at (w_quota w) None now))" for now
    unfolding quota by (auto simp: try_consume_at_def with_limit_def hm_defs Let_def word_le_nat_alt)
  moreover have "mf_scenario demo_manifest ''s1'' = Some demo_scenario" "allowed_in demo_scenario Dev"
    by (simp_all add: mf_scenario_def demo_manifest_def demo_scenario_def allowed_in_def)
  ultimately have "\<exists>s. admits dev_outside (de_body body_decoders) srv ?req (in_body alice_creates) w s"
    using on dev
    by (auto simp: admits_def alice_identity body body_decoders_def store manager_new_def
        dev_outside_def boot_outside_def late_outside_def demo_outside_def create_cases ttl_accepted_def holds_live_def Let_def)
  then obtain v where v: "fst (run_state (create_session dev_outside (de_body body_decoders) srv ?req (in_body alice_creates)) w) = Inr (201, v)"
    using create_session_cases [of dev_outside "de_body body_decoders" srv ?req "in_body alice_creates" w] by blast
  have "has_credentials srv (in_request alice_creates)" using tok alice_identity by (simp add: has_credentials_def)
  moreover have "\<not> is_exempt (rq_path (in_request alice_creates))" "route ''POST'' ''/api/v1/sessions'' = Route EpCreate" by code_simp+
  ultimately have "serve dev_outside body_decoders srv alice_creates =
      run_endpoint dev_outside body_decoders srv alice_creates ?req EpCreate"
    by (simp add: serve_cases dispatch_route_def Let_def) (simp add: alice_creates_def dispatch_route_def)
  then show ?thesis using v by (auto simp: answer_run split: prod.splits)
qed

subsection \<open>Properties\<close>

text \<open>C16: No tenant gets more sessions in a day than the operator allows. From the start of the server, over any sequence
  of requests of any users, in the order in which they reach the quota and with clocks that do not go back, the requests of
  one tenant that are answered with a new session on one UTC day are at most as many as the configured daily quota,
  whatever becomes of the sessions (ended and created again), whatever the other tenants do and whatever the
  databases answer. Requests without a tenant share one budget.\<close>

theorem sessions_within_daily_quota:
  assumes boot: "main_state ox be disk = Inr (srv, w)"
    and clocks: "\<And>m n. m \<le> n \<Longrightarrow> utc (ox_clock ox m 0) \<le> utc (ox_clock ox n 0)"
    and run: "run_state (serve_all ox de srv bs) w = (replies, w')"
  shows "length (filter (created_for ox tenant day) replies) \<le> unat (cfg_session_quota_per_day (srv_config srv))"
proof -
  have quota: "w_quota w = with_limit (cfg_session_quota_per_day (srv_config srv))" using main_state_Inr(3) [OF boot] .
  then have "charged (w_quota w) tenant day = 0" by (simp add: charged_alt with_limit_def)
  then show ?thesis
    using serve_all_within [OF clocks, of w day tenant de srv bs] run quota quota_inv_with_limit by (simp add: with_limit_def)
qed

theorem sessions_within_daily_quota_witness:
  "\<exists>srv w v. main_state dev_outside demo_boot Map.empty = Inr (srv, w) \<and>
     fst (run_state (serve_all dev_outside body_decoders srv [alice_creates]) w) = [(alice_creates, 0, RSession 201 v)] \<and>
     created_for dev_outside [] (day_of dev_outside 0) (alice_creates, 0, RSession 201 v) \<and>
     1 \<le> unat (cfg_session_quota_per_day (srv_config srv))"
proof -
  have "is_ok (load (ox_env dev_outside))" by (simp add: load_ok_iff dev_outside_def boot_outside_def)
  then obtain srv w ttl path where boot: "main_state dev_outside demo_boot Map.empty = Inr (srv, w)" and on: "srv_sessions srv"
    and store: "w_store w = ((manager_new demo_manifest True ttl)\<lparr>sm_persistence_path := path\<rparr>, Map.empty)"
    by (rule demo_fresh) (simp_all add: dev_outside_def boot_outside_def)
  obtain v w' where "run_state (serve dev_outside body_decoders srv alice_creates) w = (RSession 201 v, w')"
    using alice_admitted [OF boot on store] by blast
  then have run: "run_state (serve_all dev_outside body_decoders srv [alice_creates]) w = ([(alice_creates, 0, RSession 201 v)], w')"
    using main_state_Inr(5) [OF boot] by simp
  have made: "created_for dev_outside [] (day_of dev_outside 0) (alice_creates, 0, RSession 201 v)"
    by (simp add: created_for_def alice_identity)
  have "utc (ox_clock dev_outside m 0) \<le> utc (ox_clock dev_outside n 0)" for m n
    by (simp add: dev_outside_def boot_outside_def late_outside_def)
  from sessions_within_daily_quota [OF boot this run, of "[]" "day_of dev_outside 0"]
  have "1 \<le> unat (cfg_session_quota_per_day (srv_config srv))" using made by simp
  then show ?thesis using boot run made by (intro exI [of _ srv] exI [of _ w] exI [of _ v]) simp
qed

end
