(* ===== verification/Server_Pacing.thy ===== *)
theory Server_Pacing
  imports Server_Quota
begin

text \<open>
  The cooldown at the level of the server: how close two actions on one session can be. The manager keeps the time
  of the last action in the session; only \<open>touch_action\<close> writes it, and only \<open>execute_action\<close> uses that. So the
  stamp of a session that stays in the store never goes back, whatever the server runs: \<open>paced\<close>, one more
  instance of \<open>charging_order\<close>, states it once for every computation, and a sequence of requests follows by
  induction.
\<close>

subsection \<open>Stamps do not go back\<close>

definition tidy :: "session_manager \<Rightarrow> bool" where
  "tidy m \<longleftrightarrow> hm_ok (sm_sessions m) \<and> hm_ok (sm_per_user m)"

text \<open>The session \<open>i\<close> may act when the clock shows \<open>c\<close>.\<close>

definition may_act :: "uuid \<Rightarrow> instant \<Rightarrow> session_manager \<Rightarrow> bool" where
  "may_act i c m \<longleftrightarrow>
     hm_get (sm_sessions m) i \<noteq> None \<and> (\<forall>t. last_touch m i = Some t \<longrightarrow> t + ACTION_COOLDOWN \<le> c)"

text \<open>From \<open>m\<close> to \<open>m'\<close> the session does not appear, nor does its stamp go back: who may act then might have before.\<close>

definition keeps_pace :: "uuid \<Rightarrow> session_manager \<Rightarrow> session_manager \<Rightarrow> bool" where
  "keeps_pace i m m' \<longleftrightarrow> (\<forall>c. may_act i c m' \<longrightarrow> may_act i c m)"

lemma keeps_pace_refl [simp]: "keeps_pace i m m"
  by (simp add: keeps_pace_def)

lemma keeps_pace_trans: "keeps_pace i a b \<Longrightarrow> keeps_pace i b c \<Longrightarrow> keeps_pace i a c"
  by (simp add: keeps_pace_def)

lemma keeps_pace_same:
  assumes "\<And>s'. hm_get (sm_sessions m') i = Some s' \<Longrightarrow>
    \<exists>s. hm_get (sm_sessions m) i = Some s \<and> s_last_action_at s' = s_last_action_at s"
  shows "keeps_pace i m m'"
  using assms unfolding keeps_pace_def may_act_def last_touch_def by fastforce

text \<open>What other tasks may do meanwhile: keep the maps consistent, and not bring the session \<open>i\<close> back.\<close>

definition courteous :: "outside \<Rightarrow> uuid \<Rightarrow> bool" where
  "courteous ox i \<longleftrightarrow>
     (\<forall>n st. tidy (fst st) \<longrightarrow> tidy (fst (ox_others ox n st)) \<and> keeps_pace i (fst st) (fst (ox_others ox n st))) \<and>
     (\<forall>n. mono (ox_clock ox n 0) \<le> mono (ox_clock ox n 1))"

definition paced :: "outside \<Rightarrow> uuid \<Rightarrow> world \<Rightarrow> world \<Rightarrow> bool" where
  "paced ox i u v \<longleftrightarrow>
     w_tick u \<le> w_tick v \<and>
     (courteous ox i \<and> i \<notin> ox_uuid ox ` {w_tick u..<w_tick v} \<and> tidy (fst (w_store u)) \<longrightarrow>
        tidy (fst (w_store v)) \<and> keeps_pace i (fst (w_store u)) (fst (w_store v)))"

lemma pacedD:
  assumes "paced ox i u v" and "courteous ox i" and "i \<notin> ox_uuid ox ` {w_tick u..<w_tick v}" and "tidy (fst (w_store u))"
  shows "tidy (fst (w_store v))" and "keeps_pace i (fst (w_store u)) (fst (w_store v))"
  using assms by (simp_all add: paced_def)

interpretation pace: world_order "paced ox i" for ox i
proof
  fix u v w assume uv: "paced ox i u v" and vw: "paced ox i v w"
  then have ticks: "w_tick u \<le> w_tick v" "w_tick v \<le> w_tick w" by (simp_all add: paced_def)
  have "tidy (fst (w_store w)) \<and> keeps_pace i (fst (w_store u)) (fst (w_store w))"
    if c: "courteous ox i" and ids: "i \<notin> ox_uuid ox ` {w_tick u..<w_tick w}" and t: "tidy (fst (w_store u))"
  proof -
    have "i \<notin> ox_uuid ox ` {w_tick u..<w_tick v}" "i \<notin> ox_uuid ox ` {w_tick v..<w_tick w}" using ids ticks by auto
    then show ?thesis using pacedD [OF uv c _ t] pacedD [OF vw c] keeps_pace_trans by blast
  qed
  then show "paced ox i u w" using ticks by (simp add: paced_def)
qed (simp add: paced_def)

text \<open>An operation on the store, with its clock readings and the id it may draw.\<close>

lemma paced_op:
  assumes "\<And>n st. tidy (fst st) \<Longrightarrow> ox_uuid ox n \<noteq> i \<Longrightarrow> mono (ox_clock ox n 0) \<le> mono (ox_clock ox n 1) \<Longrightarrow>
    tidy (fst (snd (f n st))) \<and> keeps_pace i (fst st) (fst (snd (f n st)))"
  shows "within (paced ox i) (mgr_op ox f)"
  unfolding within_def
proof
  fix w :: world
  let ?n = "w_tick w" and ?st = "ox_others ox (w_tick w) (w_store w)"
  have step: "tidy (fst (snd (f ?n ?st))) \<and> keeps_pace i (fst (w_store w)) (fst (snd (f ?n ?st)))"
    if c: "courteous ox i" and id: "ox_uuid ox ?n \<noteq> i" and t: "tidy (fst (w_store w))"
  proof -
    have "tidy (fst ?st)" and "keeps_pace i (fst (w_store w)) (fst ?st)" using c t unfolding courteous_def by blast+
    then show ?thesis using assms [of ?st ?n, OF _ id] c keeps_pace_trans unfolding courteous_def by blast
  qed
  have run: "snd (run_state (mgr_op ox f) w) = w\<lparr>w_store := snd (f ?n ?st), w_tick := Suc ?n\<rparr>"
    by (simp add: mgr_op_def split: prod.split)
  show "paced ox i w (snd (run_state (mgr_op ox f) w))"
    unfolding run paced_def using step by (simp add: atLeastLessThanSuc eq_commute [of i])
qed

subsection \<open>The uses of the manager\<close>

lemma sweep_ids_keeps:
  "tidy m \<Longrightarrow> tidy (snd (sweep_ids ids m acc)) \<and>
     (\<forall>s. hm_get (sm_sessions (snd (sweep_ids ids m acc))) i = Some s \<longrightarrow> hm_get (sm_sessions m) i = Some s)"
proof (induction ids arbitrary: m acc)
  case (Cons j ids)
  show ?case
  proof (cases "hm_get (sm_sessions m) j")
    case None
    then show ?thesis using Cons.IH [OF Cons.prems, of acc] by simp
  next
    case (Some s)
    have "tidy (drop_session j s m)" "hm_get (sm_sessions (drop_session j s m)) = (hm_get (sm_sessions m))(j := None)"
      using Cons.prems by (auto simp: tidy_def drop_session_def)
    then show ?thesis
      using Cons.IH [of "drop_session j s m" "acc @ [s\<lparr>s_status := Ended\<rparr>]"] unfolding sweep_ids_Some [OF Some]
      by (metis fun_upd_apply option.distinct(1))
  qed
qed simp

lemma paced_update:
  assumes "\<And>s. s_last_action_at (snd (f s)) = s_last_action_at s" and "tidy m"
  shows "tidy (fst (snd (update P j u f (m, d)))) \<and> keeps_pace i m (fst (snd (update P j u f (m, d))))"
proof (cases "owned m j u")
  case (Inl e)
  then show ?thesis using assms(2) by (simp add: update_def)
next
  case (Inr s)
  then have s: "hm_get (sm_sessions m) j = Some s" by (simp add: result_simps)
  have m': "fst (snd (update P j u f (m, d))) = m\<lparr>sm_sessions := hm_insert j (snd (f s)) (sm_sessions m)\<rparr>"
    using Inr by (auto simp: update_def Let_def split: prod.splits outcome.splits)
  show ?thesis
    unfolding m' using assms s by (auto simp: tidy_def intro!: keeps_pace_same split: if_splits)
qed

lemma notes_only_stamp:
  assumes "notes_only f" shows "s_last_action_at (snd (f s)) = s_last_action_at s"
proof -
  have eq: "snd (f s) = s\<lparr>s_status := s_status (snd (f s)), s_events := s_events (snd (f s))\<rparr>"
    using assms unfolding notes_only_def by blast
  show ?thesis by (subst eq) simp
qed

lemma extend_closure_stamp: "s_last_action_at (snd (extend_closure c1 c2 extra s)) = s_last_action_at s"
  by (auto simp: extend_closure_def extend_cases Let_def) (simp add: extended_def)

lemma paced_touch:
  assumes "tidy m" and "t1 \<le> t2"
  shows "tidy (snd (touch_action t1 t2 j u m))" and "keeps_pace i m (snd (touch_action t1 t2 j u m))"
    and "fst (touch_action t1 t2 i u m) = Inr () \<Longrightarrow>
      may_act i t1 m \<and> (\<forall>c. may_act i c (snd (touch_action t1 t2 i u m)) \<longrightarrow> t2 + ACTION_COOLDOWN \<le> c)"
proof -
  have ok: "hm_ok (sm_sessions m)" using assms(1) by (simp add: tidy_def)
  have pos: "0 < ACTION_COOLDOWN" by (simp add: ACTION_COOLDOWN_def)
  show "tidy (snd (touch_action t1 t2 j u m))"
    using assms(1) by (auto simp: touch_action_def tidy_def Let_def split: sum.split option.split)
  have granted: "may_act j t1 m \<and> (\<forall>c. may_act j c m' \<longrightarrow> t2 + ACTION_COOLDOWN \<le> c) \<and>
      hm_get (sm_sessions m') i = (if i = j then hm_get (sm_sessions m') i else hm_get (sm_sessions m) i)"
    if "touch_action t1 t2 j u m = (Inr (), m')" for j m'
    using that ok pos
    by (auto simp: touch_action_def may_act_def last_touch_def owned_cases elapsed_def Let_def split: option.splits if_splits)
  then show "fst (touch_action t1 t2 i u m) = Inr () \<Longrightarrow>
      may_act i t1 m \<and> (\<forall>c. may_act i c (snd (touch_action t1 t2 i u m)) \<longrightarrow> t2 + ACTION_COOLDOWN \<le> c)"
    by (metis prod.collapse)
  show "keeps_pace i m (snd (touch_action t1 t2 j u m))"
  proof (cases "touch_action t1 t2 j u m")
    case (Pair r m')
    show ?thesis
    proof (cases r)
      case (Inl e)
      then have "m' = m"
        using Pair by (auto simp: touch_action_def Let_def split: sum.splits option.splits if_splits)
      then show ?thesis using Pair by simp
    next
      case (Inr x)
      note granted = granted [of j m']
      have "may_act i c m" if "may_act i c m'" for c
      proof (cases "i = j")
        case True
        then have "may_act i t1 m" "t2 + ACTION_COOLDOWN \<le> c" using granted Pair Inr that by auto
        then show ?thesis using assms(2) unfolding may_act_def by fastforce
      next
        case False
        then show ?thesis using granted Pair Inr that by (auto simp: may_act_def last_touch_def)
      qed
      then show ?thesis using Pair by (simp add: keeps_pace_def)
    qed
  qed
qed

lemma paced_create:
  assumes "tidy m" and "j \<noteq> i"
  shows "tidy (fst (snd (create sha256 P c1 c2 j u t sc ttl (m, d)))) \<and>
    keeps_pace i m (fst (snd (create sha256 P c1 c2 j u t sc ttl (m, d))))"
  using assms
  by (auto simp: create_cases tidy_def create_state_def session_new_def Let_def intro!: keeps_pace_same split: option.split)

lemma paced_end:
  assumes "tidy m"
  shows "tidy (fst (snd (end_session_of P j u (m, d)))) \<and> keeps_pace i m (fst (snd (end_session_of P j u (m, d))))"
  using assms
  by (auto simp: end_session_of_def tidy_def Let_def intro!: keeps_pace_same split: sum.split if_splits)

lemma paced_sweep:
  assumes "tidy m"
  shows "tidy (fst (snd (sweep_expired P clk (m, d)))) \<and> keeps_pace i m (fst (snd (sweep_expired P clk (m, d))))"
  using sweep_ids_keeps [OF assms] unfolding sweep_expired_mem by (auto intro!: keeps_pace_same)

lemma paced_uses:
  "within (paced ox i) (mgr_create ox u t sc ttl)"
  "(\<And>now. notes_only (\<lambda>s. (Returns (), f now s))) \<Longrightarrow> within (paced ox i) (mgr_note ox j u f)"
  "within (paced ox i) (mgr_update ox j u (\<lambda>c1 c2. extend_closure c1 c2 extra))"
  "within (paced ox i) (mgr_end ox j u)" "within (paced ox i) (mgr_touch ox j u)" "within (paced ox i) (mgr_sweep ox)"
  "within (paced ox i) (mgr_op ox (\<lambda>n st. (h n st, st)))"
proof -
  show "within (paced ox i) (mgr_create ox u t sc ttl)"
    unfolding mgr_create_def by (rule paced_op) (metis paced_create prod.collapse)
  show "within (paced ox i) (mgr_note ox j u f)" if f: "\<And>now. notes_only (\<lambda>s. (Returns (), f now s))"
    unfolding mgr_note_def
  proof (rule paced_op)
    fix n and st :: store
    let ?f = "\<lambda>s. (Returns (), f (utc (ox_clock ox n 0)) s)"
    assume "tidy (fst st)"
    from paced_update [of ?f, OF notes_only_stamp [OF f] this, of "ox_persist ox n" j u "snd st" i]
    show "tidy (fst (snd (case update (ox_persist ox n) j u ?f st of
          (Returns r, st') \<Rightarrow> (r, st') | (Panics, st') \<Rightarrow> (Inr (), st')))) \<and>
        keeps_pace i (fst st) (fst (snd (case update (ox_persist ox n) j u ?f st of
          (Returns r, st') \<Rightarrow> (r, st') | (Panics, st') \<Rightarrow> (Inr (), st'))))"
      by (auto split: prod.splits outcome.splits)
  qed
  show "within (paced ox i) (mgr_update ox j u (\<lambda>c1 c2. extend_closure c1 c2 extra))"
    unfolding mgr_update_def by (rule paced_op) (metis paced_update extend_closure_stamp prod.collapse)
  show "within (paced ox i) (mgr_end ox j u)"
    unfolding mgr_end_def by (rule paced_op) (metis paced_end prod.collapse)
  show "within (paced ox i) (mgr_touch ox j u)"
    unfolding mgr_touch_def by (rule paced_op) (simp add: case_prod_beta paced_touch(1,2))
  show "within (paced ox i) (mgr_sweep ox)"
    unfolding mgr_sweep_def by (rule paced_op) (metis paced_sweep prod.collapse)
  show "within (paced ox i) (mgr_op ox (\<lambda>n st. (h n st, st)))" by (rule paced_op) simp
qed

lemma paced_charge: "within (paced ox i) (quota_consume ox t)"
  by (auto simp: within_def quota_consume_def paced_def split: prod.split)

interpretation pace: charging_order "paced ox i" ox "\<lambda>_. True" True for ox i
  by unfold_locales
    (auto simp: mgr_get_def mgr_user_session_def paced_uses paced_charge intro!: within_intro)

subsection \<open>One action\<close>

text \<open>The session is looked up in the first step of the request and touched in the second.\<close>

definition checked_at :: "outside \<Rightarrow> nat \<Rightarrow> instant" where
  "checked_at ox n = mono (ox_clock ox (Suc n) 0)"

definition stamped_at :: "outside \<Rightarrow> nat \<Rightarrow> instant" where
  "stamped_at ox n = mono (ox_clock ox (Suc n) 1)"

lemma run_mgr_touch:
  "run_state (mgr_touch ox i u) w =
     (let n = w_tick w; st = ox_others ox n (w_store w);
          x = touch_action (mono (ox_clock ox n 0)) (mono (ox_clock ox n 1)) i u (fst st)
      in (fst x, w\<lparr>w_store := (snd x, snd st), w_tick := Suc n\<rparr>))"
  by (simp add: mgr_touch_def mgr_op_def Let_def case_prod_beta)

lemma execute_action_parts:
  obtains rest where "\<And>who sess. within (paced ox i) (rest who sess)"
    and "execute_action ox srv sid aid req =
      attempt (ret (require_identity req)) (\<lambda>who.
      attempt (ret (require_sessions srv)) (\<lambda>_.
      attempt (or_http (mgr_get ox sid (id_user_id who))) (\<lambda>sess.
      attempt (or_http (mgr_touch ox sid (id_user_id who))) (\<lambda>_. rest who sess))))"
  by (rule that [rotated], rule execute_action_def) (unfold attempt_ret, intro within_intro notes_record; simp)

lemma action_is_paced:
  assumes run: "run_state (execute_action ox srv i aid req) w = (Inr resp, w')"
    and c: "courteous ox i" and ids: "i \<notin> ox_uuid ox ` {w_tick w..<w_tick w'}" and t: "tidy (fst (w_store w))"
  shows "may_act i (checked_at ox (w_tick w)) (fst (w_store w))"
    and "may_act i x (fst (w_store w')) \<Longrightarrow> stamped_at ox (w_tick w) + ACTION_COOLDOWN \<le> x"
proof -
  let ?n = "w_tick w"
  let ?st0 = "ox_others ox ?n (w_store w)"
  let ?w0 = "w\<lparr>w_store := ?st0, w_tick := Suc ?n\<rparr>"
  let ?st1 = "ox_others ox (Suc ?n) ?st0"
  obtain rest where rest: "\<And>who sess. within (paced ox i) (rest who sess)" and parts: "execute_action ox srv i aid req =
      attempt (ret (require_identity req)) (\<lambda>who.
      attempt (ret (require_sessions srv)) (\<lambda>_.
      attempt (or_http (mgr_get ox i (id_user_id who))) (\<lambda>sess.
      attempt (or_http (mgr_touch ox i (id_user_id who))) (\<lambda>_. rest who sess))))"
    using execute_action_parts [where ox = ox and i = i and srv = srv and sid = i and aid = aid and req = req] by blast
  obtain who s where gates: "rq_identity req = Some who" "srv_sessions srv" "get (fst ?st0) i (id_user_id who) = Inr s"
    using run by (cases "rq_identity req"; cases "srv_sessions srv"; cases "get (fst ?st0) i (id_user_id (the (rq_identity req)))")
      (auto simp: parts require_identity_def require_sessions_def run_mgr_get)
  let ?touch = "touch_action (checked_at ox ?n) (stamped_at ox ?n) i (id_user_id who) (fst ?st1)"
  let ?w1 = "?w0\<lparr>w_store := (snd ?touch, snd ?st1), w_tick := Suc (Suc ?n)\<rparr>"
  have touched: "fst ?touch = Inr ()"
    using run gates by (cases "fst ?touch")
      (auto simp: parts require_identity_def require_sessions_def run_mgr_get run_mgr_touch Let_def
        checked_at_def stamped_at_def)
  have others: "tidy (fst ?st0)" "keeps_pace i (fst (w_store w)) (fst ?st0)" "tidy (fst ?st1)" "keeps_pace i (fst ?st0) (fst ?st1)"
    and clocks: "checked_at ox ?n \<le> stamped_at ox ?n"
    using c t unfolding courteous_def checked_at_def stamped_at_def by blast+
  note touch = paced_touch(1,3) [OF others(3) clocks]
  show "may_act i (checked_at ox ?n) (fst (w_store w))"
    using touch(2) [OF touched] others(2,4) by (simp add: keeps_pace_def)
  have "run_state (rest who s) ?w1 = (Inr resp, w')"
    using run gates touched
    by (simp add: parts require_identity_def require_sessions_def run_mgr_get run_mgr_touch Let_def checked_at_def stamped_at_def)
  then have pace: "paced ox i ?w1 w'" using withinD [OF rest [of who s], of ?w1] by simp
  have "i \<notin> ox_uuid ox ` {w_tick ?w1..<w_tick w'}" using ids by auto
  then have "keeps_pace i (snd ?touch) (fst (w_store w'))" using pacedD(2) [OF pace c] touch(1) by simp
  then show "stamped_at ox ?n + ACTION_COOLDOWN \<le> x" if "may_act i x (fst (w_store w'))"
    using that touch(2) [OF touched] by (simp add: keeps_pace_def)
qed

subsection \<open>Sequences of requests\<close>

text \<open>A request for an action on the session \<open>i\<close> that was let through, whether the action then succeeded or failed.\<close>

definition acted_on :: "decoders \<Rightarrow> uuid \<Rightarrow> inbound \<times> nat \<times> reply \<Rightarrow> bool" where
  "acted_on de i x \<longleftrightarrow>
     (case x of (b, n, r) \<Rightarrow>
        (\<exists>j a. route (in_method b) (rq_path (in_request b)) = Route (EpAction j a) \<and> de_uuid de j = Inr i) \<and>
        (\<exists>resp. r = RAction resp))"

lemma acted_ran:
  assumes "acted_on de i (b, n, r)" and run: "run_state (serve ox de srv b) w = (r, w')"
  obtains aid req resp where "run_state (execute_action ox srv i aid req) w = (Inr resp, w')"
proof -
  obtain j a resp where r: "route (in_method b) (rq_path (in_request b)) = Route (EpAction j a)" "de_uuid de j = Inr i" "r = RAction resp"
    using assms(1) by (auto simp: acted_on_def)
  let ?req = "(in_request b)\<lparr>rq_identity := identity_of (in_request b)\<rparr>"
  have "\<not> is_exempt (rq_path (in_request b))" using route_exempt [OF r(1)] by (simp add: open_endpoint_def)
  then have "\<exists>aid. run_state (answer RAction (execute_action ox srv i aid ?req)) w = (RAction resp, w')"
    using run r by (auto simp: serve_cases dispatch_route_def rejected_def Let_def split: if_splits sum.splits)
  then obtain aid where "run_state (answer RAction (execute_action ox srv i aid ?req)) w = (RAction resp, w')" by blast
  then have "run_state (execute_action ox srv i aid ?req) w = (Inr resp, w')"
    by (auto simp: answer_run split: prod.splits sum.splits)
  then show thesis by (rule that)
qed

lemma serve_paced: "paced ox i w (snd (run_state (serve ox de srv b) w))"
  by (rule withinD [OF pace.serving]) simp_all

lemma serve_all_paced:
  "paced ox i w (snd (run_state (serve_all ox de srv bs) w))"
proof (induction bs arbitrary: w)
  case Nil
  then show ?case by (simp add: paced_def)
next
  case (Cons b bs)
  show ?case
    using pace.trans [OF serve_paced Cons.IH]
    by (simp add: serve_all_Cons del: serve_all.simps split: prod.split) (metis snd_conv)
qed

abbreviation apart :: "outside \<Rightarrow> inbound \<times> nat \<times> reply \<Rightarrow> inbound \<times> nat \<times> reply \<Rightarrow> bool" where
  "apart ox x y \<equiv> stamped_at ox (fst (snd x)) + ACTION_COOLDOWN \<le> checked_at ox (fst (snd y))"

lemma serve_all_apart:
  assumes c: "courteous ox i"
  shows "tidy (fst (w_store w)) \<Longrightarrow> run_state (serve_all ox de srv bs) w = (replies, w') \<Longrightarrow>
    i \<notin> ox_uuid ox ` {w_tick w..<w_tick w'} \<Longrightarrow>
    sorted_wrt (apart ox) (filter (acted_on de i) replies) \<and>
    (\<forall>x \<in> set replies. acted_on de i x \<longrightarrow> may_act i (checked_at ox (fst (snd x))) (fst (w_store w)))"
proof (induction bs arbitrary: w replies)
  case Nil
  then show ?case by simp
next
  case (Cons b bs)
  obtain r w1 where serve: "run_state (serve ox de srv b) w = (r, w1)" by fastforce
  obtain rs where rest: "run_state (serve_all ox de srv bs) w1 = (rs, w')" and replies: "replies = (b, w_tick w, r) # rs"
    using Cons.prems(2) serve by (auto simp: serve_all_Cons simp del: serve_all.simps split: prod.splits)
  have p: "paced ox i w w1" "paced ox i w1 w'"
    using serve_paced [of ox i w de srv b] serve_all_paced [of ox i w1 de srv bs] serve rest by simp_all
  then have "w_tick w \<le> w_tick w1" "w_tick w1 \<le> w_tick w'" by (simp_all add: paced_def)
  then have ids: "i \<notin> ox_uuid ox ` {w_tick w..<w_tick w1}" "i \<notin> ox_uuid ox ` {w_tick w1..<w_tick w'}"
    using Cons.prems(3) by auto
  note first = pacedD [OF p(1) c ids(1) Cons.prems(1)]
  note IH = Cons.IH [OF first(1) rest ids(2)]
  have later: "may_act i (checked_at ox (fst (snd x))) (fst (w_store w1))" if "x \<in> set rs" "acted_on de i x" for x
    using IH that by blast
  show ?case
  proof (cases "acted_on de i (b, w_tick w, r)")
    case True
    then obtain aid req resp where "run_state (execute_action ox srv i aid req) w = (Inr resp, w1)"
      using serve by (rule acted_ran)
    note action = action_is_paced [OF this c ids(1) Cons.prems(1)]
    show ?thesis using action IH later first(2) unfolding replies keeps_pace_def by auto
  next
    case False
    then show ?thesis using IH later first(2) unfolding replies keeps_pace_def by auto
  qed
qed

subsection \<open>A concrete run\<close>

text \<open>A second passes with every step.\<close>

definition slow_outside :: outside where
  "slow_outside = demo_outside\<lparr>ox_clock := (\<lambda>n _. \<lparr>mono = from_secs n, utc = int (from_secs n)\<rparr>), ox_uuid := (\<lambda>n. of_nat n + 100)\<rparr>"

definition alice_acts :: inbound where
  "alice_acts =
     \<lparr>in_method = ''POST'',
      in_request = \<lparr>rq_path = ''/api/v1/sessions/7/actions/a1'', rq_headers = [''x-datashuttle-user-id'' \<mapsto> ''alice''], rq_identity = None\<rparr>,
      in_body = Inr [], in_query = []\<rparr>"

lemma alice_acts_simps:
  "route (in_method alice_acts) (rq_path (in_request alice_acts)) = Route (EpAction ''7'' ''a1'')"
  "\<not> is_exempt (rq_path (in_request alice_acts))"
  "identity_of (in_request alice_acts) =
     Some \<lparr>id_user_id = ''alice'', id_tenant_id = None, id_actor_id = None, id_auth_method = ''unknown''\<rparr>"
  by code_simp+

lemma alice_acted:
  assumes m: "sm_manifest (fst (w_store w)) = sm_manifest shell_manager" "tidy (fst (w_store w))"
    and s: "hm_get (sm_sessions (fst (w_store w))) 7 = Some s" "s_user_id s = ''alice''" "s_scenario_id s = s_scenario_id demo_session"
    and may: "may_act 7 (checked_at slow_outside (w_tick w)) (fst (w_store w))"
  obtains resp w' s' where "run_state (serve slow_outside demo_decoders open_server alice_acts) w = (RAction resp, w')"
    and "w_tick w' = w_tick w + 5" and "sm_manifest (fst (w_store w')) = sm_manifest shell_manager" and "tidy (fst (w_store w'))"
    and "hm_get (sm_sessions (fst (w_store w'))) 7 = Some s'" "s_user_id s' = ''alice''" "s_scenario_id s' = s_scenario_id demo_session"
    and "s_last_action_at s' = Some (stamped_at slow_outside (w_tick w))"
proof -
  let ?req = "(in_request alice_acts)\<lparr>rq_identity := identity_of (in_request alice_acts)\<rparr>"
  have "has_credentials open_server (in_request alice_acts)"
    using alice_acts_simps(3) by (simp add: has_credentials_def open_server_def)
  then have serve: "serve slow_outside demo_decoders open_server alice_acts =
      run_endpoint slow_outside demo_decoders open_server alice_acts ?req (EpAction ''7'' ''a1'')"
    using alice_acts_simps(1,2) by (simp add: serve_cases dispatch_route_def Let_def)
  obtain m d where st: "w_store w = (m, d)" by fastforce
  then have own: "owned m 7 ''alice'' = Inr s" and ok: "hm_ok (sm_sessions m)" using s m(2) by (simp_all add: result_simps tidy_def)
  have others: "ox_others slow_outside n x = x" for n x by (simp add: slow_outside_def demo_outside_def)
  let ?c1 = "checked_at slow_outside (w_tick w)" and ?c2 = "stamped_at slow_outside (w_tick w)"
  let ?s = "s\<lparr>s_last_action_at := Some ?c2\<rparr>"
  have touched: "touch_action ?c1 ?c2 7 ''alice'' m = (Inr (), m\<lparr>sm_sessions := hm_insert 7 ?s (sm_sessions m)\<rparr>)"
    using own may s(1) st by (auto simp: touch_action_def may_act_def last_touch_def elapsed_def Let_def split: option.split)
  have clk: "mono (ox_clock slow_outside (Suc (w_tick w)) 0) = ?c1" "mono (ox_clock slow_outside (Suc (w_tick w)) (Suc 0)) = ?c2"
    by (simp_all add: checked_at_def stamped_at_def)
  have act: "run_state (run_action slow_outside srv who s shell_action) v = (Inl ''spawn bash: not found'',
      v\<lparr>w_log := w_log v @ [EProcess ''bash'' [''-c'', substitute_placeholders slow_outside ''true'' s]]\<rparr>)" for srv who v
    by (simp add: run_action_def shell_action_def map_output_def run_shell_def run_process_def result_simps)
      (simp add: slow_outside_def demo_outside_def result_simps)
  let ?logged = "\<lambda>now. record_event now ''action'' (act_id shell_action @ '' err'') (Some (act_id shell_action)) (Some False) ?s"
  obtain r w1 where run: "run_state (serve slow_outside demo_decoders open_server alice_acts) w = (r, w1)" by fastforce
  have pick: "hm_get (hm_insert 7 ?s (sm_sessions m)) 7 = Some ?s" using ok by simp
  have own': "owned (m\<lparr>sm_sessions := hm_insert 7 ?s (sm_sessions m)\<rparr>) 7 ''alice'' = Inr ?s"
    using s ok by (simp add: result_simps)
  have "(\<exists>resp. r = RAction resp) \<and> w_tick w1 = w_tick w + 5 \<and> sm_manifest (fst (w_store w1)) = sm_manifest m \<and>
      sm_per_user (fst (w_store w1)) = sm_per_user m \<and>
      (\<exists>now. sm_sessions (fst (w_store w1)) = hm_insert 7 (?logged now) (hm_insert 7 ?s (sm_sessions m)))"
    using alice_acts_simps(3) own own' m(1) s(1,3) shell_lookups(1,2) pick run unfolding serve
    by (auto simp: answer_run rejected_def demo_decoders_def execute_action_def require_identity_def require_sessions_def open_server_def demo_server_def
        run_mgr_get run_mgr_touch others get_def touched clk read_clock_def Let_def st
        act mgr_note_def mgr_op_def update_def)
  then obtain resp now where w1: "r = RAction resp" "w_tick w1 = w_tick w + 5" "sm_manifest (fst (w_store w1)) = sm_manifest m"
    "sm_per_user (fst (w_store w1)) = sm_per_user m"
    "sm_sessions (fst (w_store w1)) = hm_insert 7 (?logged now) (hm_insert 7 ?s (sm_sessions m))" by blast
  have "hm_get (sm_sessions (fst (w_store w1))) 7 = Some (?logged now)" using ok by (simp add: w1(5))
  moreover have "tidy (fst (w_store w1))" using m(2) st by (simp add: tidy_def w1(4,5))
  ultimately show thesis using run w1 m(1) s st by (intro that [of resp w1 "?logged now"]) simp_all
qed

lemma slow_courteous: "courteous slow_outside i"
  by (simp add: courteous_def slow_outside_def demo_outside_def)

subsection \<open>Properties\<close>

text \<open>C7: Actions on one session are paced, for the whole server. Over any sequence of requests, of any users and for
  anything, with the databases and the API answering in any way and other tasks running at the same time, two requests for an
  action on the same session that were let through are at least a second apart: from the stamp the first one
  left to the check of the second. Ending and extending the session, resets, other sessions
  and failed actions do not shorten the pause. The session has to exist from the start (its id is not drawn again),
  and what the other tasks do to it may only end it, use it or act on it later (\<open>courteous\<close>).\<close>

theorem actions_are_paced:
  assumes inv: "manager_inv (ox_sha256 ox) (fst (w_store w))" and others: "courteous ox i"
    and run: "run_state (serve_all ox de srv bs) w = (replies, w')"
    and fresh: "i \<notin> ox_uuid ox ` {w_tick w..<w_tick w'}"
  shows "sorted_wrt (\<lambda>(_, m, _) (_, n, _). stamped_at ox m + ACTION_COOLDOWN \<le> checked_at ox n)
           (filter (acted_on de i) replies)"
proof -
  have "tidy (fst (w_store w))" using manager_invD(1,2) [OF inv] by (simp add: tidy_def)
  from serve_all_apart [OF others this run fresh] have "sorted_wrt (apart ox) (filter (acted_on de i) replies)" ..
  then show ?thesis by (rule sorted_wrt_mono_rel [rotated]) (simp add: case_prod_beta)
qed

theorem actions_are_paced_witness:
  "\<exists>r1 r2 w'. run_state (serve_all slow_outside demo_decoders open_server [alice_acts, alice_acts])
       (demo_world\<lparr>w_store := (shell_manager, Map.empty)\<rparr>) =
     ([(alice_acts, 0, RAction r1), (alice_acts, 5, RAction r2)], w') \<and>
     stamped_at slow_outside 0 + ACTION_COOLDOWN \<le> checked_at slow_outside 5"
proof -
  let ?w = "demo_world\<lparr>w_store := (shell_manager, Map.empty)\<rparr>"
  have inv: "manager_inv demo_sha (fst (w_store ?w))"
    using demo_inv by (simp add: manager_inv_def shell_manager_def owner_of_def)
  have tidy: "tidy (fst (w_store ?w))" using manager_invD(1,2) [OF inv] by (simp add: tidy_def)
  have tick: "w_tick ?w = 0" by (simp add: demo_world_def)
  have s: "hm_get (sm_sessions (fst (w_store ?w))) 7 = Some demo_session" using shell_lookups(3) by simp
  have "may_act 7 (checked_at slow_outside (w_tick ?w)) (fst (w_store ?w))"
    using s by (simp add: may_act_def last_touch_def demo_session_def session_new_def)
  then obtain r1 w1 s1 where run1: "run_state (serve slow_outside demo_decoders open_server alice_acts) ?w = (RAction r1, w1)"
    and w1: "w_tick w1 = w_tick ?w + 5" "sm_manifest (fst (w_store w1)) = sm_manifest shell_manager" "tidy (fst (w_store w1))"
    and s1: "hm_get (sm_sessions (fst (w_store w1))) 7 = Some s1" "s_user_id s1 = ''alice''" "s_scenario_id s1 = s_scenario_id demo_session"
      "s_last_action_at s1 = Some (stamped_at slow_outside (w_tick ?w))"
    using alice_acted [of ?w demo_session] tidy s by (auto simp: demo_session_def session_new_def)
  have "may_act 7 (checked_at slow_outside (w_tick w1)) (fst (w_store w1))"
    using s1 w1(1) tick by (simp add: may_act_def last_touch_def checked_at_def stamped_at_def slow_outside_def ACTION_COOLDOWN_def)
  then obtain r2 w2 where run2: "run_state (serve slow_outside demo_decoders open_server alice_acts) w1 = (RAction r2, w2)"
    and w2: "w_tick w2 = w_tick w1 + 5"
    using alice_acted [OF w1(2,3) s1(1-3)] by metis
  have run: "run_state (serve_all slow_outside demo_decoders open_server [alice_acts, alice_acts]) ?w =
      ([(alice_acts, 0, RAction r1), (alice_acts, 5, RAction r2)], w2)"
    using run1 run2 w1(1) tick by (simp add: serve_all_Cons)
  have acted: "acted_on demo_decoders 7 (alice_acts, n, RAction r)" for n r
    using alice_acts_simps(1) by (simp add: acted_on_def demo_decoders_def)
  have fresh: "7 \<notin> ox_uuid slow_outside ` {w_tick ?w..<w_tick w2}"
  proof -
    have "{w_tick ?w..<w_tick w2} = {0, 1, 2, 3, 4, 5, 6, 7, 8, 9}" using w1(1) w2 tick by auto
    then show ?thesis by (simp add: slow_outside_def)
  qed
  have "stamped_at slow_outside 0 + ACTION_COOLDOWN \<le> checked_at slow_outside 5"
    using actions_are_paced [OF _ slow_courteous run fresh] inv acted by (simp add: slow_outside_def demo_outside_def)
  with run show ?thesis by blast
qed

end
