(* ===== verification/Session_Reset.thy ===== *)
theory Session_Reset
  imports Session_End
begin

text \<open>
  The handler that resets a session (\<open>reset_session\<close> of \<^verbatim>\<open>handlers.rs\<close>) from the manager to its last call. It is
  meant to drop the shuttle and the tables of the session, to run the init script again and to
  create the shuttle again. The tables stay: the statement that drops them is one \<open>exec_sql\<close> has no case for.
\<close>

subsection \<open>The calls of a reset\<close>

text \<open>Whatever a statement says, it leads to a path below those of the shuttles and of the connections.\<close>

lemma sends_exec_sql:
  assumes "\<And>verb p body. starts_with p ''/api/v1/shuttles'' \<or> starts_with p ''/api/v1/connections'' \<Longrightarrow>
    P (EHttp (api_call c verb p body i))"
  shows "sends P (exec_sql ox c i stmt)"
proof -
  have "sends P (do { r \<leftarrow> api_request ox c verb p body i; ret (map_ok snd r) })"
    if "starts_with p ''/api/v1/shuttles'' \<or> starts_with p ''/api/v1/connections''" for verb p and body :: "json option"
    using assms [OF that] by (intro sends_intro)
  then show ?thesis
    unfolding exec_sql_def Let_def by (auto intro!: sends_intro simp: starts_with_iff split: option.split dispatch.split)
qed

lemma sends_run_statements:
  assumes "\<And>stmt. sends P (exec_sql ox c i stmt)"
  shows "sends P (run_statements ox c i rel k stmts)"
  by (induction stmts arbitrary: k) (auto intro!: sends_intro assms split: sum.split)

text \<open>Source SQL makes no call to the API.\<close>

lemma sends_inner:
  assumes "\<And>e. \<not> api_event e \<Longrightarrow> P e"
  shows "sends P (exec_postgres_inner ox ns sql)" and "sends P (exec_mysql_inner ox ns sql)"
    and "sends P (exec_clickhouse_inner ox ns sql)" and "sends P (exec_redis_inner ox sql)"
proof -
  show "sends P (exec_postgres_inner ox ns sql)"
    unfolding exec_postgres_inner_def by (auto intro!: sends_intro sends_pg_pool assms elim: pg_framing.elims split: option.split prod.split)
  show "sends P (exec_mysql_inner ox ns sql)"
    unfolding exec_mysql_inner_def mysql_pool_def by (auto intro!: sends_intro assms split: option.split sum.split)
  show "sends P (exec_clickhouse_inner ox ns sql)"
    unfolding exec_clickhouse_inner_def clickhouse_pool_def
    by (auto intro!: sends_intro sends_clickhouse_posts assms simp: clickhouse_call_def split: option.split sum.split)
  have "sends P (redis_run ox n acc cmds)" for n acc cmds
    by (induction cmds arbitrary: n acc) (auto intro!: sends_intro assms)
  then show "sends P (exec_redis_inner ox sql)"
    unfolding exec_redis_inner_def redis_conn_def redis_pool_def
    by (auto intro!: sends_intro assms split: option.split sum.split)
qed

lemma sends_source_sql:
  assumes "\<And>e. \<not> api_event e \<Longrightarrow> P e"
  shows "sends P (dispatch_source_sql ox srv src ns sql)"
proof -
  have shell: "sends P (exec_source_sql ox src script tcp)" for script tcp
    unfolding exec_source_sql_def by (auto intro!: sends_intro assms split: option.split)
  have either: "sends P (or_unavailable m f)" if "sends P m" "sends P f" for m :: "'a dresult" and f
    unfolding or_unavailable_def using that by (auto intro!: sends_intro split: sum.split dispatch_error.split)
  show ?thesis
    unfolding dispatch_source_sql_def shell_source_sql_def Let_def
      exec_postgres_def exec_postgres_in_schema_def exec_mysql_def exec_mysql_in_database_def
      exec_clickhouse_def exec_clickhouse_in_database_def exec_redis_def exec_redis_in_namespace_def
    by (auto intro!: sends_intro shell either sends_inner assms sends_noop split: option.split dispatcher.split)
qed

text \<open>The delete of a namespace, as \<open>teardown_session\<close> sends it.\<close>

definition drops_namespace :: "api_client \<Rightarrow> event \<Rightarrow> bool" where
  "drops_namespace api e \<longleftrightarrow> (\<exists>ns body i. e = EHttp (api_call api ''DELETE'' (namespace_path ns) body i))"

lemma source_keeps_namespace: "\<not> api_event e \<Longrightarrow> \<not> drops_namespace api e"
  by (auto simp: drops_namespace_def api_call_def)

lemma sql_keeps_namespace: "sends (\<lambda>e. \<not> drops_namespace api e) (exec_sql ox api i stmt)"
proof (rule sends_exec_sql)
  fix verb p and body :: "json option"
  assume "starts_with p ''/api/v1/shuttles'' \<or> starts_with p ''/api/v1/connections''"
  then have "api_url api p = ac_base_url api @ p" and "p \<noteq> namespace_path ns" for ns
    by (auto simp: api_url_def starts_with_iff prefix_def namespace_path_def)
  then have "hc_url (api_call api verb p body i) \<noteq> hc_url (api_call api ''DELETE'' (namespace_path ns) b j)" for ns b j
    by (simp add: api_call_def api_url_def namespace_path_def starts_with_iff)
  then show "\<not> drops_namespace api (EHttp (api_call api verb p body i))"
    unfolding drops_namespace_def by (metis event.inject(1))
qed

lemma sends_reset_parts:
  "sends (\<lambda>e. \<not> drops_namespace api e) (reset_source ox srv mf sc s)"
  "sends (\<lambda>e. \<not> drops_namespace api e) (reset_shuttle ox srv api i mf sc s)"
  unfolding reset_source_def reset_shuttle_def
  by (auto intro!: sends_intro sends_source_sql source_keeps_namespace sends_run_statements sql_keeps_namespace
      split: option.split sum.split)

lemma reset_keeps_namespace:
  assumes "srv_api srv = Some api"
  shows "sends (\<lambda>e. \<not> drops_namespace api e) (reset_session ox srv sid req)"
proof -
  have api: "require_api_client srv = Inr api" using assms by (simp add: require_api_client_def)
  show ?thesis
    unfolding reset_session_def api mgr_get_def mgr_note_def mgr_manifest_def view_now_def or_http_def
    by (auto intro!: sends_intro sends_reset_parts sql_keeps_namespace simp: attempt_ret split: sum.split)
qed

subsection \<open>What a reset leaves\<close>

text \<open>The two notes of a reset around the calls it makes.\<close>

definition reset_start :: "utc_time \<Rightarrow> session \<Rightarrow> session" where
  "reset_start now s =
     record_event now ''reset-start''
       (''user-triggered reset '' @ [CHR 0xE2, CHR 0x80, CHR 0x94] @ '' dropping + recreating shuttle'')
       None (Some True) (s\<lparr>s_status := Resetting\<rparr>)"

definition reset_complete :: "utc_time \<Rightarrow> session \<Rightarrow> session" where
  "reset_complete now s = record_event now ''reset-complete'' ''reset finished'' None (Some True) (s\<lparr>s_status := Active\<rparr>)"

lemma run_note:
  assumes "\<And>n st. ox_others ox n st = st" and "owned (fst (w_store w)) sid u = Inr s"
  shows "run_state (mgr_note ox sid u f) w =
    (Inr (), w\<lparr>w_store := persist (ox_persist ox (w_tick w))
        ((fst (w_store w))\<lparr>sm_sessions := hm_insert sid (f (utc (ox_clock ox (w_tick w) 0)) s) (sm_sessions (fst (w_store w)))\<rparr>,
         snd (w_store w)),
      w_tick := Suc (w_tick w)\<rparr>)"
  using assms by (cases "w_store w") (simp add: mgr_note_def mgr_op_def update_def Let_def)

lemma reset_runs:
  assumes client: "srv_api srv = Some api" and on: "srv_sessions srv" and id: "rq_identity req = Some i"
    and alone: "\<And>n st. ox_others ox n st = st"
    and s: "hm_get (sm_sessions (fst (w_store w))) sid = Some s" "s_user_id s = id_user_id i"
    and sc: "mf_scenario (sm_manifest (fst (w_store w))) (s_scenario_id s) = Some sc"
    and inv: "manager_inv sha256 (fst (w_store w))" and digest: "\<And>x. length (sha256 x) = 32"
  obtains v w' t1 t2 where "run_state (reset_session ox srv sid req) w = (Inr v, w')" and "sv_status v = Active"
    and "hm_get (sm_sessions (fst (w_store w'))) sid = Some (reset_complete t2 (reset_start t1 s))"
proof -
  have safe: "is_safe_identifier (s_shuttle_name s)" "is_safe_identifier (s_connection_name s)"
    "is_safe_identifier (s_namespace s)"
    using session_names_safe [OF manager_invD(3) [OF inv s(1)] digest] by simp_all
  obtain m d where st: "w_store w = (m, d)" by fastforce
  then have ok: "hm_ok (sm_sessions m)" using manager_invD(1) [OF inv] by simp
  from st have own: "owned m sid (id_user_id i) = Inr s" using s by (simp add: result_simps)
  let ?s1 = "reset_start (utc (ox_clock ox (Suc (w_tick w)) 0)) s"
  let ?m1 = "m\<lparr>sm_sessions := hm_insert sid ?s1 (sm_sessions m)\<rparr>"
  let ?w1 = "w\<lparr>w_store := persist (ox_persist ox (Suc (w_tick w))) (?m1, d), w_tick := Suc (Suc (w_tick w))\<rparr>"
  have own1: "owned ?m1 sid (id_user_id i) = Inr ?s1"
    using s ok by (simp add: result_simps reset_start_def)
  have still: "w_store (snd (run_state x v)) = w_store v" if "within idle x" for x :: "'b act" and v
    using withinD [OF that, of v] by (simp add: idle_def)
  obtain r1 v1 where v1: "run_state (exec_sql ox api i (''DROP SHUTTLE IF EXISTS '' @ s_shuttle_name s)) ?w1 = (r1, v1)" by fastforce
  obtain r2 v2 where v2: "run_state (exec_sql ox api i (''DROP NAMESPACE IF EXISTS '' @ s_namespace s @ '' CASCADE'')) v1 = (r2, v2)"
    by fastforce
  define v3 where v3: "v3 = snd (run_state (reset_source ox srv (sm_manifest m) sc s) v2)"
  define v4 where v4: "v4 = snd (run_state (reset_shuttle ox srv api i (sm_manifest m) sc s) v3)"
  have unit: "run_state x v = ((), snd (run_state x v))" for x :: "unit act" and v by (simp add: prod_eq_iff)
  have store: "w_store v1 = w_store ?w1" "w_store v2 = w_store v1" "w_store v3 = w_store v2" "w_store v4 = w_store v3"
    using still [OF idle.api_sql, of ox api i _ ?w1] still [OF idle.api_sql, of ox api i _ v1] v1 v2
      still [OF idle.resets(1)] still [OF idle.resets(2)] by (metis snd_conv v3 v4)+
  have "fst (w_store v4) = ?m1" unfolding store by simp
  let ?s2 = "reset_complete (utc (ox_clock ox (w_tick v4) 0)) ?s1"
  obtain r w' where run: "run_state (reset_session ox srv sid req) w = (r, w')" by fastforce
  have gates: "require_identity req = Inr i" "require_sessions srv = Inr ()" "require_api_client srv = Inr api"
    using id on client by (simp_all add: require_sessions_def require_api_client_def)
  have got: "run_state (mgr_get ox sid (id_user_id i)) w = (Inr s, w\<lparr>w_tick := Suc (w_tick w)\<rparr>)"
    using own by (simp add: run_mgr_get alone get_def st)
  have start: "run_state (mgr_note ox sid (id_user_id i) reset_start) (w\<lparr>w_tick := Suc (w_tick w)\<rparr>) = (Inr (), ?w1)"
    using run_note [OF alone, of "w\<lparr>w_tick := Suc (w_tick w)\<rparr>" sid "id_user_id i" s reset_start] own by (simp add: st)
  let ?w2 = "v4\<lparr>w_store := persist (ox_persist ox (w_tick v4))
      (?m1\<lparr>sm_sessions := hm_insert sid ?s2 (sm_sessions ?m1)\<rparr>, snd (w_store v4)), w_tick := Suc (w_tick v4)\<rparr>"
  have finish: "run_state (mgr_note ox sid (id_user_id i) reset_complete) v4 = (Inr (), ?w2)"
    using run_note [OF alone, of v4 sid "id_user_id i" ?s1 reset_complete] own1 unfolding \<open>fst (w_store v4) = ?m1\<close> by simp
  have own2: "owned (?m1\<lparr>sm_sessions := hm_insert sid ?s2 (sm_sessions ?m1)\<rparr>) sid (id_user_id i) = Inr ?s2"
    using s ok by (simp add: result_simps reset_complete_def reset_start_def)
  have got2: "run_state (mgr_get ox sid (id_user_id i)) ?w2 = (Inr ?s2, ?w2\<lparr>w_tick := Suc (Suc (w_tick v4))\<rparr>)"
    using own2 by (simp add: run_mgr_get alone get_def)
  note closures = reset_start_def [abs_def] reset_complete_def [abs_def]
  have "run_state (reset_session ox srv sid req) w =
      (Inr (session_view_of (ox_clock ox (Suc (Suc (w_tick v4))) 0) ?s2),
       ?w2\<lparr>w_tick := Suc (Suc (Suc (w_tick v4)))\<rparr>)"
    unfolding reset_session_def closures [symmetric] gates attempt_ret sum.case
    using sc safe st got start v1 v2 unit [of "reset_source ox srv (sm_manifest m) sc s" v2]
      unit [of "reset_shuttle ox srv api i (sm_manifest m) sc s" v3] finish got2
    by (simp add: v3 [symmetric] v4 [symmetric] view_now_def read_clock_def)
  moreover have "sv_status (session_view_of c ?s2) = Active" for c by (simp add: session_view_of_def reset_complete_def)
  moreover have "hm_get (sm_sessions (fst (w_store (?w2\<lparr>w_tick := Suc (Suc (Suc (w_tick v4)))\<rparr>)))) sid = Some ?s2" using ok by simp
  ultimately show thesis by (rule that)
qed

subsection \<open>Properties\<close>

text \<open>C36: A reset reports success and does not empty the session. For the owner, with an API client and nothing else
  running, \<open>reset_session\<close> answers the session as Active, and the stored session is Active with the two notes of
  the reset in its log, whatever the API, the databases and the files answered: every step between the notes may fail.
  Among its calls is never the delete of a namespace, the session's or another, though the
  reset means to drop the tables of the session: its statement for that fails in the client and is not sent.\<close>

theorem reset_reports_success_but_keeps_tables:
  assumes client: "srv_api srv = Some api" and on: "srv_sessions srv" and id: "rq_identity req = Some i"
    and alone: "\<And>n st. ox_others ox n st = st"
    and s: "hm_get (sm_sessions (fst (w_store w))) sid = Some s" "s_user_id s = id_user_id i"
    and sc: "mf_scenario (sm_manifest (fst (w_store w))) (s_scenario_id s) = Some sc"
    and inv: "manager_inv sha256 (fst (w_store w))" and digest: "\<And>x. length (sha256 x) = 32"
    and run: "run_state (reset_session ox srv sid req) w = (reply, w')"
  shows "(\<exists>v. reply = Inr v \<and> sv_status v = Active) \<and>
         (\<exists>t1 t2. hm_get (sm_sessions (fst (w_store w'))) sid = Some (reset_complete t2 (reset_start t1 s))) \<and>
         (\<exists>es. w_log w' = w_log w @ es \<and> list_all (\<lambda>e. \<not> drops_namespace api e) es) \<and>
         (\<exists>msg. run_state (exec_sql ox api i (''DROP NAMESPACE IF EXISTS '' @ s_namespace s @ '' CASCADE'')) w =
            (Inl (AStatus ''POST'' ''/api/v1/sql'' 400 msg), w))"
proof -
  obtain v w1 t1 t2 where "run_state (reset_session ox srv sid req) w = (Inr v, w1)" "sv_status v = Active"
    "hm_get (sm_sessions (fst (w_store w1))) sid = Some (reset_complete t2 (reset_start t1 s))"
    by (rule reset_runs [OF client on id alone s sc inv digest])
  moreover obtain es where "w_log w' = w_log w @ es" "list_all (\<lambda>e. \<not> drops_namespace api e) es"
    using sendsE [OF reset_keeps_namespace [OF client], of ox sid req w] run by (metis snd_conv)
  moreover note classify_drop_namespace [OF session_names_safe(3) [OF manager_invD(3) [OF inv s(1)] digest]]
  then have "\<exists>msg. run_state (exec_sql ox api i (''DROP NAMESPACE IF EXISTS '' @ s_namespace s @ '' CASCADE'')) w =
      (Inl (AStatus ''POST'' ''/api/v1/sql'' 400 msg), w)"
    by (simp add: exec_sql_def)
  ultimately show ?thesis using run by auto
qed

theorem reset_reports_success_but_keeps_tables_witness:
  "srv_api demo_server = Some demo_client \<and> manager_inv demo_sha demo_manager \<and>
   (\<exists>v w'. run_state (reset_session demo_outside demo_server 7 demo_request) demo_world = (Inr v, w') \<and> sv_status v = Active \<and>
      list_all (\<lambda>e. \<not> drops_namespace demo_client e) (w_log w'))"
proof -
  have world: "fst (w_store demo_world) = demo_manager" "w_log demo_world = []" by (simp_all add: demo_world_def)
  have s: "hm_get (sm_sessions (fst (w_store demo_world))) 7 = Some demo_session" using demo_get world by simp
  have sc: "mf_scenario (sm_manifest (fst (w_store demo_world))) (s_scenario_id demo_session) = Some demo_scenario"
    by (simp add: world demo_manager_def manager_new_def demo_session_def session_new_def mf_scenario_def demo_defs)
  have user: "s_user_id demo_session = id_user_id demo_identity" by (simp add: demo_session_def demo_identity_def)
  have inv: "manager_inv demo_sha (fst (w_store demo_world))" using demo_inv world by simp
  have on: "srv_api demo_server = Some demo_client" "srv_sessions demo_server" "rq_identity demo_request = Some demo_identity"
    by (simp_all add: demo_server_def demo_request_def)
  obtain r w' where run: "run_state (reset_session demo_outside demo_server 7 demo_request) demo_world = (r, w')" by fastforce
  have "ox_others demo_outside n st = st" "length (demo_sha x) = 32" for n st x by (simp_all add: demo_outside_def demo_sha_def)
  from reset_reports_success_but_keeps_tables [OF on this(1) s user sc inv this(2) run]
  show ?thesis using run on(1) inv world by auto
qed

end
