(* ===== verification/Divergences.thy ===== *)
theory Divergences
  imports Session_Reset
begin

text \<open>
  Concrete runs where the code does something other than its comments say or its author meant, for the observations that
  no property of the other theories shows.
\<close>

text \<open>\<open>tokenize_redis_line\<close> has no token for a quoted empty argument: the command loses its value.\<close>

theorem quoted_empty_argument_lost:
  "redis_commands (''SET k '' @ [CHR 0x22, CHR 0x22]) = [[''SET'', ''k'']]"
  by code_simp

text \<open>A line is cut at any \<open>#\<close>, not only when it starts with one, also between quotes.\<close>

theorem redis_comment_cuts_values:
  "redis_commands (''SET k '' @ [CHR 0x22] @ ''a#b'' @ [CHR 0x22]) = [[''SET'', ''k'', ''a'']]"
  by code_simp

text \<open>\<open>strip_sql_comments\<close> does not know string literals: it cuts at two dashes between quotes.\<close>

theorem dashes_in_literal_cut:
  "strip_sql_comments (''SELECT '' @ [CHR 0x27] @ ''a--b'' @ [CHR 0x27] @ '' FROM t'') = ''SELECT '' @ [CHR 0x27] @ ''a'' @ [CHR 0x0A]"
  by code_simp

text \<open>The sweep takes a connection by the first and last characters of its name and splices it into a statement as it
  is; the name need not be an identifier, and what is deleted is then the connection its head names.\<close>

theorem stale_connection_unchecked:
  "stale_connection {} [] (JObject [(''name'', JString ''pg_1;_src'')]) = Some ''pg_1;_src'' \<and>
   \<not> is_safe_identifier ''pg_1;_src'' \<and>
   classify_statement (''DROP CONNECTION IF EXISTS '' @ ''pg_1;_src'') = Some (DropConnection ''pg_1'')"
  by code_simp

text \<open>Neither the teardown of a key prefix nor the probe authenticates, though a script does when a password is set.\<close>

theorem redis_teardown_never_authenticates:
  "sends (\<lambda>e. \<forall>p. e \<noteq> ERedisCmd [''AUTH'', p]) (teardown_redis_namespace ox d ns)"
  "sends (\<lambda>e. \<forall>p. e \<noteq> ERedisCmd [''AUTH'', p]) (ping_redis ox d)"
proof -
  have conn: "sends (\<lambda>e. \<forall>p. e \<noteq> ERedisCmd [''AUTH'', p]) (redis_conn ox)"
    unfolding redis_conn_def redis_pool_def by (auto intro!: sends_intro split: option.split sum.split)
  show "sends (\<lambda>e. \<forall>p. e \<noteq> ERedisCmd [''AUTH'', p]) (teardown_redis_namespace ox d ns)"
    unfolding teardown_redis_namespace_def
    by (intro sends_guarded sends_attempt conn sends_bind_gets sends_redis_scan) simp_all
  show "sends (\<lambda>e. \<forall>p. e \<noteq> ERedisCmd [''AUTH'', p]) (ping_redis ox d)"
    unfolding ping_redis_def by (cases d) (auto intro!: sends_intro sends_noop conn)
qed

end
