(* ===== verification/Persist_Race.thy ===== *)
theory Persist_Race
  imports Session_Machine Session_Persist "HOL-Library.Multiset" "HOL-Library.Countable"
begin

text \<open>
  The session file when several tasks persist at once. An operation of the manager runs under its
  locks; \<open>persist\<close> runs after they are released, as three steps that other tasks may come between:
  the snapshot, the write of the temporary file and its renaming. All tasks write the same temporary
  file. A write is one step here; a real one may also be seen half done.

  With \<open>apart\<close> no snapshot is taken while another task is between its snapshot and the end of its
  writing; with \<open>healthy\<close> no file operation fails on its own (renaming a missing file always does).
\<close>

subsection \<open>Steps\<close>

datatype writer = Called | Snapped "session_row list" | Written

type_synonym race = "session_manager \<times> disk \<times> writer multiset"

text \<open>
  The part of an operation under the locks. It runs on an empty disk with a \<open>persist\<close> that succeeds,
  so that the disk afterwards shows whether it has called \<open>persist\<close>.
\<close>

definition probe :: persist_env where
  "probe = \<lparr>pe_encode = (\<lambda>_. Some []), pe_io = Persisted\<rparr>"

definition persist_call :: "store \<Rightarrow> writer multiset" where
  "persist_call st = (if snd st = Map.empty then {#} else {#Called#})"

inductive locked_step :: "(str \<Rightarrow> u8 list) \<Rightarrow> session_manager \<Rightarrow> store \<Rightarrow> bool" for sha256 where
  created: "owner_of m i = None \<Longrightarrow> create sha256 probe c1 c2 i u t sc ttl (m, Map.empty) = (r, st) \<Longrightarrow>
    locked_step sha256 m st"
| noted: "notes_only f \<Longrightarrow> update probe i u f (m, Map.empty) = (Returns r, st) \<Longrightarrow> locked_step sha256 m st"
| prolonged: "update probe i u (extend_closure c1 c2 extra) (m, Map.empty) = (r, st) \<Longrightarrow> locked_step sha256 m st"
| ended: "end_session_of probe i u (m, Map.empty) = (r, st) \<Longrightarrow> locked_step sha256 m st"
| touched: "touch_action t1 t2 i u m = (r, m') \<Longrightarrow> locked_step sha256 m (m', Map.empty)"
| swept: "sweep_expired probe clk (m, Map.empty) = (gone, st) \<Longrightarrow> locked_step sha256 m st"

inductive race_step ::
    "(str \<Rightarrow> u8 list) \<Rightarrow> (session_row list \<Rightarrow> str option) \<Rightarrow> str \<Rightarrow> bool \<Rightarrow> bool \<Rightarrow> race \<Rightarrow> race \<Rightarrow> bool"
  for sha256 enc path apart healthy where
  operate: "locked_step sha256 m st \<Longrightarrow>
    race_step sha256 enc path apart healthy (m, d, W) (fst st, d, persist_call st + W)"
| snap: "(apart \<Longrightarrow> set_mset W \<subseteq> {Called}) \<Longrightarrow>
    race_step sha256 enc path apart healthy (m, d, add_mset Called W) (m, d, add_mset (Snapped (persist_snapshot m)) W)"
| not_encoded: "enc rows = None \<Longrightarrow>
    race_step sha256 enc path apart healthy (m, d, add_mset (Snapped rows) W) (m, d, W)"
| written: "enc rows = Some json \<Longrightarrow>
    race_step sha256 enc path apart healthy (m, d, add_mset (Snapped rows) W)
      (m, d(tmp_path path \<mapsto> json), add_mset Written W)"
| not_written: "\<not> healthy \<Longrightarrow> enc rows \<noteq> None \<Longrightarrow>
    race_step sha256 enc path apart healthy (m, d, add_mset (Snapped rows) W) (m, d(tmp_path path := rest), W)"
| renamed: "d (tmp_path path) \<noteq> None \<Longrightarrow>
    race_step sha256 enc path apart healthy (m, d, add_mset Written W) (m, rename_file (tmp_path path) path d, W)"
| not_renamed: "\<not> healthy \<or> d (tmp_path path) = None \<Longrightarrow>
    race_step sha256 enc path apart healthy (m, d, add_mset Written W) (m, d, W)"

abbreviation race_run ::
    "(str \<Rightarrow> u8 list) \<Rightarrow> (session_row list \<Rightarrow> str option) \<Rightarrow> str \<Rightarrow> bool \<Rightarrow> bool \<Rightarrow> race \<Rightarrow> race \<Rightarrow> bool" where
  "race_run sha256 enc path apart healthy \<equiv> rtranclp (race_step sha256 enc path apart healthy)"

subsection \<open>One task alone\<close>

text \<open>When no other task comes between its steps, a call of \<open>persist\<close> does what \<open>persist_rows\<close> says.\<close>

lemma persist_alone:
  assumes "sm_persistence_path m = Some path" and "enc (persist_snapshot m) = Some json" and "set_mset W \<subseteq> {Called}"
  shows "race_run sha256 enc path apart healthy (m, d, add_mset Called W)
           (m, snd (persist \<lparr>pe_encode = enc, pe_io = Persisted\<rparr> (m, d)), W)"
proof -
  let ?R = "race_step sha256 enc path apart healthy"
  let ?d = "d(tmp_path path \<mapsto> json)"
  have "rtranclp ?R (m, d, add_mset Called W) (m, d, add_mset (Snapped (persist_snapshot m)) W)"
    using assms(3) by (intro r_into_rtranclp race_step.snap)
  also have "?R (m, d, add_mset (Snapped (persist_snapshot m)) W) (m, ?d, add_mset Written W)"
    using assms(2) by (rule race_step.written)
  also have "?R (m, ?d, add_mset Written W) (m, rename_file (tmp_path path) path ?d, W)"
    by (rule race_step.renamed) simp
  finally show ?thesis using assms(1,2) by (simp add: persist_def persist_rows_def)
qed

subsection \<open>The operations\<close>

lemma map_update_same:
  assumes "distinct (map fst xs)" and "map_of xs k = Some v" and "f v' = f v"
  shows "map (\<lambda>kv. f (snd kv)) (AList.update k v' xs) = map (\<lambda>kv. f (snd kv)) xs"
  using assms by (induction xs) (auto simp: map_of_eq_None_iff split: if_splits)

lemma touch_snapshot:
  assumes "hm_ok (sm_sessions m)"
  shows "persist_snapshot (snd (touch_action t1 t2 i u m)) = persist_snapshot m"
proof -
  have "persist_snapshot (m\<lparr>sm_sessions := hm_insert i (s\<lparr>s_last_action_at := t\<rparr>) (sm_sessions m)\<rparr>) =
      persist_snapshot m" if "hm_get (sm_sessions m) i = Some s" for s t
    using that assms map_update_same [of "sm_sessions m" i s session_row.truncate "s\<lparr>s_last_action_at := t\<rparr>"]
    by (simp add: persist_snapshot_def hm_defs session_row.truncate_def o_def)
  then show ?thesis
    by (auto simp: touch_action_def owned_cases Let_def split: option.split)
qed

lemma touch_path: "sm_persistence_path (snd (touch_action t1 t2 i u m)) = sm_persistence_path m"
  by (auto simp: touch_action_def owned_cases Let_def split: option.split)

lemma persist_calls [simp]: "sm_persistence_path m \<noteq> None \<Longrightarrow> snd (persist probe (m, d)) \<noteq> Map.empty"
proof
  assume "sm_persistence_path m \<noteq> None"
  then obtain path where path: "sm_persistence_path m = Some path" by blast
  assume "snd (persist probe (m, d)) = Map.empty"
  then have "snd (persist probe (m, d)) path = None" by simp
  then show False using path by (simp add: persist_disk persist_rows_file probe_def)
qed

lemma update_path:
  "update P i u f (m, d) = (r, st) \<Longrightarrow> sm_persistence_path (fst st) = sm_persistence_path m"
  by (auto simp: update_def Let_def split: sum.splits prod.splits outcome.splits)

lemma update_calls:
  assumes "update probe i u f (m, Map.empty) = (Returns r, st)" and "sm_persistence_path m = Some path"
    and "snd st = Map.empty"
  shows "fst st = m"
  using assms by (auto simp: update_def Let_def split: sum.splits prod.splits outcome.splits)

lemma sweep_path: "sm_persistence_path (snd (sweep_ids ids m es)) = sm_persistence_path m"
  by (induction ids m es rule: sweep_ids.induct) (auto simp: Let_def split: option.split)

text \<open>An operation keeps the invariant and the path, and when it has not called \<open>persist\<close> the rows too.\<close>

lemma locked_keeps:
  assumes "locked_step sha256 m st" and inv: "manager_inv sha256 m" and path: "sm_persistence_path m = Some path"
  shows "manager_inv sha256 (fst st) \<and> sm_persistence_path (fst st) = Some path \<and>
         (snd st = Map.empty \<longrightarrow> persist_snapshot (fst st) = persist_snapshot m)"
  using assms(1)
proof (cases rule: locked_step.cases)
  case (created i c1 c2 u t sc ttl r)
  then show ?thesis
    using manager_inv_create [OF inv, of i probe c1 c2 u t sc ttl Map.empty] path
    by (auto simp: create_cases create_state_def Let_def split: option.splits if_splits)
next
  case (noted f i u r)
  then have "manager_inv sha256 (fst st)"
    using manager_inv_update [OF inv, of i u f probe Map.empty] notes_only_ok by fastforce
  then show ?thesis using update_path [OF noted(2)] update_calls [OF noted(2) path] path by simp
next
  case (prolonged i u c1 c2 extra r)
  have inv': "manager_inv sha256 (fst st)"
    using prolonged manager_inv_update [OF inv, of i u "extend_closure c1 c2 extra" probe Map.empty] extend_closure_ok
    by fastforce
  have "persist_snapshot (fst st) = persist_snapshot m" if "snd st = Map.empty"
  proof (cases "owned m i u")
    case (Inl e)
    then show ?thesis using prolonged by (auto simp: update_def)
  next
    case (Inr s)
    then have "hm_get (sm_sessions m) i = Some s" by (simp add: result_simps)
    then have "persist_snapshot (m\<lparr>sm_sessions := hm_insert i s (sm_sessions m)\<rparr>) = persist_snapshot m"
      using manager_invD(1) [OF inv] map_update_same [of "sm_sessions m" i s session_row.truncate s]
      by (simp add: persist_snapshot_def hm_defs o_def)
    then show ?thesis
      using prolonged that Inr path
      by (auto simp: update_def extend_closure_def Let_def split: prod.splits outcome.splits)
  qed
  then show ?thesis using inv' update_path [OF prolonged] path by simp
next
  case (ended i u r)
  then show ?thesis
    using manager_inv_end [OF inv, of probe i u Map.empty] path
    by (auto simp: end_session_of_def Let_def split: sum.splits)
next
  case (touched t1 t2 i u r m')
  then show ?thesis
    using manager_inv_touch [of sha256 m t1 t2 i u] inv path touch_snapshot [OF manager_invD(1) [OF inv], of t1 t2 i u]
      touch_path [of t1 t2 i u m] by simp
next
  case (swept clk gone)
  have "fst st = m" if "snd st = Map.empty"
  proof -
    have none: "gone = []" using swept that sweep_path path by (auto simp: sweep_expired_cases split: if_splits)
    then have "expired_ids clk m = []" using sweep_expired_gone [OF inv, of probe clk Map.empty] swept by simp
    then show ?thesis using swept by (auto simp: sweep_expired_cases)
  qed
  then show ?thesis
    using swept sweep_expired_laws(1) [OF inv, of probe clk Map.empty] sweep_path path
    by (auto simp: sweep_expired_cases split: if_splits)
qed


subsection \<open>Writers that stay apart\<close>

definition busy :: "writer multiset \<Rightarrow> writer multiset" where
  "busy W = filter_mset (\<lambda>x. x \<noteq> Called) W"

lemma busy_simps [simp]:
  "busy {#} = {#}" "busy (add_mset Called W) = busy W" "busy (A + B) = busy A + busy B"
  "busy (add_mset (Snapped rows) W) = add_mset (Snapped rows) (busy W)" "busy (add_mset Written W) = add_mset Written (busy W)"
  "busy (persist_call st) = {#}"
  by (simp_all add: busy_def persist_call_def)

lemma busy_empty: "busy W = {#} \<longleftrightarrow> set_mset W \<subseteq> {Called}"
  by (auto simp: busy_def filter_mset_eq_mempty_iff)

lemma idle_others:
  assumes "busy W = {#}"
  shows "Snapped rows \<notin># W" and "Written \<notin># W" and "Called \<in># W \<or> W = {#}"
  using assms unfolding busy_empty by (cases W; auto)+

text \<open>
  At most one task writes, what it has written is complete, and unless a task is still to take its
  snapshot, the last snapshot is the current one. \<open>m0\<close> and \<open>f0\<close> are the manager and the contents of
  the file at the start.
\<close>

fun writing_inv ::
    "(str \<Rightarrow> u8 list) \<Rightarrow> (session_row list \<Rightarrow> str option) \<Rightarrow> str \<Rightarrow> session_manager \<Rightarrow> str option \<Rightarrow> race \<Rightarrow> bool" where
  "writing_inv sha256 enc path m0 f0 (m, d, W) \<longleftrightarrow>
     manager_inv sha256 m \<and> sm_persistence_path m = Some path \<and>
     size (busy W) \<le> 1 \<and> (Written \<in># W \<longrightarrow> d (tmp_path path) \<noteq> None) \<and>
     (Called \<in># W \<or>
      (\<forall>rows. Snapped rows \<in># W \<longrightarrow> rows = persist_snapshot m) \<and>
      (Written \<in># W \<longrightarrow> d (tmp_path path) = enc (persist_snapshot m)) \<and>
      (W = {#} \<longrightarrow> d path = enc (persist_snapshot m) \<or>
                   d path = f0 \<and> persist_snapshot m = persist_snapshot m0))"

lemma writing_inv_step:
  assumes "race_step sha256 enc path True True a b" and "writing_inv sha256 enc path m0 f0 a" and enc: "\<And>rows. enc rows \<noteq> None"
  shows "writing_inv sha256 enc path m0 f0 b"
  using assms(1,2)
proof (cases rule: race_step.cases)
  case (operate m st d W)
  then have "manager_inv sha256 m" "sm_persistence_path m = Some path" using assms(2) by simp_all
  note keeps = locked_keeps [OF operate(3) this]
  show ?thesis
  proof (cases "snd st = Map.empty")
    case True
    then show ?thesis using assms(2) keeps by (simp add: operate(1,2) persist_call_def)
  next
    case False
    then show ?thesis using assms(2) keeps by (simp add: operate(1,2)) (simp add: persist_call_def)
  qed
next
  case (snap W m d)
  then have "busy W = {#}" by (simp add: busy_empty)
  then show ?thesis using assms(2) idle_others [of W] by (simp add: snap(1,2))
next
  case (written rows json m d W)
  then have "busy W = {#}" using assms(2) by simp
  then show ?thesis using assms(2) written(3) idle_others [of W] by (auto simp: written(1,2))
next
  case (renamed d m W)
  then have "busy W = {#}" using assms(2) by simp
  then show ?thesis using assms(2) idle_others [of W] by (auto simp: renamed(1,2) rename_file_def)
qed (use enc in auto)

lemma writing_inv_run:
  assumes "race_run sha256 enc path True True a b" and "writing_inv sha256 enc path m0 f0 a" and "\<And>rows. enc rows \<noteq> None"
  shows "writing_inv sha256 enc path m0 f0 b"
  using assms(1,2)
proof (induction rule: rtranclp_induct)
  case (step b c)
  show ?case by (rule writing_inv_step [OF step.hyps(2) step.IH [OF step.prems] assms(3)])
qed

lemma writing_inv_start:
  "manager_inv sha256 m \<Longrightarrow> sm_persistence_path m = Some path \<Longrightarrow> writing_inv sha256 enc path m (d path) (m, d, {#})"
  by simp

text \<open>
  All tasks share the temporary file: when the write of one fails between the write and the renaming of
  another, the other puts what the failed write left in place of the session file.
\<close>

theorem failed_write_is_renamed:
  assumes "enc (persist_snapshot m) = Some json"
  shows "\<exists>d'. race_run sha256 enc path False False (m, d, {#Called, Called#}) (m, d', {#}) \<and> d' path = Some rest"
proof -
  let ?R = "race_step sha256 enc path False False"
  let ?rows = "Snapped (persist_snapshot m)"
  let ?d1 = "d(tmp_path path \<mapsto> json)"
  let ?d2 = "?d1(tmp_path path := Some rest)"
  have "?R (m, d, {#Called, Called#}) (m, d, {#?rows, Called#})" by (rule race_step.snap) simp
  also have "rtranclp ?R (m, d, {#?rows, Called#}) (m, d, {#?rows, ?rows#})"
    unfolding add_mset_commute [of ?rows Called] by (intro r_into_rtranclp race_step.snap) simp
  also have "?R (m, d, {#?rows, ?rows#}) (m, ?d1, {#Written, ?rows#})"
    using assms by (rule race_step.written)
  also have "?R (m, ?d1, {#Written, ?rows#}) (m, ?d2, {#Written#})"
    unfolding add_mset_commute [of Written ?rows] by (rule race_step.not_written) (simp_all add: assms)
  also have "?R (m, ?d2, {#Written#}) (m, rename_file (tmp_path path) path ?d2, {#})"
    by (rule race_step.renamed) simp
  finally show ?thesis by (fastforce simp: rename_file_def)
qed

subsection \<open>Properties\<close>

text \<open>C32: The file mirrors the memory whenever no persist is under way, as long as persists do not
  overlap. Over any run of the operations of the manager from any consistent manager, in which no file
  operation fails and a task takes its snapshot only when no other is between its snapshot and its
  renaming (the operations themselves may come between any two steps): when no task is persisting, the
  session file holds the encoding of the sessions in memory, unless nothing of the rows has changed
  since the start and the file is still the one found then.\<close>

theorem disk_mirrors_memory:
  assumes "manager_inv sha256 m" and "sm_persistence_path m = Some path" and "\<And>rows. enc rows \<noteq> None"
    and "race_run sha256 enc path True True (m, d, {#}) (m', d', {#})"
  shows "d' path = enc (persist_snapshot m') \<or> d' path = d path \<and> persist_snapshot m' = persist_snapshot m"
  using writing_inv_run [OF assms(4) writing_inv_start [OF assms(1,2)] assms(3)] by simp

text \<open>A codec of rows: a sequence of rows as a number in unary.\<close>

instance session_status :: countable
  by countable_datatype

definition event_fields :: "session_event \<Rightarrow> utc_time \<times> str \<times> str \<times> str option \<times> bool option" where
  "event_fields e = (ev_at e, ev_kind e, ev_message e, ev_action_id e, ev_success e)"

definition event_of_fields :: "utc_time \<times> str \<times> str \<times> str option \<times> bool option \<Rightarrow> session_event" where
  "event_of_fields x =
     (case x of (at, k, msg, a, ok) \<Rightarrow> \<lparr>ev_at = at, ev_kind = k, ev_message = msg, ev_action_id = a, ev_success = ok\<rparr>)"

definition row_fields where
  "row_fields r =
     (s_id r, s_user_id r, s_tenant_id r, s_scenario_id r, s_namespace r, s_shuttle_name r, s_connection_name r,
      s_created_at r, s_expires_at r, s_ttl r, s_status r, map event_fields (s_events (r :: session_row)))"

definition row_of_fields where
  "row_of_fields x =
     (case x of (i, u, t, sc, ns, sh, cn, created, expires, ttl, st, es) \<Rightarrow>
        \<lparr>s_id = i, s_user_id = u, s_tenant_id = t, s_scenario_id = sc, s_namespace = ns, s_shuttle_name = sh,
         s_connection_name = cn, s_created_at = created, s_expires_at = expires, s_ttl = ttl, s_status = st,
         s_events = map event_of_fields es\<rparr>)"

lemma row_of_row_fields: "row_of_fields (row_fields r) = r"
proof -
  have "event_of_fields (event_fields e) = e" for e by (simp add: event_of_fields_def event_fields_def)
  then show ?thesis by (cases r) (simp add: row_of_fields_def row_fields_def comp_def)
qed

definition demo_encode :: "session_row list \<Rightarrow> str option" where
  "demo_encode rows = Some (replicate (to_nat (map row_fields rows)) (CHR ''1''))"

definition demo_decode :: "str \<Rightarrow> session_row list option" where
  "demo_decode b = Some (map row_of_fields (from_nat (length b)))"

lemma demo_codec: "demo_encode rows \<noteq> None" "demo_encode rows = Some b \<Longrightarrow> demo_decode b = Some rows"
  by (auto simp: demo_encode_def demo_decode_def row_of_row_fields comp_def)

text \<open>An operation of the manager and its call of \<open>persist\<close>, with nothing in between.\<close>

lemma operation_alone:
  assumes "locked_step sha256 m st" and "snd st \<noteq> Map.empty"
    and "sm_persistence_path (fst st) = Some path" and "\<And>rows. enc rows \<noteq> None"
  shows "race_run sha256 enc path apart healthy (m, d, {#})
           (fst st, snd (persist \<lparr>pe_encode = enc, pe_io = Persisted\<rparr> (fst st, d)), {#})"
proof -
  have "race_step sha256 enc path apart healthy (m, d, {#}) (fst st, d, {#Called#})"
    using race_step.operate [OF assms(1), of enc path apart healthy d "{#}"] assms(2) by (simp add: persist_call_def)
  moreover obtain json where "enc (persist_snapshot (fst st)) = Some json" using assms(4) by fastforce
  ultimately show ?thesis
    using persist_alone [OF assms(3), of enc json "{#}"] by (auto intro: converse_rtranclp_into_rtranclp)
qed

theorem disk_mirrors_memory_witness:
  "\<exists>m d. race_run demo_sha demo_encode ''data/playground/sessions.json'' True True (demo_manager, Map.empty, {#}) (m, d, {#}) \<and>
     hm_get (sm_sessions m) 7 = None \<and> d ''data/playground/sessions.json'' = demo_encode (persist_snapshot m)"
proof -
  let ?path = "''data/playground/sessions.json''"
  have path: "sm_persistence_path demo_manager = Some ?path" by (simp add: demo_manager_def)
  have s: "hm_get (sm_sessions demo_manager) 7 = Some demo_session" by (simp add: demo_get)
  have user: "s_user_id demo_session = ''alice''" by (simp add: demo_session_def)
  let ?m = "drop_session 7 demo_session demo_manager"
  have "owned demo_manager 7 ''alice'' = Inr demo_session" using s user by (simp add: result_simps)
  then have ended: "end_session_of probe 7 ''alice'' (demo_manager, Map.empty) =
      (Inr (demo_session\<lparr>s_status := Ended\<rparr>), persist probe (?m, Map.empty))"
    using user by (simp add: end_session_of_def Let_def drop_session_def)
  have m: "sm_persistence_path ?m = Some ?path" using path by (simp add: drop_session_def)
  have step: "locked_step demo_sha demo_manager (persist probe (?m, Map.empty))" by (rule locked_step.ended [OF ended])
  have "\<exists>d. race_run demo_sha demo_encode ?path True True (demo_manager, Map.empty, {#}) (?m, d, {#})"
    using operation_alone [OF step, where path = ?path and enc = demo_encode] m demo_codec(1) by auto
  then obtain d where run: "race_run demo_sha demo_encode ?path True True (demo_manager, Map.empty, {#}) (?m, d, {#})" by blast
  have gone: "hm_get (sm_sessions ?m) 7 = None" using drop_session_get(1) [OF demo_inv s] by simp
  have rows: "session_row.truncate demo_session \<in> set (persist_snapshot demo_manager)" "persist_snapshot ?m = []"
    by (simp_all add: persist_snapshot_def drop_session_def demo_manager_def hm_defs)
  then have "persist_snapshot ?m \<noteq> persist_snapshot demo_manager" by auto
  then have "d ?path = demo_encode (persist_snapshot ?m)"
    using disk_mirrors_memory [OF demo_inv path demo_codec(1) run] by blast
  then show ?thesis using run gone by blast
qed

text \<open>
  The overlap: one task marks a session as resetting and takes its snapshot, a second ends the session
  and persists, then the first writes.
\<close>

lemma overlapping_run:
  assumes inv: "manager_inv sha256 m" and s: "hm_get (sm_sessions m) i = Some s"
    and path: "sm_persistence_path m = Some path" and enc: "\<And>rows. enc rows \<noteq> None"
  shows "\<exists>m1 m2 d2. manager_inv sha256 m1 \<and> hm_get (sm_sessions m1) i = Some (s\<lparr>s_status := Resetting\<rparr>) \<and>
           hm_get (sm_sessions m2) i = None \<and> d2 path = enc (persist_snapshot m1) \<and>
           race_run sha256 enc path False True (m, d, {#}) (m2, d2, {#})"
proof -
  let ?R = "race_step sha256 enc path False True"
  let ?f = "\<lambda>s :: session. (Returns () :: unit outcome, s\<lparr>s_status := Resetting\<rparr>)"
  let ?s1 = "s\<lparr>s_status := Resetting\<rparr>"
  let ?m1 = "m\<lparr>sm_sessions := hm_insert i ?s1 (sm_sessions m)\<rparr>"
  let ?m2 = "drop_session i ?s1 ?m1"
  have ok [simp]: "hm_ok (sm_sessions m)" using manager_invD(1) [OF inv] .
  have only: "notes_only ?f" by (simp add: notes_only_def)
  have own: "owned m i (s_user_id s) = Inr s" using s by (simp add: result_simps)
  then have noted: "update probe i (s_user_id s) ?f (m, Map.empty) = (Returns (Inr ()), persist probe (?m1, Map.empty))"
    by (simp add: update_def)
  have p1: "sm_persistence_path ?m1 = Some path" and p2: "sm_persistence_path ?m2 = Some path"
    using path by (simp_all add: drop_session_def)
  have inv1: "manager_inv sha256 ?m1"
    using locked_keeps [OF locked_step.noted [OF only noted] inv path] by simp
  have s1: "hm_get (sm_sessions ?m1) i = Some ?s1" by simp
  have "owned ?m1 i (s_user_id s) = Inr ?s1" by (simp add: result_simps)
  then have ended: "end_session_of probe i (s_user_id s) (?m1, Map.empty) =
      (Inr (?s1\<lparr>s_status := Ended\<rparr>), persist probe (?m2, Map.empty))"
    by (simp add: end_session_of_def Let_def drop_session_def)
  obtain j1 j2 where j1: "enc (persist_snapshot ?m1) = Some j1" and j2: "enc (persist_snapshot ?m2) = Some j2"
    using enc by (metis not_None_eq)
  let ?old = "Snapped (persist_snapshot ?m1)"
  let ?d1 = "rename_file (tmp_path path) path (d(tmp_path path \<mapsto> j2))"
  let ?d2 = "rename_file (tmp_path path) path (?d1(tmp_path path \<mapsto> j1))"
  have "?R (m, d, {#}) (?m1, d, {#Called#})"
    using race_step.operate [OF locked_step.noted [OF only noted], of sha256 enc path False True d "{#}"] p1 by (simp add: persist_call_def)
  also have "rtranclp ?R (?m1, d, {#Called#}) (?m1, d, {#?old#})"
    by (intro r_into_rtranclp race_step.snap) simp
  also have "?R (?m1, d, {#?old#}) (?m2, d, {#Called, ?old#})"
    using race_step.operate [OF locked_step.ended [OF ended], of sha256 enc path False True d "{#?old#}"] p2 by (simp add: persist_call_def add_mset_commute)
  also have "?R (?m2, d, {#Called, ?old#}) (?m2, d, {#Snapped (persist_snapshot ?m2), ?old#})"
    by (rule race_step.snap) simp
  also have "?R (?m2, d, {#Snapped (persist_snapshot ?m2), ?old#}) (?m2, d(tmp_path path \<mapsto> j2), {#Written, ?old#})"
    using j2 by (rule race_step.written)
  also have "?R (?m2, d(tmp_path path \<mapsto> j2), {#Written, ?old#}) (?m2, ?d1, {#?old#})"
    by (rule race_step.renamed) simp
  also have "?R (?m2, ?d1, {#?old#}) (?m2, ?d1(tmp_path path \<mapsto> j1), {#Written#})"
    using j1 by (rule race_step.written)
  also have "?R (?m2, ?d1(tmp_path path \<mapsto> j1), {#Written#}) (?m2, ?d2, {#})"
    by (rule race_step.renamed) simp
  finally have run: "race_run sha256 enc path False True (m, d, {#}) (?m2, ?d2, {#})" .
  have "hm_get (sm_sessions ?m2) i = None" using drop_session_get(1) [OF inv1 s1] by simp
  moreover have "?d2 path = enc (persist_snapshot ?m1)" by (simp add: rename_file_def j1)
  ultimately show ?thesis using run inv1 s1 by blast
qed

text \<open>What a restart finds in a file that holds the rows of a consistent manager.\<close>

lemma restart_from_rows:
  assumes "manager_inv sha256 m" and "d (sessions_path dir) = enc (persist_snapshot m)" and "enc (persist_snapshot m) \<noteq> None"
    and "\<And>rows b. enc rows = Some b \<Longrightarrow> dec b = Some rows"
  shows "hm_get (sm_sessions (fst (new_with_persistence dec boot now mf en ttl dir d))) i \<noteq> None \<longleftrightarrow>
         (\<exists>s. hm_get (sm_sessions m) i = Some s \<and> now < s_expires_at s)"
proof -
  obtain b where b: "enc (persist_snapshot m) = Some b" using assms(3) by blast
  obtain m2 d2 where "new_with_persistence dec boot now mf en ttl dir d = (m2, d2)" by fastforce
  then show ?thesis
    using restart_state(5) [where d = d and dir = dir and dec = dec, OF assms(1) assms(2) [unfolded b] assms(4) [OF b]] by auto
qed

text \<open>C40: Two persists at once bring an ended session back. \<open>persist\<close> takes its snapshot under the lock but
  writes after it is released. From any consistent manager whose file mirrors it there is a run in which
  every file operation succeeds (a session is marked as resetting, its user ends it, and the task of the
  first operation writes its older snapshot last) after which no task is persisting, the session has left
  the manager, and a restart from the file has it again. When persists do not overlap no such run
  exists: whatever the operations, a session that has left the manager is not restored.\<close>

theorem stale_snapshot_overwrites:
  assumes inv: "manager_inv sha256 m" and s: "hm_get (sm_sessions m) i = Some s" "now < s_expires_at s"
    and path: "sm_persistence_path m = Some (sessions_path dir)" and mirror: "d (sessions_path dir) = enc (persist_snapshot m)"
    and enc: "\<And>rows. enc rows \<noteq> None" and codec: "\<And>rows b. enc rows = Some b \<Longrightarrow> dec b = Some rows"
  shows "(\<exists>m' d'. race_run sha256 enc (sessions_path dir) False True (m, d, {#}) (m', d', {#}) \<and>
            hm_get (sm_sessions m') i = None \<and>
            hm_get (sm_sessions (fst (new_with_persistence dec boot now mf en ttl dir d'))) i \<noteq> None) \<and>
         (\<forall>m' d' j. race_run sha256 enc (sessions_path dir) True True (m, d, {#}) (m', d', {#}) \<and>
            hm_get (sm_sessions m') j = None \<longrightarrow>
            hm_get (sm_sessions (fst (new_with_persistence dec boot now mf en ttl dir d'))) j = None)"
proof (intro conjI allI impI)
  obtain m1 m2 d2 where m1: "manager_inv sha256 m1" "hm_get (sm_sessions m1) i = Some (s\<lparr>s_status := Resetting\<rparr>)"
      and m2: "hm_get (sm_sessions m2) i = None" and d2: "d2 (sessions_path dir) = enc (persist_snapshot m1)"
      and run: "race_run sha256 enc (sessions_path dir) False True (m, d, {#}) (m2, d2, {#})"
    using overlapping_run [where enc = enc and d = d, OF inv s(1) path enc] by blast
  have "hm_get (sm_sessions (fst (new_with_persistence dec boot now mf en ttl dir d2))) i \<noteq> None"
    using restart_from_rows [where d = d2 and dir = dir and enc = enc and dec = dec, OF m1(1) d2 enc codec] m1(2) s(2) by auto
  then show "\<exists>m' d'. race_run sha256 enc (sessions_path dir) False True (m, d, {#}) (m', d', {#}) \<and>
      hm_get (sm_sessions m') i = None \<and>
      hm_get (sm_sessions (fst (new_with_persistence dec boot now mf en ttl dir d'))) i \<noteq> None"
    using run m2 by blast
next
  fix m' d' j
  assume run: "race_run sha256 enc (sessions_path dir) True True (m, d, {#}) (m', d', {#}) \<and> hm_get (sm_sessions m') j = None"
  have end_inv: "writing_inv sha256 enc (sessions_path dir) m (d (sessions_path dir)) (m', d', {#})"
    using writing_inv_run [where enc = enc, OF _ writing_inv_start [OF inv path, where d = d] enc] run by blast
  then have "manager_inv sha256 m'" and "d' (sessions_path dir) = enc (persist_snapshot m')" using mirror by auto
  then show "hm_get (sm_sessions (fst (new_with_persistence dec boot now mf en ttl dir d'))) j = None"
    using restart_from_rows [of sha256 m' d' dir enc dec boot now mf en ttl j] enc codec run by auto
qed

theorem stale_snapshot_overwrites_witness:
  "\<exists>m d. race_run demo_sha demo_encode (sessions_path ''data'') False True
       (demo_manager, [sessions_path ''data'' \<mapsto> the (demo_encode (persist_snapshot demo_manager))], {#}) (m, d, {#}) \<and>
     hm_get (sm_sessions m) 7 = None \<and>
     hm_get (sm_sessions (fst (new_with_persistence demo_decode (\<lambda>_. 3) 6000 demo_manifest True DEFAULT_TTL ''data'' d))) 7 \<noteq> None"
proof -
  have path: "sm_persistence_path demo_manager = Some (sessions_path ''data'')"
    by (simp add: demo_manager_def sessions_path_def path_join_def ends_with_def)
  have s: "hm_get (sm_sessions demo_manager) 7 = Some demo_session" "6000 < s_expires_at demo_session"
    by (simp_all add: demo_get) (simp add: demo_session_def session_new_def demo_clock_def from_std_def ttl_defs)
  let ?d = "[sessions_path ''data'' \<mapsto> the (demo_encode (persist_snapshot demo_manager))]"
  have "?d (sessions_path ''data'') = demo_encode (persist_snapshot demo_manager)" by (simp add: demo_encode_def)
  from stale_snapshot_overwrites [where d = ?d and dir = "''data''" and enc = demo_encode and dec = demo_decode, OF demo_inv s path this demo_codec(1) demo_codec(2)] show ?thesis by blast
qed

end
