(* ===== verification/Spec2Isabelle.thy ===== *)
theory Spec2Isabelle
  imports Action_Laws Server_Pacing Divergences Persist_Race
begin

text \<open>
  A verification library for the DataShuttle playground server: the Rust workspace with the
  library crate \<^verbatim>\<open>datashuttle-playground\<close> (sessions, quota, manifest, metrics, dispatcher trait)
  and the binary crate \<^verbatim>\<open>datashuttle-playground-server\<close> (configuration, middlewares, handlers,
  API client, dispatcher), both under \<^verbatim>\<open>src/crates/\<close>.

  \<^bold>\<open>The program.\<close> An authenticated user picks a scenario of the operator's manifest. The server
  creates a session with a bounded lifetime and names derived from user and session id,
  provisions a private schema, database or key prefix on a shared source, creates a shuttle
  through the API of the main product, and runs the actions the manifest whitelists. A session ends
  by request, or a reaper finds it expired; either way a teardown removes what was named after
  it. At boot a sweep removes what the API still has of sessions nobody remembers.

  \<^bold>\<open>Theories, in the order of their dependencies.\<close>

  \<^item> \<open>Prelude\<close>: results and the question-mark operator, operations that may panic, decimal
    numbers; the collections of rewrite rules. \<open>Rust_Text\<close>: \<open>str\<close> as its UTF-8 bytes, with the
    operations of the standard library the program uses. \<open>Hash_Map\<close>: the interface
    \<open>hash_table\<close> as a locale, interpreted on association lists.
  \<^item> \<open>Manifest\<close> (\<^verbatim>\<open>manifest.rs\<close>, \<open>load_manifest\<close> of \<^verbatim>\<open>main.rs\<close>): validation accepts exactly the
    well-formed manifests; lookups are unambiguous; the whitelist and the lookup agree.
  \<^item> \<open>Quota\<close> (\<^verbatim>\<open>quota.rs\<close>): the daily budget as a locale, interpreted on the tracker; a tenant gets
    exactly its limit per UTC day.
  \<^item> \<open>Names\<close> (\<^verbatim>\<open>sessions.rs\<close>, \<^verbatim>\<open>tcp.rs\<close>): derived names, the guards they meet, collisions.
  \<^item> \<open>Sessions\<close>, \<open>Session_Laws\<close>, \<open>Session_Persist\<close>, \<open>Session_Machine\<close> (\<^verbatim>\<open>sessions.rs\<close>): the manager as
    a record with one definition per method; what each does on every branch; the session file;
    and the manager as an inductive step relation over arbitrary interleavings, with its
    invariant over all reachable states. Ownership is the locale \<open>owner_guard\<close>, interpreted for
    each of the four operations that take an id.
  \<^item> \<open>Persist_Race\<close> (\<open>SessionManager::persist\<close>): the session file when several tasks persist at once, as a step
    relation of its own (snapshot, write and rename of each task, the operations in between). Without
    overlap the file mirrors the memory, with overlap an ended session can come back. In the other
    theories an operation and its \<open>persist\<close> are one step, which is the run without anything in between.
  \<^item> \<open>Session_Refinement\<close>: the manager refines a table of leases, a specification with a step relation
    of its own. The simulation is the locale \<open>simulation\<close>, interpreted on the two machines; what holds
    of every run of the specification is carried over by its lemmas.
  \<^item> \<open>Splitters\<close> (\<^verbatim>\<open>handlers.rs\<close>, \<^verbatim>\<open>dispatcher.rs\<close>): three scanners, each equal to a cut by an automaton.
  \<^item> \<open>Config\<close> (\<^verbatim>\<open>config.rs\<close>), \<open>Gateway\<close> (\<^verbatim>\<open>identity.rs\<close>, \<^verbatim>\<open>router.rs\<close>), \<open>Metrics\<close> (\<^verbatim>\<open>metrics.rs\<close>).
  \<^item> \<open>World\<close>: the state the handlers act on and the monad they run in. A call that leaves the
    process is an entry of a log; its answer is a function of the calls before it, so a theorem
    for every \<open>outside\<close> record holds for every behaviour of databases, API, files and processes.
    Before each use of the manager the other requests may change the store in any way (the
    hypothesis \<open>orderly\<close> of \<open>Server_Machine\<close>: by steps of the machine). \<open>sends\<close> and
    \<open>trace\<close> say which calls a computation makes, with rules for each construct.
  \<^item> \<open>Api_Client\<close> (\<^verbatim>\<open>api_client.rs\<close>), \<open>Dispatcher\<close> (\<^verbatim>\<open>dispatcher.rs\<close>, \<^verbatim>\<open>tcp.rs\<close>).
  \<^item> \<open>Placeholders\<close>, \<open>Actions\<close>, \<open>Teardown\<close>, \<open>Handlers\<close> (\<^verbatim>\<open>handlers.rs\<close>): templates, paths and quoting;
    the executor of actions; how resources go away; the HTTP handlers. \<open>Action_Laws\<close>: the chunked
    loop of the Kafka producer, the substitution in JSON bodies, the scope of scripts.
  \<^item> \<open>Frames\<close>: how a computation may move the world. The locale \<open>world_order\<close> states what a relation on worlds
    has to promise so that everything outside the session manager respects it; its lemmas walk once
    through the dispatcher, the actions and the teardown. \<open>manager_order\<close> and \<open>charging_order\<close> extend it by the
    uses of the manager and of the quota, and walk through the handlers. Interpreted on \<open>idle\<close> (the store is
    untouched), \<open>uncharged\<close> (the quota is) and, below, on \<open>follows\<close> (the store moves by steps of the machine) and
    \<open>paced\<close> (the stamps of the cooldown do not go back).
  \<^item> \<open>Session_End\<close>: a tick of the reaper and the handler that ends a session, each from the manager to
    the last call. \<open>Session_Reset\<close>: the handler that resets one; it reports success whatever fails and leaves the
    tables. \<open>Router\<close> (\<^verbatim>\<open>router.rs\<close>, \<open>routes\<close> of \<^verbatim>\<open>handlers.rs\<close>): the whole path of a request.
    \<open>Boot\<close> (\<^verbatim>\<open>main.rs\<close>): how the state of the server is put together, and the first tick after a
    restart.
  \<^item> \<open>Server_Machine\<close>: the handlers, the reaper and the orphan sweep as runs of the manager's machine, by rely
    and guarantee: while a task runs, others use the manager too, and each step of the task is a step of the
    machine that touches only the users it acts for. This carries the invariant, the limit of one live
    session (as long as no expired session is extended) and the lease specification over to the whole server, and
    isolates the users from each other.
  \<^item> \<open>Server_Quota\<close>: a sequence of requests and the quota they leave; how many sessions a tenant can get in a
    day from the whole server. \<open>Server_Pacing\<close>: the cooldown between the actions on one session, over any sequence
    of requests.
  \<^item> \<open>Divergences\<close>: concrete runs where the code does something other than its comments say.

  \<^bold>\<open>Conventions.\<close> A struct is a record with a prefix per type, an enum a datatype. A string is the
  list of its bytes. Machine integers are words where they are stored or can wrap; sums the code
  saturates or caps are written out. A \<open>Duration\<close> is a number of nanoseconds with its bound, an
  \<open>Instant\<close> a natural number, a UTC time an integer, both in nanoseconds; every operation takes
  its clock readings as arguments. Errors are the left side of a sum. A panic is the outcome
  \<open>Panics\<close>. Every loop is a terminating function: the scanners and the chunked producer shrink
  their input, and the \<open>SCAN\<close> loop of Redis runs over the finite list of pages of one iteration. So no
  definition needs fuel.

  \<^bold>\<open>Parameters.\<close> Code that is not in the repository is a parameter: SHA-256 (hypothesis: digests
  have 32 bytes), fresh ids (hypothesis where needed: not in use, and not drawn twice), serde's encoders and
  decoders (hypothesis for restarts: decoding an encoding gives it back), the drivers, the
  HTTP stack, processes and files.

  \<^bold>\<open>Not modelled.\<close> Logging through \<^verbatim>\<open>tracing\<close>; the counters and histograms of prometheus and their
  rendering; the loop of the listener once its address is bound, the timer of the reaper and task spawning;
  a write of the session file seen half done; the rollback the driver sends for a dropped
  transaction; tests, examples, images and scripts.
\<close>

end
